(* ===== verification/Supervise_Base.thy ===== *)
theory Supervise_Base
  imports Main "HOL-Library.Word"
begin

unbundle bit_operations_syntax

text \<open>
  Prelude of the development of \<open>src/supervise.c\<close>: the names of the model's types,
  the services' status enumeration and per-service record (\<open>struct svc\<close>), the
  directory model behind \<open>stat_isexec\<close> and \<open>stat_exists\<close>, the wait-status
  macros of \<open>wait.h\<close>, the decimal formatter \<open>fmt_uint\<close>, and the generic lemmas
  on bytes and words that the component theories share.
\<close>

named_theorems svc_simps "selector equations of the per-service accessors"
named_theorems kernel_simps "equations of the kernel interface used by the supervisor"

type_synonym pid_t = int
type_synonym byte = "8 word"

subsection \<open>Signals, errno, directory entries\<close>

datatype sig = SIGALRM | SIGHUP | SIGKILL | SIGTERM | SIGINT | SIGQUIT
  | SIGUSR1 | SIGUSR2 | SIGWINCH | SIGSTOP | SIGCONT

datatype errno = ECHILD | EINTR

text \<open>
  What \<open>stat(2)\<close> reports for a name of the service directory: it is missing
  (\<open>ENOENT\<close>), the call fails otherwise, or it succeeds with the file's
  regular-file bit and its owner-execute bit (\<open>st_mode & 0100\<close>).
\<close>

datatype stat_result = Noent | StatErr | Stat bool bool

type_synonym svdir = "string \<Rightarrow> stat_result"

definition stat_isexec :: "svdir \<Rightarrow> string \<Rightarrow> int" where
  "stat_isexec d path =
     (case d path of
        Noent \<Rightarrow> 0
      | StatErr \<Rightarrow> -1
      | Stat isreg xusr \<Rightarrow> (if isreg \<and> xusr then 1 else 0))"

definition stat_exists :: "svdir \<Rightarrow> string \<Rightarrow> int" where
  "stat_exists d path =
     (case d path of
        Stat _ _ \<Rightarrow> 1
      | Noent \<Rightarrow> 0
      | StatErr \<Rightarrow> -1)"

subsection \<open>Wait status\<close>

text \<open>
  A wait status is the integer \<open>waitpid\<close> stores. The macros are those of
  daemontools' \<open>wait.h\<close>: the low seven bits are the terminating signal, the next
  byte the exit code; \<open>wait_stopsig\<close> reads the same byte as \<open>wait_exitcode\<close>.
\<close>

type_synonym wstat = nat

definition wait_crashed :: "wstat \<Rightarrow> nat" where
  "wait_crashed w = w mod 128"

definition wait_exitcode :: "wstat \<Rightarrow> nat" where
  "wait_exitcode w = w div 256"

definition wait_stopsig :: "wstat \<Rightarrow> nat" where
  "wait_stopsig w = w div 256"

text \<open>The statuses the kernel reports for a normal exit and for death by a signal.\<close>

definition exited :: "nat \<Rightarrow> wstat" where
  "exited code = (code mod 256) * 256"

definition killed_by :: "nat \<Rightarrow> wstat" where
  "killed_by signo = signo mod 128"

subsection \<open>Decimal formatting\<close>

fun fmt_uint :: "nat \<Rightarrow> string" where
  "fmt_uint n =
     (if n < 10 then [char_of (48 + n)] else fmt_uint (n div 10) @ [char_of (48 + n mod 10)])"

text \<open>\<open>fmt_uint\<close> takes a C \<open>unsigned int\<close>: a C \<open>int\<close> is converted modulo \<open>2^32\<close>.\<close>

definition fmt_int_as_uint :: "int \<Rightarrow> string" where
  "fmt_int_as_uint i = fmt_uint (unat (word_of_int i :: 32 word))"

subsection \<open>Service status, timestamps, the per-service record\<close>

datatype svstatus =
    svstatus_stopped
  | svstatus_starting
  | svstatus_running
  | svstatus_started
  | svstatus_stopping
  | svstatus_failed
  | svstatus_orphanage

text \<open>A TAI timestamp with a nanosecond part: the 12 bytes the status record stores.\<close>

record taia =
  tai_sec :: "64 word"
  tai_nano :: "32 word"

record svc =
  pid :: pid_t
  flagstatus :: svstatus
  flagwant :: bool
  flagwantup :: bool
  flagpaused :: bool
  svc_when :: taia
  ranstop :: bool

text \<open>The outcome of one pass of a C \<open>for (;;)\<close> loop body.\<close>

datatype 'a loop_step = Continue 'a | Break 'a

text \<open>The two services; a \<open>struct svc *\<close> of the C code points to one of them.\<close>

datatype which = Main | Log

subsection \<open>Bytes of a word\<close>

text \<open>
  \<open>be_bytes n w\<close> is the big-endian encoding of the low \<open>n\<close> bytes of \<open>w\<close>,
  computed the way djb's packers do it: the last byte is \<open>w & 255\<close>, then
  \<open>w >>= 8\<close>. \<open>of_be\<close> reads such a byte string back.
\<close>

fun be_bytes :: "nat \<Rightarrow> 'a::len word \<Rightarrow> byte list" where
  "be_bytes 0 w = []"
| "be_bytes (Suc n) w = be_bytes n (drop_bit 8 w) @ [ucast w]"

definition of_be :: "byte list \<Rightarrow> 'a::len word" where
  "of_be bs = foldl (\<lambda>acc b. push_bit 8 acc OR ucast b) 0 bs"

subsection \<open>Generic lemmas\<close>

declare fmt_uint.simps [simp del]

lemma wait_exited [simp]:
  "wait_crashed (exited c) = 0" "wait_exitcode (exited c) = c mod 256"
  by (simp_all add: wait_crashed_def wait_exitcode_def exited_def)

lemma wait_killed [simp]:
  "wait_crashed (killed_by s) = s mod 128" "wait_exitcode (killed_by s) = 0"
  "wait_stopsig (killed_by s) = 0"
  by (simp_all add: wait_crashed_def wait_exitcode_def wait_stopsig_def killed_by_def)


lemma of_be_snoc: "of_be (bs @ [b]) = push_bit 8 (of_be bs) OR ucast b"
  by (simp add: of_be_def)

lemma of_be_be_bytes: "(of_be (be_bytes n w) :: 'a::len word) = take_bit (8 * n) w"
proof (induction n arbitrary: w)
  case 0
  then show ?case by (simp add: of_be_def)
next
  case (Suc n)
  show ?case
  proof (rule bit_word_eqI)
    fix i assume "i < LENGTH('a)"
    then show "bit (of_be (be_bytes (Suc n) w) :: 'a word) i = bit (take_bit (8 * Suc n) w) i"
      by (cases "i < 8") (auto simp: of_be_snoc Suc.IH bit_simps)
  qed
qed

lemma of_be_be_bytes_full:
  "LENGTH('a) \<le> 8 * n \<Longrightarrow> (of_be (be_bytes n w) :: 'a::len word) = w"
  by (simp add: of_be_be_bytes take_bit_word_eq_self)

lemma length_be_bytes [simp]: "length (be_bytes n w) = n"
  by (induction n arbitrary: w) auto

text \<open>A C \<open>int\<close> survives the round trip through a wider unsigned type and back.\<close>

lemma sint_ucast_word_of_int:
  assumes "- (2 ^ 31) \<le> i" "i < 2 ^ 31"
  shows "sint (ucast (word_of_int i :: 64 word) :: 32 word) = i"
proof -
  have "(ucast (word_of_int i :: 64 word) :: 32 word) = word_of_int i"
    by (rule bit_word_eqI) (auto simp: bit_simps)
  then show ?thesis
    using assms by (simp add: sint_sbintrunc' signed_take_bit_int_eq_self)
qed

lemma stat_isexec_cases:
  "stat_isexec d p \<in> {-1, 0, 1}"
  by (auto simp: stat_isexec_def split: stat_result.splits)

lemma stat_exists_cases:
  "stat_exists d p \<in> {-1, 0, 1}"
  by (auto simp: stat_exists_def split: stat_result.splits)

lemma fmt_uint_nonempty [simp]: "fmt_uint n \<noteq> []"
  by (subst fmt_uint.simps) simp

lemma fmt_uint_digit: "n < 10 \<Longrightarrow> fmt_uint n = [char_of (48 + n)]"
  by (simp add: fmt_uint.simps)

lemma fmt_uint_more: "10 \<le> n \<Longrightarrow> fmt_uint n = fmt_uint (n div 10) @ [char_of (48 + n mod 10)]"
  by (subst fmt_uint.simps) simp

text \<open>The two values the supervisor formats that matter below: \<open>0\<close> and \<open>-1\<close>.\<close>

lemma fmt_int_as_uint_zero [simp]: "fmt_int_as_uint 0 = ''0''"
  by (simp add: fmt_int_as_uint_def fmt_uint_digit char_of_def bit_simps)

lemma fmt_int_as_uint_minus_one [simp]: "fmt_int_as_uint (-1) = ''4294967295''"
proof -
  have "unat (-1 :: 32 word) = 4294967295" by (simp add: unsigned_minus_1_eq_mask mask_eq_exp_minus_1)
  then show ?thesis
    by (simp add: fmt_int_as_uint_def fmt_uint_digit fmt_uint_more char_of_def bit_simps)
qed

end
