(* ===== verification/Kernel.thy ===== *)
theory Kernel
  imports Supervise_Base
begin

text \<open>
  The operating-system interface the supervisor calls, modelled as an explicit
  kernel state: the supervisor's children (oldest first, running or exited and not
  yet reaped), the pid allocator, the process limit at which \<open>fork\<close> fails, the
  clock, the service directory, the status file, the control FIFO and the
  self-pipe, and a trace of the observable calls (forks, signals sent, sleeps,
  status writes, warnings). The supervisor's own record extends this one, so the
  kernel operations below apply to the whole state.
\<close>

record child =
  cpid :: pid_t
  cpgid :: pid_t
  cargv :: "string option list"
  credir :: "nat option"
  cexit :: "wstat option"

datatype event =
    Ev_fork pid_t "string option list"
  | Ev_fork_failed
  | Ev_kill int sig
  | Ev_sleep nat
  | Ev_status "byte list"
  | Ev_warn string

record kernel =
  children :: "child list"
  nextpid :: pid_t
  nproc_max :: nat
  self_pgid :: pid_t
  clock :: taia
  dirents :: svdir
  statusfile :: "byte list"
  status_room :: nat
  control :: "char list"
  control_nlink :: nat
  selfpipe :: nat
  trace :: "event list"

datatype wait_result = WPid pid_t wstat | WNone | WErr errno

subsection \<open>fork\<close>

text \<open>
  \<open>fork\<close> fails when the supervisor already has \<open>nproc_max\<close> children; otherwise the
  child gets the next pid and is its own group leader when it called \<open>setsid\<close>.
\<close>

definition sys_fork ::
  "bool \<Rightarrow> string option list \<Rightarrow> nat option \<Rightarrow> 'a kernel_scheme \<Rightarrow> pid_t \<times> 'a kernel_scheme" where
  "sys_fork setsid argv redir k =
     (if nproc_max k \<le> length (children k)
      then (-1, k\<lparr>trace := trace k @ [Ev_fork_failed]\<rparr>)
      else let p = nextpid k in
        (p, k\<lparr>children := children k @
                 [\<lparr>cpid = p, cpgid = (if setsid then p else self_pgid k),
                   cargv = argv, credir = redir, cexit = None\<rparr>],
             nextpid := p + 1,
             trace := trace k @ [Ev_fork p argv]\<rparr>))"

subsection \<open>waitpid with WNOHANG\<close>

text \<open>
  Which children a \<open>waitpid\<close> argument selects: \<open>-1\<close> any child, \<open>-g\<close> the
  children of process group \<open>g\<close>, \<open>0\<close> those of the caller's group, a positive pid
  that child.
\<close>

definition wait_selects :: "int \<Rightarrow> pid_t \<Rightarrow> child \<Rightarrow> bool" where
  "wait_selects target own c =
     (if target = -1 then True
      else if target < -1 then cpgid c = - target
      else if target = 0 then cpgid c = own
      else cpid c = target)"

fun take_zombie :: "(child \<Rightarrow> bool) \<Rightarrow> child list \<Rightarrow> (child \<times> child list) option" where
  "take_zombie P [] = None"
| "take_zombie P (c # cs) =
     (if P c \<and> cexit c \<noteq> None then Some (c, cs)
      else map_option (\<lambda>(z, cs'). (z, c # cs')) (take_zombie P cs))"

definition sys_waitpid :: "int \<Rightarrow> 'a kernel_scheme \<Rightarrow> wait_result \<times> 'a kernel_scheme" where
  "sys_waitpid target k =
     (let P = wait_selects target (self_pgid k) in
      case take_zombie P (children k) of
        Some (z, cs) \<Rightarrow> (WPid (cpid z) (the (cexit z)), k\<lparr>children := cs\<rparr>)
      | None \<Rightarrow> (if (\<exists>c \<in> set (children k). P c) then WNone else WErr ECHILD, k))"

abbreviation wait_nohang :: "'a kernel_scheme \<Rightarrow> wait_result \<times> 'a kernel_scheme" where
  "wait_nohang \<equiv> sys_waitpid (-1)"

subsection \<open>Signals, sleeping, the status file, the self-pipe\<close>

definition sys_kill :: "int \<Rightarrow> sig \<Rightarrow> 'a kernel_scheme \<Rightarrow> 'a kernel_scheme" where
  "sys_kill target signo k = k\<lparr>trace := trace k @ [Ev_kill target signo]\<rparr>"

definition deepsleep :: "nat \<Rightarrow> 'a kernel_scheme \<Rightarrow> 'a kernel_scheme" where
  "deepsleep n k = k\<lparr>trace := trace k @ [Ev_sleep n]\<rparr>"

definition strerr_warn :: "string \<Rightarrow> 'a kernel_scheme \<Rightarrow> 'a kernel_scheme" where
  "strerr_warn msg k = k\<lparr>trace := trace k @ [Ev_warn msg]\<rparr>"

text \<open>
  \<open>write\<close> at offset zero of the status file: the file accepts at most
  \<open>status_room\<close> bytes, so the write may be short.
\<close>

definition sys_write_status :: "byte list \<Rightarrow> 'a kernel_scheme \<Rightarrow> nat \<times> 'a kernel_scheme" where
  "sys_write_status bs k =
     (let r = min (length bs) (status_room k) in
      (r, k\<lparr>statusfile := take r bs @ drop r (statusfile k),
            trace := trace k @ [Ev_status (take r bs)]\<rparr>))"

definition selfpipe_write :: "'a kernel_scheme \<Rightarrow> 'a kernel_scheme" where
  "selfpipe_write k = k\<lparr>selfpipe := Suc (selfpipe k)\<rparr>"

definition control_write :: "char list \<Rightarrow> 'a kernel_scheme \<Rightarrow> 'a kernel_scheme" where
  "control_write bs k = k\<lparr>control := control k @ bs\<rparr>"

subsection \<open>Observations\<close>

definition zombies :: "child list \<Rightarrow> nat" where
  "zombies cs = length (filter (\<lambda>c. cexit c \<noteq> None) cs)"

text \<open>The signals a trace records, in the order they were sent.\<close>

fun kills :: "event list \<Rightarrow> (int \<times> sig) list" where
  "kills [] = []"
| "kills (Ev_kill t sg # es) = (t, sg) # kills es"
| "kills (_ # es) = kills es"

text \<open>The programs a trace records as forked, in order.\<close>

fun forks :: "event list \<Rightarrow> (pid_t \<times> string option list) list" where
  "forks [] = []"
| "forks (Ev_fork p argv # es) = (p, argv) # forks es"
| "forks (_ # es) = forks es"

text \<open>
  A kernel state the supervisor can start in: the allocator is positive and above
  every existing child's pid.
\<close>

definition kernel_ok :: "'a kernel_scheme \<Rightarrow> bool" where
  "kernel_ok k \<longleftrightarrow> 0 < nextpid k \<and> (\<forall>c \<in> set (children k). 0 < cpid c \<and> cpid c < nextpid k)"

subsection \<open>Kernel lemmas\<close>

lemma kills_append [simp]: "kills (xs @ ys) = kills xs @ kills ys"
  by (induction xs rule: kills.induct) auto

lemma forks_append [simp]: "forks (xs @ ys) = forks xs @ forks ys"
  by (induction xs rule: forks.induct) auto

lemma take_zombie_Some:
  "take_zombie P cs = Some (z, cs') \<Longrightarrow>
     P z \<and> cexit z \<noteq> None \<and> z \<in> set cs \<and> set cs' \<subseteq> set cs \<and>
     zombies cs' < zombies cs \<and> length cs' < length cs"
  by (induction P cs arbitrary: cs' rule: take_zombie.induct)
     (auto simp: zombies_def split: if_splits)

lemma take_zombie_None:
  "take_zombie P cs = None \<longleftrightarrow> (\<forall>c \<in> set cs. P c \<longrightarrow> cexit c = None)"
  by (induction P cs rule: take_zombie.induct) auto

lemma take_zombie_remove:
  "take_zombie P cs = Some (z, cs') \<Longrightarrow> set cs \<subseteq> insert z (set cs')"
  by (induction P cs arbitrary: cs' rule: take_zombie.induct)
     (auto split: if_splits)

lemma sys_waitpid_zombies:
  "sys_waitpid t k = (WPid p w, k') \<Longrightarrow> zombies (children k') < zombies (children k)"
  by (auto simp: sys_waitpid_def Let_def dest!: take_zombie_Some split: option.splits if_splits)

lemma sys_waitpid_no_pid:
  "sys_waitpid t k = (r, k') \<Longrightarrow> (\<forall>p w. r \<noteq> WPid p w) \<Longrightarrow> k' = k"
  by (auto simp: sys_waitpid_def Let_def split: option.splits if_splits)

lemma sys_waitpid_not_eintr [simp]:
  "fst (sys_waitpid t k) \<noteq> WErr EINTR"
  by (auto simp: sys_waitpid_def Let_def split: option.splits)

lemma sys_waitpid_err:
  "sys_waitpid t k = (WErr e, k') \<Longrightarrow> e = ECHILD \<and> k' = k"
  by (auto simp: sys_waitpid_def Let_def split: option.splits if_splits)

lemma sys_waitpid_none:
  "sys_waitpid t k = (WNone, k') \<Longrightarrow> k' = k"
  by (auto simp: sys_waitpid_def Let_def split: option.splits if_splits)

lemma sys_waitpid_frame [kernel_simps]:
  "sys_waitpid t k = (r, k') \<Longrightarrow>
     k' = k\<lparr>children := children k'\<rparr>"
  by (auto simp: sys_waitpid_def Let_def split: option.splits if_splits)

lemma sys_fork_result:
  "sys_fork ss argv rd k = (f, k') \<Longrightarrow>
     (f = -1 \<and> length (children k) \<ge> nproc_max k \<and> children k' = children k \<and> nextpid k' = nextpid k)
   \<or> (f = nextpid k \<and> length (children k) < nproc_max k \<and> nextpid k' = nextpid k + 1 \<and>
      children k' = children k @ [\<lparr>cpid = f, cpgid = (if ss then f else self_pgid k),
                                   cargv = argv, credir = rd, cexit = None\<rparr>])"
  by (auto simp: sys_fork_def Let_def split: if_splits)

end
