(* ===== verification/Status_Record.thy ===== *)
theory Status_Record
  imports Supervise_Base
begin

text \<open>
  The 20-byte status record of one service (\<open>make_status\<close>, supervise.c lines
  143--159): a 12-byte timestamp, the pid as four bytes least significant first,
  the paused flag (masked by the pid), the want marker \<open>'u'\<close>/\<open>'d'\<close>/0, the
  status code and a zero byte. The theory defines a decoder for the record and
  proves that decoding recovers what the record publishes, and conversely that
  every record the decoder accepts is the encoding of what it decodes to.
\<close>

subsection \<open>Timestamps and status codes\<close>

definition taia_pack :: "taia \<Rightarrow> byte list" where
  "taia_pack t = be_bytes 8 (tai_sec t) @ be_bytes 4 (tai_nano t)"

definition taia_unpack :: "byte list \<Rightarrow> taia" where
  "taia_unpack bs = \<lparr>tai_sec = of_be (take 8 bs), tai_nano = of_be (drop 8 bs)\<rparr>"

text \<open>The byte values of \<open>enum svstatus\<close>, in the order of its declaration.\<close>

fun svstatus_code :: "svstatus \<Rightarrow> byte" where
  "svstatus_code svstatus_stopped = 0"
| "svstatus_code svstatus_starting = 1"
| "svstatus_code svstatus_running = 2"
| "svstatus_code svstatus_started = 3"
| "svstatus_code svstatus_stopping = 4"
| "svstatus_code svstatus_failed = 5"
| "svstatus_code svstatus_orphanage = 6"

definition svstatus_of_code :: "byte \<Rightarrow> svstatus option" where
  "svstatus_of_code c =
     (if c = 0 then Some svstatus_stopped else if c = 1 then Some svstatus_starting
      else if c = 2 then Some svstatus_running else if c = 3 then Some svstatus_started
      else if c = 4 then Some svstatus_stopping else if c = 5 then Some svstatus_failed
      else if c = 6 then Some svstatus_orphanage else None)"

subsection \<open>The encoder\<close>

text \<open>
  \<open>u = (unsigned long) svc->pid\<close> is the pid modulo \<open>2^64\<close>; each
  \<open>status[12+i] = u; u >>= 8\<close> keeps the low byte.
\<close>

definition make_status :: "svc \<Rightarrow> byte list" where
  "make_status svc =
     (let u = (word_of_int (pid svc) :: 64 word) in
      taia_pack (svc_when svc) @
      [ucast u, ucast (drop_bit 8 u), ucast (drop_bit 16 u), ucast (drop_bit 24 u),
       (if pid svc \<noteq> 0 then of_bool (flagpaused svc) else 0),
       (if flagwant svc then (if flagwantup svc then 117 else 100) else 0),
       svstatus_code (flagstatus svc),
       0])"

subsection \<open>What a record publishes, and the decoder\<close>

record status_view =
  sv_when :: taia
  sv_pid :: pid_t
  sv_paused :: bool
  sv_want :: "bool option"
  sv_status :: svstatus

definition view_of_svc :: "svc \<Rightarrow> status_view" where
  "view_of_svc s =
     \<lparr>sv_when = svc_when s, sv_pid = pid s, sv_paused = (pid s \<noteq> 0 \<and> flagpaused s),
      sv_want = (if flagwant s then Some (flagwantup s) else None),
      sv_status = flagstatus s\<rparr>"

definition pid_of_le :: "byte list \<Rightarrow> pid_t" where
  "pid_of_le bs =
     sint (ucast (bs ! 0) OR push_bit 8 (ucast (bs ! 1)) OR push_bit 16 (ucast (bs ! 2))
           OR push_bit 24 (ucast (bs ! 3)) :: 32 word)"

definition decode_paused :: "byte \<Rightarrow> bool option" where
  "decode_paused b = (if b = 0 then Some False else if b = 1 then Some True else None)"

definition decode_want :: "byte \<Rightarrow> bool option option" where
  "decode_want b =
     (if b = 0 then Some None else if b = 117 then Some (Some True)
      else if b = 100 then Some (Some False) else None)"

definition decode_status :: "byte list \<Rightarrow> status_view option" where
  "decode_status bs =
     (if length bs \<noteq> 20 \<or> bs ! 19 \<noteq> 0 then None
      else case (decode_paused (bs ! 16), decode_want (bs ! 17), svstatus_of_code (bs ! 18)) of
        (Some p, Some w, Some st) \<Rightarrow>
          Some \<lparr>sv_when = taia_unpack (take 12 bs), sv_pid = pid_of_le (drop 12 bs),
                sv_paused = p, sv_want = w, sv_status = st\<rparr>
      | _ \<Rightarrow> None)"

text \<open>A reference little-endian encoding of a natural number in \<open>k\<close> bytes.\<close>

fun le_bytes :: "nat \<Rightarrow> nat \<Rightarrow> byte list" where
  "le_bytes 0 n = []"
| "le_bytes (Suc k) n = of_nat (n mod 256) # le_bytes k (n div 256)"

subsection \<open>Lemmas\<close>

lemma length_taia_pack [simp]: "length (taia_pack t) = 12"
  by (simp add: taia_pack_def)

lemma length_make_status [simp]: "length (make_status s) = 20"
  by (simp add: make_status_def Let_def)

lemma taia_unpack_pack [simp]: "taia_unpack (taia_pack t) = t"
  by (simp add: taia_unpack_def taia_pack_def of_be_be_bytes_full)

lemma svstatus_code_roundtrip [simp]: "svstatus_of_code (svstatus_code s) = Some s"
  by (cases s) (simp_all add: svstatus_of_code_def)

lemma svstatus_of_code_inv: "svstatus_of_code c = Some s \<Longrightarrow> svstatus_code s = c"
  by (auto simp: svstatus_of_code_def split: if_splits)

text \<open>The pid bytes: the low four bytes of \<open>u\<close>, reassembled, are \<open>u\<close> truncated to 32 bits.\<close>

lemma le4_reassemble:
  "(ucast (ucast u :: byte) OR push_bit 8 (ucast (ucast (drop_bit 8 u) :: byte))
      OR push_bit 16 (ucast (ucast (drop_bit 16 u) :: byte))
      OR push_bit 24 (ucast (ucast (drop_bit 24 u) :: byte)) :: 32 word) = ucast (u :: 64 word)"
proof (rule bit_word_eqI)
  fix n assume "n < LENGTH(32)"
  then show "bit (ucast (ucast u :: byte) OR push_bit 8 (ucast (ucast (drop_bit 8 u) :: byte))
      OR push_bit 16 (ucast (ucast (drop_bit 16 u) :: byte))
      OR push_bit 24 (ucast (ucast (drop_bit 24 u) :: byte)) :: 32 word) n = bit (ucast u :: 32 word) n"
    by (cases "n < 8"; cases "n < 16"; cases "n < 24") (auto simp: bit_simps)
qed

lemma pid_of_le_make_status:
  assumes "- (2 ^ 31) \<le> pid s" "pid s < 2 ^ 31"
  shows "pid_of_le (drop 12 (make_status s)) = pid s"
  using assms
  by (simp add: make_status_def Let_def pid_of_le_def le4_reassemble sint_ucast_word_of_int)

lemma make_status_bytes:
  "make_status s ! 16 = (if pid s \<noteq> 0 then of_bool (flagpaused s) else 0)"
  "make_status s ! 17 = (if flagwant s then (if flagwantup s then 117 else 100) else 0)"
  "make_status s ! 18 = svstatus_code (flagstatus s)"
  "make_status s ! 19 = 0"
  "take 12 (make_status s) = taia_pack (svc_when s)"
  by (simp_all add: make_status_def Let_def nth_append)

lemma decode_paused_encode: "decode_paused (if c then of_bool b else 0) = Some (c \<and> b)"
  by (simp add: decode_paused_def)

lemma decode_want_encode:
  "decode_want (if w then (if u then 117 else 100) else 0) = Some (if w then Some u else None)"
  by (simp add: decode_want_def)

text \<open>
  C3. Decoding the 20-byte record \<open>make_status\<close> writes for a service whose pid
  is a C \<open>int\<close> recovers its timestamp, pid, want marker and status exactly, and
  its paused flag as published (masked by the pid).
\<close>

theorem make_status_roundtrip:
  assumes "- (2 ^ 31) \<le> pid s" and "pid s < 2 ^ 31"
  shows "decode_status (make_status s) = Some (view_of_svc s)"
  using assms
  by (simp add: decode_status_def make_status_bytes decode_paused_encode decode_want_encode
                pid_of_le_make_status view_of_svc_def)

lemma byte_of_shift:
  "i < 4 \<Longrightarrow> (ucast (drop_bit (8 * i) (word_of_int p :: 64 word)) :: byte) =
     of_nat (nat (take_bit 32 p) div 2 ^ (8 * i) mod 256)"
proof (rule bit_word_eqI)
  fix n assume i: "i < 4" and n: "n < LENGTH(8)"
  have "nat (take_bit 32 p) div 2 ^ (8 * i) mod 256 = take_bit 8 (drop_bit (8 * i) (nat (take_bit 32 p)))"
    by (simp add: take_bit_eq_mod drop_bit_eq_div)
  then show "bit (ucast (drop_bit (8 * i) (word_of_int p :: 64 word)) :: byte) n =
      bit (of_nat (nat (take_bit 32 p) div 2 ^ (8 * i) mod 256) :: byte) n"
    using i n by (simp add: bit_simps bit_nat_iff)
qed

lemma le_bytes_nth: "i < k \<Longrightarrow> le_bytes k n ! i = of_nat (n div 2 ^ (8 * i) mod 256)"
proof (induction k n arbitrary: i rule: le_bytes.induct)
  case (2 k n)
  then show ?case
    by (cases i) (auto simp: div_mult2_eq power_add mult.commute)
qed simp
lemma make_status_pid_field:
  "take 4 (drop 12 (make_status s)) =
     map (\<lambda>i. ucast (drop_bit (8 * i) (word_of_int (pid s) :: 64 word))) [0..<4]"
  by (simp add: make_status_def Let_def upt_rec)

lemma length_le_bytes [simp]: "length (le_bytes k n) = k"
  by (induction k n rule: le_bytes.induct) simp_all

text \<open>
  C31. The shift-and-truncate code that writes the pid into bytes 12--15 of the
  record is equivalent to the arithmetic little-endian encoding of the pid
  converted to a 32-bit unsigned number.
\<close>

theorem make_status_pid_bytes_arith:
  "take 4 (drop 12 (make_status s)) = le_bytes 4 (nat (pid s mod 2 ^ 32))"
proof (rule nth_equalityI)
  show "length (take 4 (drop 12 (make_status s))) = length (le_bytes 4 (nat (pid s mod 2 ^ 32)))"
    by simp
next
  fix i assume "i < length (take 4 (drop 12 (make_status s)))"
  then have i: "i < 4" by simp
  have "take 4 (drop 12 (make_status s)) ! i = ucast (drop_bit (8 * i) (word_of_int (pid s) :: 64 word))"
    using i by (simp only: make_status_pid_field nth_map length_upt nth_upt) simp
  also have "\<dots> = of_nat (nat (take_bit 32 (pid s)) div 2 ^ (8 * i) mod 256)"
    by (rule byte_of_shift [OF i])
  also have "\<dots> = le_bytes 4 (nat (pid s mod 2 ^ 32)) ! i"
    using i by (simp only: le_bytes_nth take_bit_eq_mod)
  finally show "take 4 (drop 12 (make_status s)) ! i = le_bytes 4 (nat (pid s mod 2 ^ 32)) ! i" .
qed

end
