(* ===== verification/Supervisor.thy ===== *)
theory Supervisor
  imports Kernel Status_Record
begin

text \<open>
  The supervisor's global variables (supervise.c lines 29--55) as a record that
  extends the kernel state: the two services \<open>svcmain\<close> and \<open>svclog\<close>, the flags
  \<open>flagexit\<close>, \<open>flagorphanage\<close>, \<open>firstrun\<close>, the script last run for the main
  service (\<open>runscript\<close>, \<open>None\<close> for the initial null pointer), whether the log
  pipe exists (\<open>logpipe[0] >= 0\<close>), and the stack slot that holds the reaper's
  local \<open>wstat\<close>. A \<open>struct svc *\<close> is a value of \<open>which\<close>; \<open>svc_of\<close> and
  \<open>upd_svc\<close> dereference and assign through it.
\<close>

record supervisor = kernel +
  svcmain :: svc
  svclog :: svc
  flagexit :: bool
  flagorphanage :: bool
  firstrun :: bool
  runscript :: "string option"
  haslog :: bool
  wstat_slot :: wstat

type_synonym state = supervisor

definition svc_of :: "which \<Rightarrow> state \<Rightarrow> svc" where
  "svc_of w s = (case w of Main \<Rightarrow> svcmain s | Log \<Rightarrow> svclog s)"

definition upd_svc :: "which \<Rightarrow> (svc \<Rightarrow> svc) \<Rightarrow> state \<Rightarrow> state" where
  "upd_svc w f s = (case w of Main \<Rightarrow> s\<lparr>svcmain := f (svcmain s)\<rparr> | Log \<Rightarrow> s\<lparr>svclog := f (svclog s)\<rparr>)"

definition taia_zero :: taia where
  "taia_zero = \<lparr>tai_sec = 0, tai_nano = 0\<rparr>"

text \<open>The static initialisers \<open>{0,svstatus_stopped,1,1}\<close> and \<open>{0,svstatus_stopped,1,0}\<close>.\<close>

definition svcmain_init :: svc where
  "svcmain_init = \<lparr>pid = 0, flagstatus = svstatus_stopped, flagwant = True, flagwantup = True,
                   flagpaused = False, svc_when = taia_zero, ranstop = False\<rparr>"

definition svclog_init :: svc where
  "svclog_init = \<lparr>pid = 0, flagstatus = svstatus_stopped, flagwant = True, flagwantup = False,
                  flagpaused = False, svc_when = taia_zero, ranstop = False\<rparr>"

definition init_state :: "kernel \<Rightarrow> state" where
  "init_state k =
     \<lparr>children = children k, nextpid = nextpid k, nproc_max = nproc_max k, self_pgid = self_pgid k,
      clock = clock k, dirents = dirents k, statusfile = statusfile k, status_room = status_room k,
      control = control k, control_nlink = control_nlink k, selfpipe = selfpipe k, trace = trace k,
      svcmain = svcmain_init, svclog = svclog_init, flagexit = False, flagorphanage = False,
      firstrun = True, runscript = None, haslog = False, wstat_slot = 0\<rparr>"

subsection \<open>Fields the supervisor's operations never write\<close>

text \<open>
  The control FIFO and its link count, the directory, the log-pipe and orphanage
  flags, the process limit, the process group, the room of the status file and the
  clock belong to the environment: no operation of the supervisor changes them,
  except that the controller consumes the FIFO. The trace of observable calls only
  grows.
\<close>

definition same_env :: "state \<Rightarrow> state \<Rightarrow> bool" where
  "same_env s s' \<longleftrightarrow>
     control s' = control s \<and> control_nlink s' = control_nlink s \<and> dirents s' = dirents s \<and>
     haslog s' = haslog s \<and> flagorphanage s' = flagorphanage s \<and> nproc_max s' = nproc_max s \<and>
     self_pgid s' = self_pgid s \<and> status_room s' = status_room s \<and> clock s' = clock s \<and>
     (\<exists>es. trace s' = trace s @ es)"

subsection \<open>Accessor lemmas\<close>

lemma svc_of_simps [simp, svc_simps]:
  "svc_of Main s = svcmain s" "svc_of Log s = svclog s"
  by (simp_all add: svc_of_def)

lemma upd_svc_simps [simp, svc_simps]:
  "upd_svc Main f s = s\<lparr>svcmain := f (svcmain s)\<rparr>"
  "upd_svc Log f s = s\<lparr>svclog := f (svclog s)\<rparr>"
  by (simp_all add: upd_svc_def)

lemma svc_of_upd_svc [simp, svc_simps]:
  "svc_of w (upd_svc w f s) = f (svc_of w s)"
  "w \<noteq> v \<Longrightarrow> svc_of v (upd_svc w f s) = svc_of v s"
  by (cases w; cases v; simp)+

lemma init_state_simps [simp]:
  "svcmain (init_state k) = svcmain_init" "svclog (init_state k) = svclog_init"
  "flagexit (init_state k) = False" "flagorphanage (init_state k) = False"
  "firstrun (init_state k) = True" "runscript (init_state k) = None"
  "haslog (init_state k) = False" "children (init_state k) = children k"
  "nextpid (init_state k) = nextpid k" "dirents (init_state k) = dirents k"
  "control (init_state k) = control k" "clock (init_state k) = clock k"
  by (simp_all add: init_state_def)

lemma same_env_refl [simp, intro]: "same_env s s"
  by (simp add: same_env_def)

lemma same_env_trans [trans]: "same_env s t \<Longrightarrow> same_env t u \<Longrightarrow> same_env s u"
  by (auto simp: same_env_def)

lemma same_envD:
  "same_env s s' \<Longrightarrow> control s' = control s" "same_env s s' \<Longrightarrow> control_nlink s' = control_nlink s"
  "same_env s s' \<Longrightarrow> dirents s' = dirents s" "same_env s s' \<Longrightarrow> haslog s' = haslog s"
  "same_env s s' \<Longrightarrow> flagorphanage s' = flagorphanage s" "same_env s s' \<Longrightarrow> nproc_max s' = nproc_max s"
  "same_env s s' \<Longrightarrow> self_pgid s' = self_pgid s" "same_env s s' \<Longrightarrow> status_room s' = status_room s"
  "same_env s s' \<Longrightarrow> clock s' = clock s"
  "same_env s s' \<Longrightarrow> set (trace s) \<subseteq> set (trace s')"
  by (auto simp: same_env_def)

lemma same_env_upd [simp]:
  "same_env s (upd_svc w f s)" "same_env s (s\<lparr>svcmain := v\<rparr>)" "same_env s (s\<lparr>svclog := v\<rparr>)"
  "same_env s (s\<lparr>firstrun := b\<rparr>)" "same_env s (s\<lparr>flagexit := b\<rparr>)" "same_env s (s\<lparr>runscript := r\<rparr>)"
  "same_env s (s\<lparr>wstat_slot := ws\<rparr>)" "same_env s (s\<lparr>trace := trace s @ es\<rparr>)"
  "same_env s (s\<lparr>children := cs\<rparr>)" "same_env s (s\<lparr>selfpipe := n\<rparr>)"
  by (cases w; simp add: same_env_def)+

lemma same_env_upd_chain:
  "same_env s t \<Longrightarrow> same_env s (upd_svc w f t)"
  "same_env s t \<Longrightarrow> same_env s (t\<lparr>firstrun := b\<rparr>)"
  "same_env s t \<Longrightarrow> same_env s (t\<lparr>runscript := r\<rparr>)"
  "same_env s t \<Longrightarrow> same_env s (t\<lparr>svcmain := v\<rparr>)"
  "same_env s t \<Longrightarrow> same_env s (t\<lparr>svclog := v\<rparr>)"
  "same_env s t \<Longrightarrow> same_env s (t\<lparr>flagexit := b\<rparr>)"
  by (cases w; simp add: same_env_def)+

end
