(* ===== verification/Launcher.thy ===== *)
theory Launcher
  imports Supervisor
begin

text \<open>
  The process launcher \<open>forkexecve\<close> (supervise.c lines 109--141) and the signal
  handlers \<open>trigger\<close>, \<open>terminate\<close>, \<open>ttystop\<close>, \<open>resume\<close> (lines 78--107).
  The child's side of \<open>forkexecve\<close> decides two things before \<open>execve\<close>: whether
  it calls \<open>setsid\<close> (when \<open>stat_exists("no-setsid") == 0\<close>) and whether it
  duplicates a log-pipe end onto descriptor \<open>fd\<close> (when \<open>fd >= 0\<close> and the log
  pipe exists); both are recorded in the kernel's child entry. A failed \<open>execve\<close>
  is an exit of the child with status 111, an environment event.
\<close>

subsection \<open>Signal handlers\<close>

definition trigger :: "'a kernel_scheme \<Rightarrow> 'a kernel_scheme" where
  "trigger k = selfpipe_write k"

definition terminate :: "'a kernel_scheme \<Rightarrow> 'a kernel_scheme" where
  "terminate k = selfpipe_write (control_write ''dx'' k)"

definition ttystop :: "'a kernel_scheme \<Rightarrow> 'a kernel_scheme" where
  "ttystop k = selfpipe_write (control_write ''p'' k)"

definition resume :: "'a kernel_scheme \<Rightarrow> 'a kernel_scheme" where
  "resume k = selfpipe_write (control_write ''c'' k)"

subsection \<open>forkexecve\<close>

definition forkexecve :: "which option \<Rightarrow> string option list \<Rightarrow> int \<Rightarrow> state \<Rightarrow> pid_t \<times> state" where
  "forkexecve svc argv fd s =
     (let child_setsid = (stat_exists (dirents s) ''no-setsid'' = 0);
          child_redir = (if fd \<ge> 0 \<and> haslog s then Some (nat fd) else None);
          (f, s1) = sys_fork child_setsid argv child_redir s
      in if f = -1
         then (-1, trigger (deepsleep 60 (strerr_warn ''unable to fork, sleeping 60 seconds'' s1)))
         else (f, case svc of
                    None \<Rightarrow> s1
                  | Some w \<Rightarrow> upd_svc w (\<lambda>v. v\<lparr>pid := f, flagpaused := False\<rparr>) s1))"

definition new_child :: "state \<Rightarrow> string option list \<Rightarrow> int \<Rightarrow> child" where
  "new_child s argv fd =
     \<lparr>cpid = nextpid s,
      cpgid = (if stat_exists (dirents s) ''no-setsid'' = 0 then nextpid s else self_pgid s),
      cargv = argv, credir = (if fd \<ge> 0 \<and> haslog s then Some (nat fd) else None),
      cexit = None\<rparr>"

definition forked :: "state \<Rightarrow> string option list \<Rightarrow> int \<Rightarrow> state" where
  "forked s argv fd =
     s\<lparr>children := children s @ [new_child s argv fd], nextpid := nextpid s + 1,
       trace := trace s @ [Ev_fork (nextpid s) argv]\<rparr>"

subsection \<open>Lemmas\<close>

text \<open>The two outcomes of \<open>forkexecve\<close>, each with everything it changes.\<close>

lemma forkexecve_fail:
  assumes "nproc_max s \<le> length (children s)"
  shows "forkexecve svc argv fd s =
           (-1, s\<lparr>trace := trace s @ [Ev_fork_failed, Ev_warn ''unable to fork, sleeping 60 seconds'',
                                     Ev_sleep 60],
                  selfpipe := Suc (selfpipe s)\<rparr>)"
  using assms
  by (simp add: forkexecve_def sys_fork_def trigger_def deepsleep_def strerr_warn_def
                selfpipe_write_def Let_def)

lemma forkexecve_ok:
  assumes "length (children s) < nproc_max s" and "nextpid s \<noteq> -1"
  shows "forkexecve svc argv fd s =
           (nextpid s, case svc of
                         None \<Rightarrow> forked s argv fd
                       | Some w \<Rightarrow> upd_svc w (\<lambda>v. v\<lparr>pid := nextpid s, flagpaused := False\<rparr>)
                                      (forked s argv fd))"
  using assms
  by (cases svc) (simp_all add: forkexecve_def sys_fork_def forked_def new_child_def Let_def)

lemmas forkexecve_cases = forkexecve_fail forkexecve_ok

lemma forkexecve_env: "same_env s (snd (forkexecve svc argv fd s))"
  by (auto simp: forkexecve_def sys_fork_def trigger_def deepsleep_def strerr_warn_def
                 selfpipe_write_def same_env_def upd_svc_def Let_def
           split: option.splits which.splits)

lemma forkexecve_wants:
  "flagwant (svc_of v (snd (forkexecve sv argv fd s))) = flagwant (svc_of v s)"
  "flagwantup (svc_of v (snd (forkexecve sv argv fd s))) = flagwantup (svc_of v s)"
  by (cases v; auto simp: forkexecve_def sys_fork_def trigger_def deepsleep_def strerr_warn_def
                 selfpipe_write_def upd_svc_def Let_def split: option.splits which.splits)+

end
