(* ===== verification/Publish.thy ===== *)
theory Publish
  imports Launcher
begin

text \<open>
  Publishing state (supervise.c lines 161--208): \<open>announce\<close> writes the main
  record, followed by the log record when the log pipe exists, at offset zero of
  the status file, and warns on a short write; \<open>notify\<close> runs \<open>./notify\<close> with the
  role, the event, the old pid and the code; \<open>pidchange\<close> stamps the service with
  the clock, notifies when there is a notice and \<open>notify\<close> is executable, and
  announces. The seek of \<open>announce\<close> is on a regular file and is not modelled as
  failing.
\<close>

definition status_bytes :: "state \<Rightarrow> byte list" where
  "status_bytes s = make_status (svcmain s) @ (if haslog s then make_status (svclog s) else [])"

definition announce :: "state \<Rightarrow> state" where
  "announce s =
     (let status = status_bytes s;
          (r, s1) = sys_write_status status s
      in if r < length status then strerr_warn ''unable to write status: partial write'' s1 else s1)"

text \<open>
  \<open>runscript+2\<close> strips the \<open>./\<close> of the script name; before any script has run,
  \<open>runscript\<close> is the null pointer and the argument is not a valid string
  (\<open>None\<close> in the argument vector).
\<close>

definition notify_argv :: "which \<Rightarrow> string \<Rightarrow> int \<Rightarrow> pid_t \<Rightarrow> state \<Rightarrow> string option list" where
  "notify_argv w notice code oldpid s =
     [Some ''./notify'',
      (if w = Log then Some ''log'' else map_option (drop 2) (runscript s)),
      Some notice, Some (fmt_int_as_uint oldpid), Some (fmt_int_as_uint code)]"

definition notify :: "which \<Rightarrow> string \<Rightarrow> int \<Rightarrow> pid_t \<Rightarrow> state \<Rightarrow> state" where
  "notify w notice code oldpid s = snd (forkexecve None (notify_argv w notice code oldpid s) (-1) s)"

definition pidchange :: "which \<Rightarrow> string option \<Rightarrow> int \<Rightarrow> pid_t \<Rightarrow> state \<Rightarrow> state" where
  "pidchange w notice code oldpid s =
     (let s1 = upd_svc w (\<lambda>v. v\<lparr>svc_when := clock s\<rparr>) s;
          s2 = (case notice of
                  Some n \<Rightarrow> if stat_isexec (dirents s1) ''notify'' > 0
                            then notify w n code oldpid s1 else s1
                | None \<Rightarrow> s1)
      in announce s2)"

text \<open>
  The status file publishes the state when its prefix is the encoding of the
  current records; a reader finds the record of a service at offset 0 (main) or
  20 (log).
\<close>

definition published :: "state \<Rightarrow> bool" where
  "published s \<longleftrightarrow> take (length (status_bytes s)) (statusfile s) = status_bytes s"

definition status_record :: "which \<Rightarrow> byte list \<Rightarrow> byte list" where
  "status_record w bs = (case w of Main \<Rightarrow> take 20 bs | Log \<Rightarrow> take 20 (drop 20 bs))"

text \<open>
  The statuses of the main service a reader of the status file sees, in the order
  the writes happened: the status byte of each write that reached it.
\<close>

fun published_main :: "event list \<Rightarrow> svstatus list" where
  "published_main [] = []"
| "published_main (Ev_status bs # es) =
     (case (if 20 \<le> length bs then svstatus_of_code (bs ! 18) else None) of
        Some st \<Rightarrow> st # published_main es
      | None \<Rightarrow> published_main es)"
| "published_main (_ # es) = published_main es"

subsection \<open>Frame lemmas\<close>

lemma announce_eq:
  "announce s =
     (let r = min (length (status_bytes s)) (status_room s);
          s1 = s\<lparr>statusfile := take r (status_bytes s) @ drop r (statusfile s),
                 trace := trace s @ [Ev_status (take r (status_bytes s))]\<rparr>
      in if r < length (status_bytes s)
         then s1\<lparr>trace := trace s1 @ [Ev_warn ''unable to write status: partial write'']\<rparr>
         else s1)"
  by (simp add: announce_def sys_write_status_def strerr_warn_def Let_def)

lemma announce_frame [simp]:
  "svcmain (announce s) = svcmain s" "svclog (announce s) = svclog s"
  "flagexit (announce s) = flagexit s" "flagorphanage (announce s) = flagorphanage s"
  "firstrun (announce s) = firstrun s" "runscript (announce s) = runscript s"
  "haslog (announce s) = haslog s" "wstat_slot (announce s) = wstat_slot s"
  "children (announce s) = children s" "nextpid (announce s) = nextpid s"
  "nproc_max (announce s) = nproc_max s" "self_pgid (announce s) = self_pgid s"
  "clock (announce s) = clock s" "dirents (announce s) = dirents s"
  "status_room (announce s) = status_room s" "control (announce s) = control s"
  "control_nlink (announce s) = control_nlink s" "selfpipe (announce s) = selfpipe s"
  by (simp_all add: announce_eq Let_def)

lemma notify_frame [simp]:
  "svcmain (notify w n c p s) = svcmain s" "svclog (notify w n c p s) = svclog s"
  "flagexit (notify w n c p s) = flagexit s" "flagorphanage (notify w n c p s) = flagorphanage s"
  "firstrun (notify w n c p s) = firstrun s" "runscript (notify w n c p s) = runscript s"
  "haslog (notify w n c p s) = haslog s" "wstat_slot (notify w n c p s) = wstat_slot s"
  "nproc_max (notify w n c p s) = nproc_max s" "self_pgid (notify w n c p s) = self_pgid s"
  "clock (notify w n c p s) = clock s" "dirents (notify w n c p s) = dirents s"
  "status_room (notify w n c p s) = status_room s" "control (notify w n c p s) = control s"
  "control_nlink (notify w n c p s) = control_nlink s" "statusfile (notify w n c p s) = statusfile s"
  by (simp_all add: notify_def forkexecve_def sys_fork_def trigger_def deepsleep_def
                    strerr_warn_def selfpipe_write_def Let_def split: prod.splits)

text \<open>What \<open>pidchange\<close> does to the service records: it only stamps \<open>when\<close>.\<close>

lemma pidchange_svcmain_svclog [simp]:
  "svcmain (pidchange w n c p s) = (if w = Main then (svcmain s)\<lparr>svc_when := clock s\<rparr> else svcmain s)"
  "svclog (pidchange w n c p s) = (if w = Log then (svclog s)\<lparr>svc_when := clock s\<rparr> else svclog s)"
  by (cases w; simp add: pidchange_def Let_def split: option.splits)+

lemma pidchange_frame [simp]:
  "flagexit (pidchange w n c p s) = flagexit s" "flagorphanage (pidchange w n c p s) = flagorphanage s"
  "firstrun (pidchange w n c p s) = firstrun s" "runscript (pidchange w n c p s) = runscript s"
  "haslog (pidchange w n c p s) = haslog s" "wstat_slot (pidchange w n c p s) = wstat_slot s"
  "nproc_max (pidchange w n c p s) = nproc_max s" "self_pgid (pidchange w n c p s) = self_pgid s"
  "clock (pidchange w n c p s) = clock s" "dirents (pidchange w n c p s) = dirents s"
  "status_room (pidchange w n c p s) = status_room s" "control (pidchange w n c p s) = control s"
  "control_nlink (pidchange w n c p s) = control_nlink s"
  by (cases w; simp add: pidchange_def Let_def split: option.splits)+

lemma announce_env: "same_env s (announce s)"
  by (simp add: same_env_def announce_eq Let_def)

lemma notify_env: "same_env s (notify w n c p s)"
  unfolding notify_def by (rule forkexecve_env)

lemma pidchange_env: "same_env s (pidchange w n c p s)"
  by (simp add: pidchange_def Let_def same_env_trans [OF _ announce_env]
                same_env_trans [OF _ notify_env] same_env_upd_chain split: option.splits)

subsection \<open>Publication\<close>

lemma length_status_bytes: "length (status_bytes s) = (if haslog s then 40 else 20)"
  by (simp add: status_bytes_def)

lemma announce_published:
  "length (status_bytes s) \<le> status_room s \<Longrightarrow> published (announce s)"
  by (simp add: published_def announce_eq Let_def status_bytes_def)

lemma pidchange_published:
  "length (status_bytes s) \<le> status_room s \<Longrightarrow> published (pidchange w n c p s)"
proof -
  assume a: "length (status_bytes s) \<le> status_room s"
  define s1 where "s1 = upd_svc w (\<lambda>v. v\<lparr>svc_when := clock s\<rparr>) s"
  define s2 where "s2 = (case n of Some n' \<Rightarrow> if stat_isexec (dirents s1) ''notify'' > 0
                            then notify w n' c p s1 else s1 | None \<Rightarrow> s1)"
  have "length (status_bytes s2) \<le> status_room s2"
    using a by (cases w) (auto simp: s2_def s1_def length_status_bytes split: option.splits)
  then have "published (announce s2)" by (rule announce_published)
  moreover have "pidchange w n c p s = announce s2"
    unfolding pidchange_def Let_def s2_def s1_def by (rule refl)
  ultimately show ?thesis by simp
qed

lemma deepsleep_published [simp]: "published (deepsleep n s) = published s"
  by (simp add: published_def status_bytes_def deepsleep_def)

lemma published_record:
  assumes "published s" and "w = Main \<or> haslog s"
  shows "status_record w (statusfile s) = make_status (svc_of w s)"
proof -
  have "take (length (status_bytes s)) (statusfile s) = status_bytes s"
    using assms(1) by (simp add: published_def)
  then show ?thesis using assms(2)
    by (cases w) (auto simp: status_record_def status_bytes_def take_drop
        dest: arg_cong [where f = "take 20"] arg_cong [where f = "drop 20"] split: if_splits)
qed

lemma published_decode:
  assumes "published s" and "w = Main \<or> haslog s"
    and "- (2 ^ 31) \<le> pid (svc_of w s)" and "pid (svc_of w s) < 2 ^ 31"
  shows "decode_status (status_record w (statusfile s)) = Some (view_of_svc (svc_of w s))"
  using published_record [OF assms(1,2)] assms(3,4)
  by (simp add: decode_status_def make_status_bytes decode_paused_encode decode_want_encode
                pid_of_le_make_status view_of_svc_def)

lemma kills_announce [simp]: "kills (trace (announce s)) = kills (trace s)"
  by (simp add: announce_eq Let_def)

lemma forks_announce [simp]: "forks (trace (announce s)) = forks (trace s)"
  by (simp add: announce_eq Let_def)

text \<open>With \<open>notify\<close> executable and room to fork, \<open>pidchange\<close> forks exactly \<open>./notify\<close>.\<close>

lemma forks_pidchange_notify:
  assumes "stat_isexec (dirents s) ''notify'' > 0" and "length (children s) < nproc_max s"
    and "nextpid s \<noteq> -1"
  shows "forks (trace (pidchange w (Some n) c p s)) = forks (trace s) @ [(nextpid s, notify_argv w n c p s)]"
proof -
  define s1 where "s1 = upd_svc w (\<lambda>v. v\<lparr>svc_when := clock s\<rparr>) s"
  have s1: "dirents s1 = dirents s" "children s1 = children s" "nproc_max s1 = nproc_max s"
     "nextpid s1 = nextpid s" "trace s1 = trace s" "notify_argv w n c p s1 = notify_argv w n c p s"
    by (cases w; simp add: s1_def notify_argv_def)+
  have "pidchange w (Some n) c p s = announce (notify w n c p s1)"
    using assms(1) s1(1) by (simp add: pidchange_def s1_def Let_def)
  moreover have "forks (trace (notify w n c p s1)) = forks (trace s) @ [(nextpid s, notify_argv w n c p s)]"
    using forkexecve_ok [of s1 "None" "notify_argv w n c p s1" "-1"] assms(2,3) s1
    by (simp add: notify_def forked_def)
  ultimately show ?thesis by simp
qed

text \<open>Whatever else happens, \<open>pidchange\<close> forks nothing but \<open>./notify\<close>.\<close>

lemma forks_pidchange:
  "\<exists>es. forks (trace (pidchange w n c p s)) = forks (trace s) @ es \<and>
        (\<forall>x \<in> set es. hd (snd x) = Some ''./notify'')"
proof -
  define s1 where "s1 = upd_svc w (\<lambda>v. v\<lparr>svc_when := clock s\<rparr>) s"
  have t1: "trace s1 = trace s" by (cases w) (simp_all add: s1_def)
  have nt: "\<exists>es. forks (trace (notify w m c p s1)) = forks (trace s1) @ es \<and>
              (\<forall>x \<in> set es. hd (snd x) = Some ''./notify'')" for m
    by (auto simp: notify_def notify_argv_def forkexecve_def sys_fork_def trigger_def deepsleep_def
                   strerr_warn_def selfpipe_write_def Let_def)
  have "pidchange w n c p s =
          announce (case n of Some m \<Rightarrow> if stat_isexec (dirents s1) ''notify'' > 0
                                       then notify w m c p s1 else s1 | None \<Rightarrow> s1)"
    unfolding pidchange_def s1_def Let_def by (rule refl)
  then show ?thesis using nt t1 by (auto split: option.splits)
qed

lemma published_main_append [simp]:
  "published_main (xs @ ys) = published_main xs @ published_main ys"
  by (induction xs rule: published_main.induct) (auto split: option.splits)

lemma published_main_announce:
  "length (status_bytes s) \<le> status_room s \<Longrightarrow>
     published_main (trace (announce s)) = published_main (trace s) @ [flagstatus (svcmain s)]"
  by (simp add: announce_eq Let_def status_bytes_def nth_append make_status_bytes)

lemma published_main_notify [simp]:
  "published_main (trace (notify w n c p s)) = published_main (trace s)"
  by (simp add: notify_def forkexecve_def sys_fork_def trigger_def deepsleep_def strerr_warn_def
                selfpipe_write_def Let_def split: prod.splits)

lemma published_main_pidchange:
  assumes "length (status_bytes s) \<le> status_room s"
  shows "published_main (trace (pidchange w n c p s)) =
           published_main (trace s) @ [flagstatus (svcmain s)]"
proof -
  define s1 where "s1 = upd_svc w (\<lambda>v. v\<lparr>svc_when := clock s\<rparr>) s"
  define s2 where "s2 = (case n of Some m \<Rightarrow> if stat_isexec (dirents s1) ''notify'' > 0
                            then notify w m c p s1 else s1 | None \<Rightarrow> s1)"
  have "pidchange w n c p s = announce s2"
    unfolding pidchange_def Let_def s2_def s1_def by (rule refl)
  moreover have "published_main (trace s2) = published_main (trace s)"
      "flagstatus (svcmain s2) = flagstatus (svcmain s)"
      "length (status_bytes s2) \<le> status_room s2"
    using assms by (cases w; auto simp: s2_def s1_def length_status_bytes split: option.splits)+
  ultimately show ?thesis by (simp add: published_main_announce)
qed

text \<open>\<open>pidchange\<close> forks at most one child, \<open>./notify\<close>.\<close>

lemma pidchange_children:
  "length (children (pidchange w n c p s)) \<le> Suc (length (children s)) \<and>
   nextpid s \<le> nextpid (pidchange w n c p s)"
proof -
  have nt: "length (children (notify w m c p t)) \<le> Suc (length (children t)) \<and>
            nextpid t \<le> nextpid (notify w m c p t)" for m t
    by (auto simp: notify_def forkexecve_def sys_fork_def trigger_def deepsleep_def
                   strerr_warn_def selfpipe_write_def Let_def)
  define s1 where "s1 = upd_svc w (\<lambda>v. v\<lparr>svc_when := clock s\<rparr>) s"
  have s1: "children s1 = children s" "nextpid s1 = nextpid s" by (cases w; simp add: s1_def)+
  have "pidchange w n c p s =
          announce (case n of Some m \<Rightarrow> if stat_isexec (dirents s1) ''notify'' > 0
                                       then notify w m c p s1 else s1 | None \<Rightarrow> s1)"
    unfolding pidchange_def s1_def Let_def by (rule refl)
  then show ?thesis using nt [of _ s1] s1 by (auto split: option.splits)
qed

end
