(* ===== verification/Service.thy ===== *)
theory Service
  imports Publish
begin

text \<open>
  Starting and stopping one service (supervise.c lines 210--274). \<open>trystart\<close>
  runs \<open>./log\<close> for the log service; for the main service it runs \<open>./start\<close> on
  the first run when that script is executable, \<open>./run\<close> otherwise, and marks the
  service \<open>started\<close> (and not wanted) when there is no \<open>run\<close>. It sets the status
  before forking; after a successful fork it calls \<open>pidchange\<close> with the notice
  \<open>"start"\<close> and sleeps one second. \<open>trystop\<close> runs \<open>./stop\<close> once per stop cycle
  for the main service, otherwise marks the service stopped. \<open>killsvc\<close> signals
  the service's process or process group; \<open>stopsvc\<close> sends TERM then CONT and
  marks the service stopping.
\<close>

text \<open>The common tail of \<open>trystart\<close> (lines 234--237).\<close>

definition trystart_fork :: "which \<Rightarrow> string option list \<Rightarrow> int \<Rightarrow> state \<Rightarrow> state" where
  "trystart_fork w argv fd s =
     (let (f, s1) = forkexecve (Some w) argv fd s in
      if f < 0 then s1 else deepsleep 1 (pidchange w (Some ''start'') 0 f s1))"

definition trystart :: "which \<Rightarrow> state \<Rightarrow> state" where
  "trystart w s =
     (if w = Log then
        trystart_fork Log [Some ''./log''] 0
          (s\<lparr>svclog := (svclog s)\<lparr>flagstatus := svstatus_running\<rparr>\<rparr>)
      else
        let s1 = (if firstrun s \<and> stat_isexec (dirents s) ''start'' = 0
                  then s\<lparr>firstrun := False\<rparr> else s)
        in if \<not> firstrun s1 \<and> stat_exists (dirents s1) ''run'' = 0
           then announce (s1\<lparr>svcmain := (svcmain s1)\<lparr>flagwant := False,
                                                        flagstatus := svstatus_started\<rparr>\<rparr>)
           else
             let script = (if firstrun s1 then ''./start'' else ''./run'')
             in trystart_fork Main [Some script] 1
                  (s1\<lparr>runscript := Some script,
                      svcmain := (svcmain s1)\<lparr>flagstatus :=
                        (if firstrun s1 then svstatus_starting else svstatus_running)\<rparr>\<rparr>))"

definition trystop :: "which \<Rightarrow> state \<Rightarrow> state" where
  "trystop w s =
     (if ranstop (svc_of w s) \<or> w \<noteq> Main \<or> stat_isexec (dirents s) ''stop'' \<noteq> 1
      then announce (upd_svc w (\<lambda>v. v\<lparr>ranstop := True, flagstatus := svstatus_stopped\<rparr>) s)
      else
        let (f, s2) = forkexecve (Some w) [Some ''./stop''] 1 (s\<lparr>runscript := Some ''./stop''\<rparr>)
        in if f < 0 then s2
           else deepsleep 1 (pidchange w (Some ''start'') 0 f
                               (upd_svc w (\<lambda>v. v\<lparr>ranstop := True\<rparr>) s2)))"

definition killsvc :: "which \<Rightarrow> int \<Rightarrow> sig \<Rightarrow> state \<Rightarrow> state" where
  "killsvc w groupflag signo s =
     (let v = svc_of w s in
      if pid v \<noteq> 0 \<and> (flagstatus v \<noteq> svstatus_orphanage \<or> groupflag < 0)
      then sys_kill (pid v * groupflag) signo s else s)"

definition stopsvc :: "which \<Rightarrow> int \<Rightarrow> state \<Rightarrow> state" where
  "stopsvc w groupflag s =
     upd_svc w (\<lambda>v. v\<lparr>flagpaused := False, flagstatus := svstatus_stopping, ranstop := False\<rparr>)
       (killsvc w groupflag SIGCONT (killsvc w groupflag SIGTERM s))"

subsection \<open>Frame lemmas\<close>

lemma deepsleep_frame [simp]:
  "svcmain (deepsleep n s) = svcmain s" "svclog (deepsleep n s) = svclog s"
  "flagexit (deepsleep n s) = flagexit s" "firstrun (deepsleep n s) = firstrun s"
  "runscript (deepsleep n s) = runscript s" "haslog (deepsleep n s) = haslog s"
  "children (deepsleep n s) = children s" "nextpid (deepsleep n s) = nextpid s"
  "statusfile (deepsleep n s) = statusfile s" "control (deepsleep n s) = control s"
  "dirents (deepsleep n s) = dirents s" "flagorphanage (deepsleep n s) = flagorphanage s"
  "trace (deepsleep n s) = trace s @ [Ev_sleep n]"
  by (simp_all add: deepsleep_def)

lemma killsvc_frame [simp]:
  "svcmain (killsvc w g sg s) = svcmain s" "svclog (killsvc w g sg s) = svclog s"
  "flagexit (killsvc w g sg s) = flagexit s" "firstrun (killsvc w g sg s) = firstrun s"
  "runscript (killsvc w g sg s) = runscript s" "haslog (killsvc w g sg s) = haslog s"
  "children (killsvc w g sg s) = children s" "nextpid (killsvc w g sg s) = nextpid s"
  "statusfile (killsvc w g sg s) = statusfile s" "control (killsvc w g sg s) = control s"
  "dirents (killsvc w g sg s) = dirents s" "flagorphanage (killsvc w g sg s) = flagorphanage s"
  "control_nlink (killsvc w g sg s) = control_nlink s" "selfpipe (killsvc w g sg s) = selfpipe s"
  "status_room (killsvc w g sg s) = status_room s" "nproc_max (killsvc w g sg s) = nproc_max s"
  "clock (killsvc w g sg s) = clock s" "wstat_slot (killsvc w g sg s) = wstat_slot s"
  by (simp_all add: killsvc_def sys_kill_def Let_def)

lemma killsvc_trace:
  "trace (killsvc w g sg s) =
     trace s @ (if pid (svc_of w s) \<noteq> 0 \<and> (flagstatus (svc_of w s) \<noteq> svstatus_orphanage \<or> g < 0)
                then [Ev_kill (pid (svc_of w s) * g) sg] else [])"
  by (simp add: killsvc_def sys_kill_def Let_def)

lemma deepsleep_env: "same_env s (deepsleep n s)"
  by (simp add: deepsleep_def same_env_def)

lemma killsvc_env: "same_env s (killsvc w g sg s)"
  by (simp add: killsvc_def sys_kill_def same_env_def Let_def)

lemmas env_steps = same_env_trans [OF _ announce_env] same_env_trans [OF _ pidchange_env]
  same_env_trans [OF _ deepsleep_env] same_env_trans [OF _ forkexecve_env]
  same_env_trans [OF _ killsvc_env] same_env_upd_chain

lemma stopsvc_env: "same_env s (stopsvc w g s)"
  by (simp add: stopsvc_def env_steps)

lemma trystart_fork_env: "same_env s (trystart_fork w argv fd s)"
proof -
  obtain f s1 where fe: "forkexecve (Some w) argv fd s = (f, s1)" by (metis surj_pair)
  then have "same_env s s1" using forkexecve_env [of s "Some w" argv fd] by simp
  then show ?thesis using fe
    by (simp add: trystart_fork_def env_steps)
qed

lemma trystart_env: "same_env s (trystart w s)"
  by (simp add: trystart_def Let_def env_steps same_env_trans [OF _ trystart_fork_env])

lemma trystop_env: "same_env s (trystop w s)"
proof (cases "ranstop (svc_of w s) \<or> w \<noteq> Main \<or> stat_isexec (dirents s) ''stop'' \<noteq> 1")
  case True
  then show ?thesis by (simp add: trystop_def env_steps)
next
  case False
  then have w: "w = Main" by simp
  obtain f s2 where fe: "forkexecve (Some Main) [Some ''./stop''] 1 (s\<lparr>runscript := Some ''./stop''\<rparr>) = (f, s2)"
    by (metis surj_pair)
  then have "same_env s s2"
    using forkexecve_env [of "s\<lparr>runscript := Some ''./stop''\<rparr>" "Some Main" "[Some ''./stop'']" 1]
    by (simp add: same_env_def)
  then show ?thesis using fe False w
    by (simp add: trystop_def env_steps)
qed

subsection \<open>Starting\<close>

lemma trystart_fork_ok:
  assumes "length (children s) < nproc_max s" "0 < nextpid s" "length (status_bytes s) \<le> status_room s"
  shows "pid (svc_of w (trystart_fork w argv fd s)) = nextpid s \<and>
         \<not> flagpaused (svc_of w (trystart_fork w argv fd s)) \<and> published (trystart_fork w argv fd s)"
proof -
  have ne: "nextpid s \<noteq> -1" using assms(2) by simp
  let ?s1 = "upd_svc w (\<lambda>v. v\<lparr>pid := nextpid s, flagpaused := False\<rparr>) (forked s argv fd)"
  have fe: "forkexecve (Some w) argv fd s = (nextpid s, ?s1)"
    using forkexecve_ok [OF assms(1) ne] by simp
  have room: "length (status_bytes ?s1) \<le> status_room ?s1"
    using assms(3) by (cases w) (simp_all add: forked_def length_status_bytes)
  have "published (pidchange w (Some ''start'') 0 (nextpid s) ?s1)"
    by (rule pidchange_published [OF room])
  moreover have "trystart_fork w argv fd s = deepsleep 1 (pidchange w (Some ''start'') 0 (nextpid s) ?s1)"
    using fe assms(2) by (simp add: trystart_fork_def)
  ultimately show ?thesis by (cases w) (simp_all add: forked_def)
qed

text \<open>
  C4. After \<open>trystart\<close> forks, the service's pid is the new child's, it is not
  paused, and the record published for it in the status file decodes to that pid
  and to \<open>paused = false\<close>.
\<close>

theorem trystart_publishes_pid:
  assumes "length (children s) < nproc_max s" and "0 < nextpid s" and "nextpid s < 2 ^ 31"
    and "40 \<le> status_room s"
    and "w = Main \<and> stat_exists (dirents s) ''run'' = 1 \<or> w = Log \<and> haslog s"
  shows "pid (svc_of w (trystart w s)) = nextpid s \<and> \<not> flagpaused (svc_of w (trystart w s)) \<and>
         (\<exists>v. decode_status (status_record w (statusfile (trystart w s))) = Some v \<and>
              sv_pid v = nextpid s \<and> \<not> sv_paused v)"
proof -
  have room: "length (status_bytes s) \<le> status_room s"
    using assms(4) by (simp add: length_status_bytes)
  have ok: "pid (svc_of w (trystart w s)) = nextpid s \<and> \<not> flagpaused (svc_of w (trystart w s)) \<and>
            published (trystart w s)"
  proof (cases w)
    case Main
    define s1 where "s1 = (if firstrun s \<and> stat_isexec (dirents s) ''start'' = 0
                           then s\<lparr>firstrun := False\<rparr> else s)"
    define sc where "sc = (if firstrun s1 then ''./start'' else ''./run'')"
    define s2 where "s2 = s1\<lparr>runscript := Some sc, svcmain := (svcmain s1)\<lparr>flagstatus :=
                        (if firstrun s1 then svstatus_starting else svstatus_running)\<rparr>\<rparr>"
    have "trystart Main s = trystart_fork Main [Some sc] 1 s2"
      using Main assms(5) by (simp add: trystart_def Let_def s1_def sc_def s2_def)
    moreover have "length (children s2) < nproc_max s2" "0 < nextpid s2"
        "length (status_bytes s2) \<le> status_room s2" "nextpid s2 = nextpid s"
      using assms(1,2) room by (simp_all add: s2_def s1_def length_status_bytes split: if_splits)
    ultimately show ?thesis using Main trystart_fork_ok [of s2 Main "[Some sc]" 1] by simp
  next
    case Log
    define s2 where "s2 = s\<lparr>svclog := (svclog s)\<lparr>flagstatus := svstatus_running\<rparr>\<rparr>"
    have "trystart Log s = trystart_fork Log [Some ''./log''] 0 s2"
      by (simp add: trystart_def s2_def)
    moreover have "length (children s2) < nproc_max s2" "0 < nextpid s2"
        "length (status_bytes s2) \<le> status_room s2" "nextpid s2 = nextpid s"
      using assms(1,2) room by (simp_all add: s2_def length_status_bytes)
    ultimately show ?thesis using Log trystart_fork_ok [of s2 Log "[Some ''./log'']" 0] by simp
  qed
  have "w = Main \<or> haslog (trystart w s)"
    using assms(5) same_envD(4) [OF trystart_env [of s w]] by auto
  then have "decode_status (status_record w (statusfile (trystart w s))) =
             Some (view_of_svc (svc_of w (trystart w s)))"
    using ok assms(2,3) by (intro published_decode) auto
  then show ?thesis using ok by (simp add: view_of_svc_def)
qed

subsection \<open>What starting and stopping leave of the wanted state\<close>

lemma trystart_fork_wants:
  "flagwant (svc_of v (trystart_fork w argv fd s)) = flagwant (svc_of v s)"
  "flagwantup (svc_of v (trystart_fork w argv fd s)) = flagwantup (svc_of v s)"
  using forkexecve_wants [of v "Some w" argv fd s]
  by (cases v; auto simp: trystart_fork_def split: prod.splits)+

lemma trystop_wants:
  "flagwant (svc_of v (trystop w s)) = flagwant (svc_of v s) \<and>
   flagwantup (svc_of v (trystop w s)) = flagwantup (svc_of v s)"
proof (cases "ranstop (svc_of w s) \<or> w \<noteq> Main \<or> stat_isexec (dirents s) ''stop'' \<noteq> 1")
  case True
  then show ?thesis by (cases v; cases w) (simp_all add: trystop_def)
next
  case False
  obtain f s2 where fe: "forkexecve (Some w) [Some ''./stop''] 1 (s\<lparr>runscript := Some ''./stop''\<rparr>) = (f, s2)"
    by (metis surj_pair)
  have "flagwant (svc_of v s2) = flagwant (svc_of v s) \<and> flagwantup (svc_of v s2) = flagwantup (svc_of v s)"
    using forkexecve_wants [of v "Some w" "[Some ''./stop'']" 1 "s\<lparr>runscript := Some ''./stop''\<rparr>"] fe
    by (cases v) simp_all
  then show ?thesis using False fe by (cases v; cases w) (simp_all add: trystop_def)
qed

lemma stopsvc_wants:
  "flagwant (svc_of v (stopsvc w g s)) = flagwant (svc_of v s) \<and>
   flagwantup (svc_of v (stopsvc w g s)) = flagwantup (svc_of v s)"
  by (cases v; cases w) (simp_all add: stopsvc_def)

lemma trystart_wants:
  assumes "w = Log \<or> stat_exists (dirents s) ''run'' \<noteq> 0"
  shows "flagwant (svc_of v (trystart w s)) = flagwant (svc_of v s) \<and>
         flagwantup (svc_of v (trystart w s)) = flagwantup (svc_of v s)"
proof (cases w)
  case Main
  define s1 where "s1 = (if firstrun s \<and> stat_isexec (dirents s) ''start'' = 0
                         then s\<lparr>firstrun := False\<rparr> else s)"
  define sc where "sc = (if firstrun s1 then ''./start'' else ''./run'')"
  define s2 where "s2 = s1\<lparr>runscript := Some sc, svcmain := (svcmain s1)\<lparr>flagstatus :=
                      (if firstrun s1 then svstatus_starting else svstatus_running)\<rparr>\<rparr>"
  have "trystart Main s = trystart_fork Main [Some sc] 1 s2"
    using Main assms by (simp add: trystart_def Let_def s1_def sc_def s2_def)
  then show ?thesis using Main trystart_fork_wants [of v Main "[Some sc]" 1 s2]
    by (cases v) (simp_all add: s2_def s1_def)
next
  case Log
  then show ?thesis using trystart_fork_wants [of v Log "[Some ''./log'']" 0]
    by (cases v) (simp_all add: trystart_def)
qed

lemma kills_killsvc:
  "kills (trace (killsvc w g sg s)) =
     kills (trace s) @ (if pid (svc_of w s) \<noteq> 0 \<and> (flagstatus (svc_of w s) \<noteq> svstatus_orphanage \<or> g < 0)
                        then [(pid (svc_of w s) * g, sg)] else [])"
  by (simp add: killsvc_trace)

subsection \<open>The branches of trystart for the main service\<close>

lemma trystart_main_run:
  assumes "\<not> firstrun s \<or> stat_isexec (dirents s) ''start'' = 0" and "stat_exists (dirents s) ''run'' \<noteq> 0"
  shows "trystart Main s =
           trystart_fork Main [Some ''./run''] 1
             (s\<lparr>firstrun := False, runscript := Some ''./run'',
                svcmain := (svcmain s)\<lparr>flagstatus := svstatus_running\<rparr>\<rparr>)"
proof (cases "firstrun s")
  case True
  then show ?thesis using assms by (simp add: trystart_def Let_def)
next
  case False
  then have "s\<lparr>firstrun := False\<rparr> = s" by (cases s) simp
  then have "trystart_fork Main [Some ''./run''] 1
               (s\<lparr>firstrun := False, runscript := Some ''./run'',
                  svcmain := (svcmain s)\<lparr>flagstatus := svstatus_running\<rparr>\<rparr>) =
             trystart_fork Main [Some ''./run''] 1
               (s\<lparr>runscript := Some ''./run'', svcmain := (svcmain s)\<lparr>flagstatus := svstatus_running\<rparr>\<rparr>)"
    by (metis (no_types))
  then show ?thesis using False assms by (simp add: trystart_def Let_def)
qed

lemma trystart_main_start:
  assumes "firstrun s" and "stat_isexec (dirents s) ''start'' \<noteq> 0"
  shows "trystart Main s =
           trystart_fork Main [Some ''./start''] 1
             (s\<lparr>runscript := Some ''./start'', svcmain := (svcmain s)\<lparr>flagstatus := svstatus_starting\<rparr>\<rparr>)"
  using assms by (simp add: trystart_def Let_def)

lemma trystart_fork_fail:
  assumes "nproc_max s \<le> length (children s)"
  shows "trystart_fork w argv fd s =
           s\<lparr>trace := trace s @ [Ev_fork_failed, Ev_warn ''unable to fork, sleeping 60 seconds'', Ev_sleep 60],
             selfpipe := Suc (selfpipe s)\<rparr>"
  using forkexecve_fail [OF assms, of "Some w" argv fd] by (simp add: trystart_fork_def)

text \<open>A successful start forks the script first, then only \<open>./notify\<close>.\<close>

lemma trystart_fork_forks:
  assumes "length (children s) < nproc_max s" and "0 < nextpid s"
  shows "\<exists>es. forks (trace (trystart_fork w argv fd s)) = forks (trace s) @ (nextpid s, argv) # es \<and>
              (\<forall>x \<in> set es. hd (snd x) = Some ''./notify'')"
proof -
  let ?s1 = "upd_svc w (\<lambda>v. v\<lparr>pid := nextpid s, flagpaused := False\<rparr>) (forked s argv fd)"
  have "trystart_fork w argv fd s = deepsleep 1 (pidchange w (Some ''start'') 0 (nextpid s) ?s1)"
    using forkexecve_ok [OF assms(1), of "Some w" argv fd] assms(2) by (simp add: trystart_fork_def)
  moreover have "forks (trace ?s1) = forks (trace s) @ [(nextpid s, argv)]"
    by (cases w) (simp_all add: forked_def)
  ultimately show ?thesis
    using forks_pidchange [of w "Some ''start''" 0 "nextpid s" ?s1] by (auto simp: deepsleep_def)
qed

subsection \<open>Start failure, stop script, stopping\<close>

text \<open>
  C10. When \<open>fork\<close> fails while starting \<open>./run\<close>, the main service is left
  marked \<open>running\<close> with no process, the status file is not rewritten, and the
  only effects are the warning, the 60-second sleep and the self-pipe byte that
  schedules a retry.
\<close>

theorem trystart_fork_failure_running_without_pid:
  assumes "nproc_max s \<le> length (children s)" and "pid (svcmain s) = 0"
    and "\<not> firstrun s \<or> stat_isexec (dirents s) ''start'' = 0" and "stat_exists (dirents s) ''run'' \<noteq> 0"
  shows "pid (svcmain (trystart Main s)) = 0 \<and>
         flagstatus (svcmain (trystart Main s)) = svstatus_running \<and>
         statusfile (trystart Main s) = statusfile s \<and> children (trystart Main s) = children s \<and>
         selfpipe (trystart Main s) = Suc (selfpipe s) \<and>
         trace (trystart Main s) =
           trace s @ [Ev_fork_failed, Ev_warn ''unable to fork, sleeping 60 seconds'', Ev_sleep 60]"
  using assms by (simp add: trystart_main_run trystart_fork_fail)

text \<open>
  C11. Once the stop script has run in the current stop cycle, \<open>trystop\<close> forks
  nothing: it marks the service stopped and publishes.
\<close>

theorem trystop_after_ranstop_no_fork:
  assumes "ranstop (svc_of w s)"
  shows "children (trystop w s) = children s \<and> forks (trace (trystop w s)) = forks (trace s) \<and>
         flagstatus (svc_of w (trystop w s)) = svstatus_stopped \<and> ranstop (svc_of w (trystop w s)) \<and>
         pid (svc_of w (trystop w s)) = pid (svc_of w s)"
  using assms by (cases w) (simp_all add: trystop_def)

text \<open>
  C12. The first \<open>trystop\<close> of a stop cycle with an executable \<open>stop\<close> script
  forks \<open>./stop\<close>, sets the guard, and then notifies with the event \<open>"start"\<close>
  (the code passes the same notice as \<open>trystart\<close>), role \<open>stop\<close>, the new pid and
  code 0.
\<close>

theorem trystop_runs_stop_notifies_start:
  assumes "\<not> ranstop (svcmain s)" and "stat_isexec (dirents s) ''stop'' = 1"
    and "stat_isexec (dirents s) ''notify'' > 0" and "Suc (length (children s)) < nproc_max s"
    and "0 < nextpid s"
  shows "forks (trace (trystop Main s)) =
           forks (trace s) @ [(nextpid s, [Some ''./stop'']),
             (nextpid s + 1, [Some ''./notify'', Some ''stop'', Some ''start'',
                              Some (fmt_int_as_uint (nextpid s)), Some ''0''])] \<and>
         ranstop (svcmain (trystop Main s)) \<and> pid (svcmain (trystop Main s)) = nextpid s"
proof -
  define s0 where "s0 = s\<lparr>runscript := Some ''./stop''\<rparr>"
  define s2 where "s2 = upd_svc Main (\<lambda>v. v\<lparr>pid := nextpid s, flagpaused := False\<rparr>)
                          (forked s0 [Some ''./stop''] 1)"
  have fe: "forkexecve (Some Main) [Some ''./stop''] 1 s0 = (nextpid s, s2)"
    using forkexecve_ok [of s0 "Some Main" "[Some ''./stop'']" 1] assms(4,5)
    by (simp add: s0_def s2_def)
  have eq: "trystop Main s = deepsleep 1 (pidchange Main (Some ''start'') 0 (nextpid s)
                               (upd_svc Main (\<lambda>v. v\<lparr>ranstop := True\<rparr>) s2))"
    using assms(1,2,5) fe by (simp add: trystop_def s0_def)
  let ?s3 = "upd_svc Main (\<lambda>v. v\<lparr>ranstop := True\<rparr>) s2"
  have s3: "stat_isexec (dirents ?s3) ''notify'' > 0" "length (children ?s3) < nproc_max ?s3"
     "nextpid ?s3 = nextpid s + 1" "nextpid ?s3 \<noteq> -1"
     "forks (trace ?s3) = forks (trace s) @ [(nextpid s, [Some ''./stop''])]"
     "notify_argv Main ''start'' 0 (nextpid s) ?s3 =
        [Some ''./notify'', Some ''stop'', Some ''start'', Some (fmt_int_as_uint (nextpid s)), Some ''0'']"
    using assms(3-5) by (simp_all add: s2_def s0_def forked_def notify_argv_def)
  show ?thesis
    using forks_pidchange_notify [OF s3(1,2,4), of Main "''start''" 0 "nextpid s"] s3(3,5,6)
    by (simp add: eq s2_def)
qed

text \<open>
  C13. Stopping a service that has a process and is not orphaned sends \<open>SIGTERM\<close>
  then \<open>SIGCONT\<close> to its target (its pid times the group flag), clears paused and
  the stop guard, marks it stopping and keeps its pid.
\<close>

theorem stopsvc_term_then_cont:
  assumes "pid (svc_of w s) \<noteq> 0" and "flagstatus (svc_of w s) \<noteq> svstatus_orphanage"
  shows "kills (trace (stopsvc w g s)) =
           kills (trace s) @ [(pid (svc_of w s) * g, SIGTERM), (pid (svc_of w s) * g, SIGCONT)] \<and>
         flagstatus (svc_of w (stopsvc w g s)) = svstatus_stopping \<and>
         \<not> flagpaused (svc_of w (stopsvc w g s)) \<and> \<not> ranstop (svc_of w (stopsvc w g s)) \<and>
         pid (svc_of w (stopsvc w g s)) = pid (svc_of w s)"
proof -
  have "kills (trace (upd_svc w f t)) = kills (trace t)" for f t by (cases w) simp_all
  then show ?thesis using assms by (cases w) (simp_all add: stopsvc_def kills_killsvc)
qed

text \<open>A successful start publishes the status the service had when it was forked.\<close>

lemma trystart_fork_published_main:
  assumes "length (children s) < nproc_max s" and "0 < nextpid s"
    and "length (status_bytes s) \<le> status_room s"
  shows "published_main (trace (trystart_fork w argv fd s)) =
           published_main (trace s) @ [flagstatus (svcmain s)] \<and>
         pid (svc_of w (trystart_fork w argv fd s)) = nextpid s \<and>
         flagstatus (svcmain (trystart_fork w argv fd s)) = flagstatus (svcmain s)"
proof -
  let ?s1 = "upd_svc w (\<lambda>v. v\<lparr>pid := nextpid s, flagpaused := False\<rparr>) (forked s argv fd)"
  have "trystart_fork w argv fd s = deepsleep 1 (pidchange w (Some ''start'') 0 (nextpid s) ?s1)"
    using forkexecve_ok [OF assms(1), of "Some w" argv fd] assms(2) by (simp add: trystart_fork_def)
  moreover have "length (status_bytes ?s1) \<le> status_room ?s1"
      "published_main (trace ?s1) = published_main (trace s)"
      "flagstatus (svcmain ?s1) = flagstatus (svcmain s)"
    using assms(3) by (cases w; simp add: forked_def length_status_bytes)+
  ultimately show ?thesis
    using published_main_pidchange [of ?s1 w "Some ''start''" 0 "nextpid s"]
    by (cases w) (simp_all add: deepsleep_def forked_def)
qed

lemma trystart_fork_pid:
  assumes "length (children s) < nproc_max s" and "0 < nextpid s"
  shows "pid (svc_of w (trystart_fork w argv fd s)) = nextpid s"
  using forkexecve_ok [OF assms(1), of "Some w" argv fd] assms(2)
  by (cases w) (simp_all add: trystart_fork_def forked_def)

end
