(* ===== verification/Reaper.thy ===== *)
theory Reaper
  imports Service
begin

text \<open>
  The reaper (supervise.c lines 276--326). Each pass of its loop first drains the
  process group of an orphaned main service, then calls \<open>wait_nohang\<close>; the C
  variable \<open>pid\<close> is the integer the call returns (\<open>wait_ret\<close>), and \<open>errno\<close> is
  the error of a call that returned \<open>-1\<close>. An exit of the main service in
  orphanage mode turns it into \<open>svstatus_orphanage\<close>; an exit of a known service,
  or \<open>ECHILD\<close> (no children at all, taken as an exit of the main service), is
  handled by \<open>reaper_exit\<close> and ends the pass; other exits are skipped.

  The local \<open>int wstat\<close> is written by \<open>waitpid\<close> only when it returns a pid; on
  the \<open>ECHILD\<close> path the code reads it uninitialised. The model keeps it in the
  stack slot \<open>wstat_slot\<close>, which then holds the last status stored there.

  The loop returns unless \<open>svcmain.pid == -1\<close> in orphanage mode, where it spins;
  so it is a \<open>partial_function (option)\<close> and \<open>reaper_loop_returns\<close> proves that
  it returns whenever the main pid is not \<open>-1\<close>.
\<close>

definition wait_ret :: "wait_result \<Rightarrow> int" where
  "wait_ret r = (case r of WPid p _ \<Rightarrow> p | WNone \<Rightarrow> 0 | WErr _ \<Rightarrow> -1)"

text \<open>\<open>waitpid(t,&wstat,WNOHANG)\<close>: the status lands in the stack slot.\<close>

definition waitpid_slot :: "int \<Rightarrow> state \<Rightarrow> wait_result \<times> state" where
  "waitpid_slot t s =
     (case sys_waitpid t s of
        (WPid p w, s') \<Rightarrow> (WPid p w, s'\<lparr>wstat_slot := w\<rparr>)
      | (r, s') \<Rightarrow> (r, s'))"

text \<open>Lines 304--323: one exit of a known service.\<close>

definition reaper_exit :: "which \<Rightarrow> pid_t \<Rightarrow> state \<Rightarrow> state" where
  "reaper_exit w p s =
     (let ws = wstat_slot s;
          crashed = (wait_crashed ws \<noteq> 0);
          s1 = upd_svc w (\<lambda>v. v\<lparr>pid := 0\<rparr>) s;
          v1 = svc_of w s1;
          s2 = (if (w = Main \<and> flagstatus v1 = svstatus_starting \<and> (crashed \<or> wait_exitcode ws \<noteq> 0))
                   \<or> (\<not> crashed \<and> wait_exitcode ws = 100)
                then upd_svc w (\<lambda>v. v\<lparr>flagwantup := False, flagstatus := svstatus_failed\<rparr>) s1
                else if w = Main \<and> flagstatus v1 = svstatus_starting then s1
                else if \<not> flagwant v1 \<or> \<not> flagwantup v1
                then upd_svc w (\<lambda>v. v\<lparr>flagstatus := svstatus_stopped\<rparr>) s1
                else s1);
          s3 = pidchange w (Some (if crashed then ''killed'' else ''exit''))
                 (int (if crashed then wait_stopsig ws else wait_exitcode ws)) p s2;
          s4 = s3\<lparr>firstrun := False\<rparr>;
          v4 = svc_of w s4
      in if (flagwant v4 \<and> flagwantup v4) \<or> (w = Main \<and> flagstatus v4 = svstatus_starting)
         then (if \<not> flagexit s4 then trystart w s4 else s4)
         else if flagstatus v4 \<noteq> svstatus_failed then trystop w s4
         else s4)"

text \<open>One pass of the \<open>for (;;)\<close> loop: \<open>Continue\<close> for \<open>continue\<close>, \<open>Break\<close> for \<open>break\<close>.\<close>

definition reaper_step :: "state \<Rightarrow> state loop_step" where
  "reaper_step s =
     (let (r0, s0) = (if flagstatus (svcmain s) = svstatus_orphanage
                      then waitpid_slot (- pid (svcmain s)) s else (WNone, s))
      in if wait_ret r0 > 0 then Continue s0
         else
           let (r, s1) = (if wait_ret r0 = 0 then waitpid_slot (-1) s0 else (r0, s0));
               p = wait_ret r
           in if p = 0 then Break s1
              else if flagorphanage s1 \<and> p = pid (svcmain s1)
              then Continue (announce (s1\<lparr>svcmain := (svcmain s1)\<lparr>flagstatus := svstatus_orphanage\<rparr>\<rparr>))
              else if p = pid (svcmain s1) \<or> (p = -1 \<and> r = WErr ECHILD)
              then Break (reaper_exit Main p s1)
              else if p = pid (svclog s1) then Break (reaper_exit Log p s1)
              else if p = -1 \<and> r \<noteq> WErr EINTR then Break s1
              else Continue s1)"

partial_function (option) reaper_loop :: "state \<Rightarrow> state option" where
  "reaper_loop s = (case reaper_step s of Continue s' \<Rightarrow> reaper_loop s' | Break s' \<Rightarrow> Some s')"

subsection \<open>Lemmas on waiting\<close>

lemma wait_ret_pos: "0 < wait_ret r \<Longrightarrow> \<exists>p w. r = WPid p w"
  by (cases r) (auto simp: wait_ret_def)

lemma waitpid_slot_frame:
  "waitpid_slot t s = (r, s') \<Longrightarrow>
     s' = s\<lparr>children := children s', wstat_slot := wstat_slot s'\<rparr>"
  by (auto simp: waitpid_slot_def sys_waitpid_def Let_def split: prod.splits wait_result.splits
                 option.splits if_splits)

lemma waitpid_slot_zombies:
  "waitpid_slot t s = (r, s') \<Longrightarrow> 0 < wait_ret r \<Longrightarrow>
     zombies (children s') < zombies (children s)"
  by (auto simp: waitpid_slot_def wait_ret_def dest: sys_waitpid_zombies
           split: prod.splits wait_result.splits)

lemma waitpid_slot_nopid:
  "waitpid_slot t s = (r, s') \<Longrightarrow> \<forall>p w. r \<noteq> WPid p w \<Longrightarrow> s' = s"
  by (auto simp: waitpid_slot_def dest: sys_waitpid_no_pid split: prod.splits wait_result.splits)

lemma waitpid_slot_err:
  "waitpid_slot t s = (WErr e, s') \<Longrightarrow> e = ECHILD \<and> s' = s"
  by (auto simp: waitpid_slot_def dest: sys_waitpid_err split: prod.splits wait_result.splits)

lemma wait_ret_neg:
  "wait_ret r = -1 \<longleftrightarrow> (\<exists>e. r = WErr e) \<or> (\<exists>w. r = WPid (-1) w)"
  by (cases r) (auto simp: wait_ret_def)

lemma waitpid_slot_svc:
  "waitpid_slot t s = (r, s') \<Longrightarrow> svcmain s' = svcmain s \<and> svclog s' = svclog s \<and> flagorphanage s' = flagorphanage s"
  by (auto simp: waitpid_slot_def sys_waitpid_def Let_def split: prod.splits wait_result.splits option.splits if_splits)

lemma waitpid_slot_zombies_le:
  "waitpid_slot t s = (r, s') \<Longrightarrow> zombies (children s') \<le> zombies (children s)"
  by (cases "\<exists>p w. r = WPid p w")
     (auto simp: waitpid_slot_def dest: sys_waitpid_zombies sys_waitpid_none sys_waitpid_err split: prod.splits wait_result.splits)

lemma waitpid_slot_dec:
  "waitpid_slot t s = (WPid p w, s') \<Longrightarrow> zombies (children s') < zombies (children s)"
  by (auto simp: waitpid_slot_def dest: sys_waitpid_zombies split: prod.splits wait_result.splits)

lemma wait_ret_cases:
  "wait_ret r \<noteq> 0 \<Longrightarrow> wait_ret r \<noteq> -1 \<Longrightarrow> \<exists>p w. r = WPid p w"
  by (cases r) (auto simp: wait_ret_def)

subsection \<open>The reaper returns\<close>

text \<open>A pass that continues has reaped a child and kept the main pid.\<close>

lemma reaper_step_continue:
  assumes "reaper_step s = Continue s'" and "pid (svcmain s) \<noteq> -1"
  shows "zombies (children s') < zombies (children s) \<and> pid (svcmain s') = pid (svcmain s)"
proof -
  obtain r0 s0 where w0: "(if flagstatus (svcmain s) = svstatus_orphanage
                      then waitpid_slot (- pid (svcmain s)) s else (WNone, s)) = (r0, s0)"
    by (metis surj_pair)
  have m0: "svcmain s0 = svcmain s" "flagorphanage s0 = flagorphanage s"
    using w0 by (auto split: if_splits dest: waitpid_slot_svc)
  have z0: "zombies (children s0) \<le> zombies (children s)"
    using w0 by (auto split: if_splits dest: waitpid_slot_zombies_le)
  have d0: "\<And>p w. r0 = WPid p w \<Longrightarrow> zombies (children s0) < zombies (children s)"
    using w0 by (auto split: if_splits dest: waitpid_slot_dec)
  have e0: "\<And>e. r0 = WErr e \<Longrightarrow> e = ECHILD"
    using w0 by (auto split: if_splits dest: waitpid_slot_err)
  show ?thesis
  proof (cases "0 < wait_ret r0")
    case True
    then show ?thesis using assms(1) w0 m0 d0 wait_ret_pos [OF True]
      by (auto simp: reaper_step_def)
  next
    case False
    obtain r s1 where w1: "(if wait_ret r0 = 0 then waitpid_slot (-1) s0 else (r0, s0)) = (r, s1)"
      by (metis surj_pair)
    have m1: "svcmain s1 = svcmain s" "flagorphanage s1 = flagorphanage s"
      using w1 m0 by (auto split: if_splits dest: waitpid_slot_svc)
    have d1: "\<And>p w. r = WPid p w \<Longrightarrow> zombies (children s1) < zombies (children s)"
      using w1 z0 d0 by (fastforce split: if_splits dest: waitpid_slot_dec)
    have e1: "\<And>e. r = WErr e \<Longrightarrow> e = ECHILD"
      using w1 e0 by (auto split: if_splits dest: waitpid_slot_err)
    have step: "reaper_step s =
      (let p = wait_ret r
       in if p = 0 then Break s1
          else if flagorphanage s1 \<and> p = pid (svcmain s1)
          then Continue (announce (s1\<lparr>svcmain := (svcmain s1)\<lparr>flagstatus := svstatus_orphanage\<rparr>\<rparr>))
          else if p = pid (svcmain s1) \<or> (p = -1 \<and> r = WErr ECHILD)
          then Break (reaper_exit Main p s1)
          else if p = pid (svclog s1) then Break (reaper_exit Log p s1)
          else if p = -1 \<and> r \<noteq> WErr EINTR then Break s1
          else Continue s1)"
      using False w0 w1 by (simp add: reaper_step_def)
    have "wait_ret r \<noteq> 0" "wait_ret r \<noteq> -1"
      using assms step m1 e1 by (auto simp: Let_def wait_ret_def split: if_splits wait_result.splits)
    then obtain p w where "r = WPid p w" using wait_ret_cases by blast
    then show ?thesis
      using assms step m1 d1 by (auto simp: Let_def split: if_splits)
  qed
qed

text \<open>The loop is defined (does not diverge) unless the main pid is \<open>-1\<close>.\<close>

lemma reaper_loop_defined: "pid (svcmain s) \<noteq> -1 \<Longrightarrow> reaper_loop s \<noteq> None"
proof (induction "zombies (children s)" arbitrary: s rule: less_induct)
  case less
  show ?case
  proof (cases "reaper_step s")
    case (Continue s')
    with less.prems have "zombies (children s') < zombies (children s)" "pid (svcmain s') \<noteq> -1"
      using reaper_step_continue by auto
    then have "reaper_loop s' \<noteq> None" using less.hyps by blast
    with Continue show ?thesis by (simp add: reaper_loop.simps)
  next
    case (Break s')
    then show ?thesis by (simp add: reaper_loop.simps)
  qed
qed

text \<open>
  C2. The reaper returns (its loop ends) from every state in which the main
  service's pid is not \<open>-1\<close>: each pass that continues reaps one exited child.
\<close>

theorem reaper_loop_returns:
  "pid (svcmain s) \<noteq> -1 \<Longrightarrow> \<exists>s'. reaper_loop s = Some s'"
  using reaper_loop_defined by blast

subsection \<open>Classification of an exit\<close>

text \<open>
  C1. An exit with code 100 (a normal exit, not a crash) marks the service
  \<open>failed\<close> and no longer wanted up, whatever it was doing and whatever was wanted;
  no restart follows: the service keeps no process.
\<close>

theorem reaper_exit_code_100:
  assumes "wait_crashed (wstat_slot s) = 0" and "wait_exitcode (wstat_slot s) = 100"
  shows "pid (svc_of w (reaper_exit w p s)) = 0 \<and>
         flagstatus (svc_of w (reaper_exit w p s)) = svstatus_failed \<and>
         \<not> flagwantup (svc_of w (reaper_exit w p s))"
  using assms by (cases w) (simp_all add: reaper_exit_def Let_def)

subsection \<open>What the reaper tells \<open>./notify\<close>\<close>

lemma reaper_exit_env: "same_env s (reaper_exit w p s)"
proof -
  define ws where "ws = wstat_slot s"
  define crashed where "crashed = (wait_crashed ws \<noteq> 0)"
  define s1 where "s1 = upd_svc w (\<lambda>v. v\<lparr>pid := 0\<rparr>) s"
  define s2 where "s2 = (if (w = Main \<and> flagstatus (svc_of w s1) = svstatus_starting \<and>
                              (crashed \<or> wait_exitcode ws \<noteq> 0))
                           \<or> (\<not> crashed \<and> wait_exitcode ws = 100)
                then upd_svc w (\<lambda>v. v\<lparr>flagwantup := False, flagstatus := svstatus_failed\<rparr>) s1
                else if w = Main \<and> flagstatus (svc_of w s1) = svstatus_starting then s1
                else if \<not> flagwant (svc_of w s1) \<or> \<not> flagwantup (svc_of w s1)
                then upd_svc w (\<lambda>v. v\<lparr>flagstatus := svstatus_stopped\<rparr>) s1
                else s1)"
  define s4 where "s4 = (pidchange w (Some (if crashed then ''killed'' else ''exit''))
                 (int (if crashed then wait_stopsig ws else wait_exitcode ws)) p s2)\<lparr>firstrun := False\<rparr>"
  have "same_env s s2" by (simp add: s2_def s1_def env_steps)
  then have e4: "same_env s s4" by (simp add: s4_def env_steps)
  have "reaper_exit w p s = (if (flagwant (svc_of w s4) \<and> flagwantup (svc_of w s4)) \<or>
                                 (w = Main \<and> flagstatus (svc_of w s4) = svstatus_starting)
                              then (if \<not> flagexit s4 then trystart w s4 else s4)
                              else if flagstatus (svc_of w s4) \<noteq> svstatus_failed then trystop w s4
                              else s4)"
    unfolding reaper_exit_def Let_def s4_def s2_def s1_def crashed_def ws_def by (rule refl)
  then show ?thesis
    using e4 same_env_trans [OF e4 trystart_env] same_env_trans [OF e4 trystop_env] by simp
qed

lemma reaper_exit_forks:
  assumes "stat_isexec (dirents s) ''notify'' > 0" and "length (children s) < nproc_max s"
    and "nextpid s \<noteq> -1"
  shows "\<exists>es. forks (trace (reaper_exit w p s)) =
           forks (trace s) @
             (nextpid s, notify_argv w (if wait_crashed (wstat_slot s) \<noteq> 0 then ''killed'' else ''exit'')
                (int (if wait_crashed (wstat_slot s) \<noteq> 0 then wait_stopsig (wstat_slot s)
                      else wait_exitcode (wstat_slot s))) p s) # es"
proof -
  define ws where "ws = wstat_slot s"
  define crashed where "crashed = (wait_crashed ws \<noteq> 0)"
  define s1 where "s1 = upd_svc w (\<lambda>v. v\<lparr>pid := 0\<rparr>) s"
  define s2 where "s2 = (if (w = Main \<and> flagstatus (svc_of w s1) = svstatus_starting \<and>
                              (crashed \<or> wait_exitcode ws \<noteq> 0))
                           \<or> (\<not> crashed \<and> wait_exitcode ws = 100)
                then upd_svc w (\<lambda>v. v\<lparr>flagwantup := False, flagstatus := svstatus_failed\<rparr>) s1
                else if w = Main \<and> flagstatus (svc_of w s1) = svstatus_starting then s1
                else if \<not> flagwant (svc_of w s1) \<or> \<not> flagwantup (svc_of w s1)
                then upd_svc w (\<lambda>v. v\<lparr>flagstatus := svstatus_stopped\<rparr>) s1
                else s1)"
  define n where "n = (if crashed then ''killed'' else ''exit'')"
  define c where "c = int (if crashed then wait_stopsig ws else wait_exitcode ws)"
  define s4 where "s4 = (pidchange w (Some n) c p s2)\<lparr>firstrun := False\<rparr>"
  have s2: "dirents s2 = dirents s" "children s2 = children s" "nproc_max s2 = nproc_max s"
     "nextpid s2 = nextpid s" "trace s2 = trace s" "notify_argv w n c p s2 = notify_argv w n c p s"
    by (cases w; simp add: s2_def s1_def notify_argv_def)+
  have f4: "forks (trace s4) = forks (trace s) @ [(nextpid s, notify_argv w n c p s)]"
    using forks_pidchange_notify [of s2 w n c p] assms s2 by (simp add: s4_def)
  have "reaper_exit w p s = (if (flagwant (svc_of w s4) \<and> flagwantup (svc_of w s4)) \<or>
                                 (w = Main \<and> flagstatus (svc_of w s4) = svstatus_starting)
                              then (if \<not> flagexit s4 then trystart w s4 else s4)
                              else if flagstatus (svc_of w s4) \<noteq> svstatus_failed then trystop w s4
                              else s4)"
    unfolding reaper_exit_def Let_def s4_def n_def c_def s2_def s1_def crashed_def ws_def by (rule refl)
  moreover have "same_env s4 (trystart w s4)" "same_env s4 (trystop w s4)"
    by (rule trystart_env, rule trystop_env)
  ultimately obtain es where "trace (reaper_exit w p s) = trace s4 @ es"
    by (auto simp: same_env_def split: if_splits)
  then show ?thesis using f4 by (simp add: n_def c_def crashed_def ws_def)
qed

text \<open>
  C8. When a service is killed by a signal, the code the reaper passes to
  \<open>./notify\<close> is \<open>wait_stopsig(wstat)\<close>, which is \<open>0\<close> for every signal: the
  notification never carries the signal number.
\<close>

theorem reaper_killed_notify_code_zero:
  assumes "wstat_slot s = killed_by sg" and "0 < sg" and "sg < 128"
    and "stat_isexec (dirents s) ''notify'' > 0" and "length (children s) < nproc_max s"
    and "nextpid s \<noteq> -1"
  shows "\<exists>es. forks (trace (reaper_exit w p s)) =
           forks (trace s) @
             (nextpid s, [Some ''./notify'', if w = Log then Some ''log'' else map_option (drop 2) (runscript s),
                          Some ''killed'', Some (fmt_int_as_uint p), Some ''0'']) # es"
  using reaper_exit_forks [OF assms(4-6), of w p] assms(1-3) by (simp add: notify_argv_def)

text \<open>
  C9. With no children at all, \<open>wait_nohang\<close> fails with \<open>ECHILD\<close> and the reaper
  handles it as an exit of the main service: it notifies with the old pid \<open>-1\<close>,
  printed as \<open>4294967295\<close>, and with the script name taken from \<open>runscript\<close>,
  which is the null pointer when no script has run yet.
\<close>

theorem reaper_no_children_phantom_exit:
  assumes "children s = []" and "flagstatus (svcmain s) \<noteq> svstatus_orphanage"
    and "pid (svcmain s) \<noteq> -1" and "stat_isexec (dirents s) ''notify'' > 0"
    and "0 < nproc_max s" and "nextpid s \<noteq> -1"
  shows "\<exists>s' n c es. reaper_loop s = Some s' \<and>
           forks (trace s') = forks (trace s) @
             (nextpid s, [Some ''./notify'', map_option (drop 2) (runscript s), Some n,
                          Some ''4294967295'', Some c]) # es"
proof -
  have w: "waitpid_slot (-1) s = (WErr ECHILD, s)"
    using assms(1) by (simp add: waitpid_slot_def sys_waitpid_def)
  have "reaper_step s = Break (reaper_exit Main (-1) s)"
    using assms(2,3) w by (simp add: reaper_step_def wait_ret_def)
  then have "reaper_loop s = Some (reaper_exit Main (-1) s)"
    by (simp add: reaper_loop.simps)
  then show ?thesis
    using reaper_exit_forks [of s Main "-1"] assms(1,4-6) by (auto simp: notify_argv_def)
qed

subsection \<open>Scenarios of the specification\<close>

text \<open>The reaper's handling of a known service, unfolded at the state after \<open>pidchange\<close>.\<close>

lemma reaper_exit_tail:
  "reaper_exit w p s =
     (let ws = wstat_slot s; crashed = (wait_crashed ws \<noteq> 0);
          s1 = upd_svc w (\<lambda>v. v\<lparr>pid := 0\<rparr>) s; v1 = svc_of w s1;
          s2 = (if (w = Main \<and> flagstatus v1 = svstatus_starting \<and> (crashed \<or> wait_exitcode ws \<noteq> 0))
                   \<or> (\<not> crashed \<and> wait_exitcode ws = 100)
                then upd_svc w (\<lambda>v. v\<lparr>flagwantup := False, flagstatus := svstatus_failed\<rparr>) s1
                else if w = Main \<and> flagstatus v1 = svstatus_starting then s1
                else if \<not> flagwant v1 \<or> \<not> flagwantup v1
                then upd_svc w (\<lambda>v. v\<lparr>flagstatus := svstatus_stopped\<rparr>) s1
                else s1);
          s4 = (pidchange w (Some (if crashed then ''killed'' else ''exit''))
                 (int (if crashed then wait_stopsig ws else wait_exitcode ws)) p s2)\<lparr>firstrun := False\<rparr>;
          v4 = svc_of w s4
      in if (flagwant v4 \<and> flagwantup v4) \<or> (w = Main \<and> flagstatus v4 = svstatus_starting)
         then (if \<not> flagexit s4 then trystart w s4 else s4)
         else if flagstatus v4 \<noteq> svstatus_failed then trystop w s4
         else s4)"
  unfolding reaper_exit_def Let_def by (rule refl)

text \<open>
  C21. When \<open>./start\<close> exits 0, the reaper keeps the main service \<open>starting\<close>,
  publishes it, and starts \<open>./run\<close>, publishing \<open>running\<close>: the two-phase start
  of the specification.
\<close>

theorem reaper_start_success_runs_run:
  assumes "flagstatus (svcmain s) = svstatus_starting" and "wstat_slot s = exited 0"
    and "\<not> flagexit s" and "stat_exists (dirents s) ''run'' \<noteq> 0"
    and "Suc (length (children s)) < nproc_max s" and "0 < nextpid s"
    and "length (status_bytes s) \<le> status_room s"
  shows "published_main (trace (reaper_exit Main p s)) =
           published_main (trace s) @ [svstatus_starting, svstatus_running] \<and>
         flagstatus (svcmain (reaper_exit Main p s)) = svstatus_running \<and>
         (\<exists>q es1 es2. pid (svcmain (reaper_exit Main p s)) = q \<and>
            forks (trace (reaper_exit Main p s)) = forks (trace s) @ es1 @ (q, [Some ''./run'']) # es2)"
proof -
  define s2 where "s2 = s\<lparr>svcmain := (svcmain s)\<lparr>pid := 0\<rparr>\<rparr>"
  define s4 where "s4 = (pidchange Main (Some ''exit'') 0 p s2)\<lparr>firstrun := False\<rparr>"
  define s5 where "s5 = s4\<lparr>firstrun := False, runscript := Some ''./run'',
                          svcmain := (svcmain s4)\<lparr>flagstatus := svstatus_running\<rparr>\<rparr>"
  have room2: "length (status_bytes s2) \<le> status_room s2"
    using assms(7) by (simp add: s2_def length_status_bytes)
  have "reaper_exit Main p s = (if \<not> flagexit s4 then trystart Main s4 else s4)"
    using assms(1,2) by (simp add: reaper_exit_tail Let_def s4_def s2_def)
  also have "\<dots> = trystart_fork Main [Some ''./run''] 1 s5"
    using assms(3,4) by (simp add: trystart_main_run s5_def s4_def s2_def)
  finally have eq: "reaper_exit Main p s = trystart_fork Main [Some ''./run''] 1 s5" .
  have pc: "length (children s4) \<le> Suc (length (children s))" "nextpid s \<le> nextpid s4"
    using pidchange_children [of Main "Some ''exit''" 0 p s2] by (simp_all add: s4_def s2_def)
  obtain es1 where es1: "forks (trace s4) = forks (trace s) @ es1"
    using forks_pidchange [of Main "Some ''exit''" 0 p s2] by (auto simp: s4_def s2_def)
  have t2: "published_main (trace s2) = published_main (trace s)" "flagstatus (svcmain s2) = svstatus_starting"
    "nproc_max s2 = nproc_max s"
    using assms(1) by (simp_all add: s2_def)
  have s5: "length (children s5) < nproc_max s5" "0 < nextpid s5"
     "length (status_bytes s5) \<le> status_room s5" "flagstatus (svcmain s5) = svstatus_running"
     "published_main (trace s5) = published_main (trace s) @ [svstatus_starting]"
     "forks (trace s5) = forks (trace s) @ es1"
    using assms(5,6) pc es1 room2 t2 published_main_pidchange [OF room2, of Main "Some ''exit''" 0 p]
    by (simp_all add: s5_def s4_def length_status_bytes)
  obtain es2 where "forks (trace (trystart_fork Main [Some ''./run''] 1 s5)) =
                      forks (trace s5) @ (nextpid s5, [Some ''./run'']) # es2"
    using trystart_fork_forks [OF s5(1,2), of Main "[Some ''./run'']" 1] by blast
  then show ?thesis
    using trystart_fork_published_main [OF s5(1,2,3), of Main "[Some ''./run'']" 1] s5(4-6)
    by (auto simp: eq)
qed

text \<open>
  C22. After an exit with code 100 the reaper starts nothing: the only program it
  may fork is \<open>./notify\<close>, and the service is left failed without a process.
\<close>

theorem reaper_exit_100_no_restart:
  assumes "wstat_slot s = exited 100"
  shows "\<exists>es. forks (trace (reaper_exit w p s)) = forks (trace s) @ es \<and>
              (\<forall>x \<in> set es. hd (snd x) = Some ''./notify'') \<and>
              flagstatus (svc_of w (reaper_exit w p s)) = svstatus_failed \<and>
              pid (svc_of w (reaper_exit w p s)) = 0"
proof -
  define s2 where "s2 = upd_svc w (\<lambda>v. v\<lparr>flagwantup := False, flagstatus := svstatus_failed\<rparr>)
                          (upd_svc w (\<lambda>v. v\<lparr>pid := 0\<rparr>) s)"
  define s4 where "s4 = (pidchange w (Some ''exit'') 100 p s2)\<lparr>firstrun := False\<rparr>"
  have "reaper_exit w p s = s4"
    using assms by (cases w) (simp_all add: reaper_exit_tail Let_def s4_def s2_def)
  moreover obtain es where "forks (trace s4) = forks (trace s) @ es"
      "\<forall>x \<in> set es. hd (snd x) = Some ''./notify''"
    using forks_pidchange [of w "Some ''exit''" 100 p s2] by (cases w) (auto simp: s4_def s2_def)
  moreover have "flagstatus (svc_of w s4) = svstatus_failed" "pid (svc_of w s4) = 0"
    by (cases w; simp add: s4_def s2_def)+
  ultimately show ?thesis by blast
qed

text \<open>
  C29. A main service that is not wanted persistently (started with \<open>o\<close>) and
  exits normally with a code other than 100 is marked stopped and not restarted:
  without an executable \<open>stop\<close> script the reaper forks nothing but \<open>./notify\<close>.
\<close>

theorem reaper_once_not_restarted:
  assumes "\<not> flagwant (svcmain s)" and "flagstatus (svcmain s) \<noteq> svstatus_starting"
    and "wstat_slot s = exited c" and "c mod 256 \<noteq> 100" and "stat_isexec (dirents s) ''stop'' \<noteq> 1"
  shows "\<exists>es. forks (trace (reaper_exit Main p s)) = forks (trace s) @ es \<and>
              (\<forall>x \<in> set es. hd (snd x) = Some ''./notify'') \<and>
              flagstatus (svcmain (reaper_exit Main p s)) = svstatus_stopped \<and>
              pid (svcmain (reaper_exit Main p s)) = 0"
proof -
  define s2 where "s2 = s\<lparr>svcmain := (svcmain s)\<lparr>pid := 0, flagstatus := svstatus_stopped\<rparr>\<rparr>"
  define s4 where "s4 = (pidchange Main (Some ''exit'') (int (c mod 256)) p s2)\<lparr>firstrun := False\<rparr>"
  have "reaper_exit Main p s = trystop Main s4"
    using assms(1-4) by (simp add: reaper_exit_tail Let_def s4_def s2_def)
  also have "\<dots> = announce (s4\<lparr>svcmain := (svcmain s4)\<lparr>ranstop := True, flagstatus := svstatus_stopped\<rparr>\<rparr>)"
    using assms(5) by (simp add: trystop_def s4_def s2_def)
  finally have eq: "reaper_exit Main p s =
                      announce (s4\<lparr>svcmain := (svcmain s4)\<lparr>ranstop := True, flagstatus := svstatus_stopped\<rparr>\<rparr>)" .
  obtain es where "forks (trace s4) = forks (trace s) @ es" "\<forall>x \<in> set es. hd (snd x) = Some ''./notify''"
    using forks_pidchange [of Main "Some ''exit''" "int (c mod 256)" p s2] by (auto simp: s4_def s2_def)
  moreover have "pid (svcmain s4) = 0" by (simp add: s4_def s2_def)
  ultimately show ?thesis by (auto simp: eq)
qed

text \<open>
  C30. In orphanage mode, when the main process was the last child and has
  exited, one call of the reaper marks the service orphaned and publishes it,
  then finds no children left and handles that as the exit of the main service,
  notifying \<open>./notify\<close> with the old pid \<open>-1\<close> (printed \<open>4294967295\<close>) rather
  than the pid of the process that exited.
\<close>

theorem reaper_orphanage_last_exit:
  assumes "flagorphanage s" and "children s = [ch]" and "cpid ch = pid (svcmain s)"
    and "cexit ch = Some ws" and "0 < pid (svcmain s)"
    and "flagstatus (svcmain s) \<noteq> svstatus_orphanage"
    and "stat_isexec (dirents s) ''notify'' > 0" and "0 < nproc_max s" and "nextpid s \<noteq> -1"
    and "length (status_bytes s) \<le> status_room s"
  shows "\<exists>s' n cd es. reaper_loop s = Some s' \<and>
           forks (trace s') = forks (trace s) @
             (nextpid s, [Some ''./notify'', map_option (drop 2) (runscript s), Some n,
                          Some ''4294967295'', Some cd]) # es \<and>
           take (Suc (length (published_main (trace s)))) (published_main (trace s')) =
             published_main (trace s) @ [svstatus_orphanage]"
proof -
  define s0 where "s0 = s\<lparr>children := [], wstat_slot := ws\<rparr>"
  define s1 where "s1 = announce (s0\<lparr>svcmain := (svcmain s0)\<lparr>flagstatus := svstatus_orphanage\<rparr>\<rparr>)"
  have w0: "waitpid_slot (-1) s = (WPid (pid (svcmain s)) ws, s0)"
    using assms(2-4) by (simp add: waitpid_slot_def sys_waitpid_def wait_selects_def s0_def)
  have "reaper_step s = Continue s1"
    using assms(1,5,6) w0 by (simp add: reaper_step_def wait_ret_def s1_def s0_def)
  moreover have w1: "waitpid_slot (- pid (svcmain s)) s1 = (WErr ECHILD, s1)"
    by (simp add: waitpid_slot_def sys_waitpid_def s1_def s0_def)
  have "reaper_step s1 = Break (reaper_exit Main (-1) s1)"
    using assms(5) w1 by (simp add: reaper_step_def wait_ret_def s1_def s0_def)
  ultimately have loop: "reaper_loop s = Some (reaper_exit Main (-1) s1)"
    by (simp add: reaper_loop.simps [of s] reaper_loop.simps [of s1])
  have s1: "stat_isexec (dirents s1) ''notify'' > 0" "length (children s1) < nproc_max s1"
     "nextpid s1 = nextpid s" "forks (trace s1) = forks (trace s)" "runscript s1 = runscript s"
    using assms(7-9) by (simp_all add: s1_def s0_def)
  have p1: "published_main (trace s1) = published_main (trace s) @ [svstatus_orphanage]"
    using assms(10) published_main_announce [of "s0\<lparr>svcmain := (svcmain s0)\<lparr>flagstatus := svstatus_orphanage\<rparr>\<rparr>"]
    by (simp add: s1_def s0_def length_status_bytes)
  have "same_env s1 (reaper_exit Main (-1) s1)"
    using reaper_exit_env by blast
  then obtain more where "trace (reaper_exit Main (-1) s1) = trace s1 @ more"
    by (auto simp: same_env_def)
  then have pm: "take (Suc (length (published_main (trace s)))) (published_main (trace (reaper_exit Main (-1) s1))) =
                   published_main (trace s) @ [svstatus_orphanage]"
    using p1 by simp
  show ?thesis
    using reaper_exit_forks [OF s1(1,2), of Main "-1"] s1(3-5) s1(3) loop pm assms(9)
    by (auto simp: notify_argv_def)
qed

end
