(* ===== verification/Control_Commands.thy ===== *)
theory Control_Commands
  imports Service
begin

text \<open>
  The command table of the controller (supervise.c lines 335--395): \<open>ctl_cmd\<close> is
  the body of the \<open>switch\<close> on one control byte, given the service last selected
  (\<open>'l'\<close> main, \<open>'L'\<close> log) and the targeting last selected (\<open>'='\<close> the process,
  \<open>'+'\<close> its process group: \<open>killgroup\<close> is \<open>1\<close> or \<open>-1\<close>); it returns both with
  the new state. Bytes outside the alphabet fall through the \<open>switch\<close>. No command
  writes to the control FIFO or to any other field of the environment.
\<close>

definition ctl_signal :: "char \<Rightarrow> sig option" where
  "ctl_signal ch =
     (if ch = CHR ''a'' then Some SIGALRM else if ch = CHR ''h'' then Some SIGHUP
      else if ch = CHR ''k'' then Some SIGKILL else if ch = CHR ''t'' then Some SIGTERM
      else if ch = CHR ''i'' then Some SIGINT else if ch = CHR ''q'' then Some SIGQUIT
      else if ch = CHR ''1'' then Some SIGUSR1 else if ch = CHR ''2'' then Some SIGUSR2
      else if ch = CHR ''w'' then Some SIGWINCH else None)"

definition ctl_down :: "which \<Rightarrow> int \<Rightarrow> state \<Rightarrow> state" where
  "ctl_down w kg s =
     (let s1 = upd_svc w (\<lambda>v. v\<lparr>flagwant := True, flagwantup := False\<rparr>) s;
          s2 = (if pid (svc_of w s1) \<noteq> 0 then stopsvc w kg s1 else trystop w s1)
      in announce s2)"

definition ctl_up :: "which \<Rightarrow> state \<Rightarrow> state" where
  "ctl_up w s =
     (let s1 = (if w = Main then s\<lparr>firstrun := \<not> flagwantup (svcmain s)\<rparr> else s);
          s2 = upd_svc w (\<lambda>v. v\<lparr>flagwant := True, flagwantup := True\<rparr>) s1;
          s3 = (if pid (svc_of w s2) = 0 then upd_svc w (\<lambda>v. v\<lparr>flagstatus := svstatus_starting\<rparr>) s2
                else s2);
          s4 = announce s3
      in if pid (svc_of w s4) = 0 then trystart w s4 else s4)"

definition ctl_once :: "which \<Rightarrow> state \<Rightarrow> state" where
  "ctl_once w s =
     (let s1 = announce (upd_svc w (\<lambda>v. v\<lparr>flagwant := False\<rparr>) s)
      in if pid (svc_of w s1) = 0 then trystart w s1 else s1)"

definition ctl_cmd :: "char \<Rightarrow> which \<Rightarrow> int \<Rightarrow> state \<Rightarrow> which \<times> int \<times> state" where
  "ctl_cmd ch w kg s =
     (if ch = CHR ''+'' then (w, -1, s)
      else if ch = CHR ''='' then (w, 1, s)
      else if ch = CHR ''L'' then (Log, kg, s)
      else if ch = CHR ''l'' then (Main, kg, s)
      else if ch = CHR ''d'' then (w, kg, ctl_down w kg s)
      else if ch = CHR ''u'' then (w, kg, ctl_up w s)
      else if ch = CHR ''o'' then (w, kg, ctl_once w s)
      else if ch = CHR ''p'' then
        (w, kg, killsvc w kg SIGSTOP (announce (upd_svc w (\<lambda>v. v\<lparr>flagpaused := True\<rparr>) s)))
      else if ch = CHR ''c'' then
        (w, kg, killsvc w kg SIGCONT (announce (upd_svc w (\<lambda>v. v\<lparr>flagpaused := False\<rparr>) s)))
      else if ch = CHR ''x'' then (w, kg, announce (s\<lparr>flagexit := True\<rparr>))
      else case ctl_signal ch of
             Some sg \<Rightarrow> (w, kg, killsvc w kg sg s)
           | None \<Rightarrow> (w, kg, s))"

subsection \<open>No command touches the environment\<close>

lemma ctl_cmd_env: "same_env s (snd (snd (ctl_cmd ch w kg s)))"
  by (auto simp: ctl_cmd_def ctl_down_def ctl_up_def ctl_once_def Let_def env_steps
                 same_env_trans [OF _ stopsvc_env] same_env_trans [OF _ trystop_env]
                 same_env_trans [OF _ trystart_env] split: option.splits)

lemma ctl_cmd_control: "control (snd (snd (ctl_cmd ch w kg s))) = control s"
  using ctl_cmd_env [of s ch w kg] by (simp add: same_env_def)

subsection \<open>Single commands\<close>

lemma ctl_up_main_wants:
  assumes "stat_exists (dirents s) ''run'' \<noteq> 0"
  shows "flagwant (svcmain (ctl_up Main s)) \<and> flagwantup (svcmain (ctl_up Main s))"
proof -
  define s3 where "s3 = upd_svc Main (\<lambda>v. v\<lparr>flagwant := True, flagwantup := True\<rparr>)
                          (s\<lparr>firstrun := \<not> flagwantup (svcmain s)\<rparr>)"
  define s4 where "s4 = announce (if pid (svc_of Main s3) = 0
                      then upd_svc Main (\<lambda>v. v\<lparr>flagstatus := svstatus_starting\<rparr>) s3 else s3)"
  have eq: "ctl_up Main s = (if pid (svc_of Main s4) = 0 then trystart Main s4 else s4)"
    by (simp add: ctl_up_def s3_def s4_def Let_def)
  have w4: "flagwant (svcmain s4) \<and> flagwantup (svcmain s4)" "stat_exists (dirents s4) ''run'' \<noteq> 0"
    using assms by (simp_all add: s4_def s3_def)
  then show ?thesis
    using trystart_wants [of Main s4 Main] by (simp add: eq)
qed

lemma ctl_down_wants:
  "flagwant (svc_of w (ctl_down w kg s)) \<and> \<not> flagwantup (svc_of w (ctl_down w kg s))"
proof -
  define s1 where "s1 = upd_svc w (\<lambda>v. v\<lparr>flagwant := True, flagwantup := False\<rparr>) s"
  have "ctl_down w kg s = announce (if pid (svc_of w s1) \<noteq> 0 then stopsvc w kg s1 else trystop w s1)"
    by (simp add: ctl_down_def s1_def Let_def)
  then show ?thesis
    using stopsvc_wants [of w w kg s1] trystop_wants [of w w s1] by (cases w) (simp_all add: s1_def)
qed

lemma ctl_cmd_pause:
  "ctl_cmd (CHR ''p'') w kg s =
     (w, kg, killsvc w kg SIGSTOP (announce (upd_svc w (\<lambda>v. v\<lparr>flagpaused := True\<rparr>) s)))"
  by (simp add: ctl_cmd_def)

lemma ctl_cmd_continue:
  "ctl_cmd (CHR ''c'') w kg s =
     (w, kg, killsvc w kg SIGCONT (announce (upd_svc w (\<lambda>v. v\<lparr>flagpaused := False\<rparr>) s)))"
  by (simp add: ctl_cmd_def)

end
