(* ===== verification/Controller.thy ===== *)
theory Controller
  imports Control_Commands
begin

text \<open>
  The controller's read loop (supervise.c lines 328--334): it reads the control
  FIFO one byte at a time until the non-blocking read finds it empty, starting
  each pass with the main service selected and single-process targeting. Since no
  command writes to the FIFO, the loop consumes exactly the bytes queued when it
  started, which is its termination argument.
\<close>

subsection \<open>The read loop\<close>

function controller_loop :: "which \<Rightarrow> int \<Rightarrow> state \<Rightarrow> state" where
  "controller_loop w kg s =
     (case control s of
        [] \<Rightarrow> s
      | ch # rest \<Rightarrow>
          (case ctl_cmd ch w kg (s\<lparr>control := rest\<rparr>) of
             (w', kg', s') \<Rightarrow> controller_loop w' kg' s'))"
  by pat_completeness auto
termination
proof (relation "measure (\<lambda>(w, kg, s). length (control s))", goal_cases)
  case 1
  show ?case by simp
next
  case (2 w kg s ch rest w' y kg' s')
  then have "s' = snd (snd (ctl_cmd ch w kg (s\<lparr>control := rest\<rparr>)))"
    by (metis snd_conv)
  then have "control s' = rest" by (simp add: ctl_cmd_control)
  then show ?case using 2(1) by simp
qed

declare controller_loop.simps [simp del]

definition controller :: "state \<Rightarrow> state" where
  "controller s = controller_loop Main 1 s"

lemma controller_loop_Nil [simp]: "control s = [] \<Longrightarrow> controller_loop w kg s = s"
  by (simp add: controller_loop.simps)

lemma controller_loop_Cons:
  "control s = ch # rest \<Longrightarrow>
     controller_loop w kg s =
       (case ctl_cmd ch w kg (s\<lparr>control := rest\<rparr>) of (w', kg', s') \<Rightarrow> controller_loop w' kg' s')"
  by (subst controller_loop.simps) simp

text \<open>A property kept by every command and by the read of a byte is kept by a pass.\<close>

lemma controller_loop_preserves:
  assumes cmd: "\<And>ch w kg t. I t \<Longrightarrow> I (snd (snd (ctl_cmd ch w kg t)))"
    and rd: "\<And>t cs. I t \<Longrightarrow> I (t\<lparr>control := cs\<rparr>)"
    and i: "I s"
  shows "I (controller_loop w kg s)"
  using i
proof (induction w kg s rule: controller_loop.induct)
  case (1 w kg s)
  show ?case
  proof (cases "control s")
    case Nil
    then show ?thesis using "1.prems" by simp
  next
    case (Cons ch rest)
    obtain w' kg' s' where e: "ctl_cmd ch w kg (s\<lparr>control := rest\<rparr>) = (w', kg', s')"
      by (metis prod_cases3)
    have "I s'" using cmd [OF rd [OF "1.prems"], of ch w kg rest] e by simp
    then show ?thesis using "1.IH" [OF Cons e [symmetric] refl] Cons e by (simp add: controller_loop_Cons)
  qed
qed

subsection \<open>Properties of a pass\<close>

lemma controller_loop_up_down:
  "control s = cs \<Longrightarrow> cs \<noteq> [] \<Longrightarrow> set cs \<subseteq> {CHR ''u'', CHR ''d''} \<Longrightarrow>
   stat_exists (dirents s) ''run'' \<noteq> 0 \<Longrightarrow>
   flagwant (svcmain (controller_loop Main kg s)) \<and>
   flagwantup (svcmain (controller_loop Main kg s)) = (last cs = CHR ''u'')"
proof (induction cs arbitrary: s)
  case Nil
  then show ?case by simp
next
  case (Cons ch rest)
  define s' where "s' = snd (snd (ctl_cmd ch Main kg (s\<lparr>control := rest\<rparr>)))"
  have ch: "ch = CHR ''u'' \<or> ch = CHR ''d''" using Cons.prems(3) by auto
  then have step: "ctl_cmd ch Main kg (s\<lparr>control := rest\<rparr>) = (Main, kg, s')"
    by (auto simp: ctl_cmd_def s'_def)
  have loop: "controller_loop Main kg s = controller_loop Main kg s'"
    using Cons.prems(1) step by (simp add: controller_loop_Cons)
  have env: "control s' = rest" "dirents s' = dirents s"
    using ctl_cmd_env [of "s\<lparr>control := rest\<rparr>" ch Main kg] by (simp_all add: s'_def same_env_def)
  have wants: "flagwant (svcmain s') \<and> flagwantup (svcmain s') = (ch = CHR ''u'')"
    using ch ctl_up_main_wants [of "s\<lparr>control := rest\<rparr>"] ctl_down_wants [of Main kg "s\<lparr>control := rest\<rparr>"]
      Cons.prems(4) by (auto simp: s'_def ctl_cmd_def)
  show ?case
  proof (cases "rest = []")
    case True
    then show ?thesis using loop env wants by simp
  next
    case False
    then show ?thesis using loop env Cons.IH [of s'] Cons.prems(3,4) by simp
  qed
qed

text \<open>
  C5. On a running service, the control bytes \<open>p\<close> then \<open>c\<close> leave it not paused
  with the same pid, and send it \<open>SIGSTOP\<close> then \<open>SIGCONT\<close> and no other signal.
\<close>

theorem controller_pause_continue:
  assumes "control s = ''pc''" and "pid (svcmain s) \<noteq> 0"
    and "flagstatus (svcmain s) \<noteq> svstatus_orphanage"
  shows "\<not> flagpaused (svcmain (controller s)) \<and> pid (svcmain (controller s)) = pid (svcmain s) \<and>
         kills (trace (controller s)) =
           kills (trace s) @ [(pid (svcmain s), SIGSTOP), (pid (svcmain s), SIGCONT)]"
proof -
  define s1 where "s1 = killsvc Main 1 SIGSTOP
                          (announce (upd_svc Main (\<lambda>v. v\<lparr>flagpaused := True\<rparr>) (s\<lparr>control := ''c''\<rparr>)))"
  define s2 where "s2 = killsvc Main 1 SIGCONT
                          (announce (upd_svc Main (\<lambda>v. v\<lparr>flagpaused := False\<rparr>) (s1\<lparr>control := []\<rparr>)))"
  have c1: "control s1 = ''c''" by (simp add: s1_def)
  have c2: "control s2 = []" by (simp add: s2_def)
  have "controller s = controller_loop Main 1 s1"
    using assms(1) by (simp add: controller_def controller_loop_Cons ctl_cmd_pause s1_def)
  also have "\<dots> = controller_loop Main 1 s2"
    using c1 by (simp add: controller_loop_Cons ctl_cmd_continue s2_def)
  also have "\<dots> = s2" using c2 by simp
  finally have eq: "controller s = s2" .
  have "svcmain s1 = (svcmain s)\<lparr>flagpaused := True\<rparr>"
       "kills (trace s1) = kills (trace s) @ [(pid (svcmain s), SIGSTOP)]"
    using assms(2,3) by (simp_all add: s1_def kills_killsvc)
  then show ?thesis
    using assms(2,3) by (simp add: eq s2_def kills_killsvc)
qed

text \<open>
  C6. A pass of the controller over a non-empty sequence of \<open>u\<close> and \<open>d\<close> bytes,
  with a \<open>run\<close> script present, leaves the main service wanted persistently and
  wanted up exactly when the last byte is \<open>u\<close>: repetitions do not matter.
\<close>

theorem controller_up_down_last:
  assumes "control s = cs" and "cs \<noteq> []" and "set cs \<subseteq> {CHR ''u'', CHR ''d''}"
    and "stat_exists (dirents s) ''run'' \<noteq> 0"
  shows "flagwant (svcmain (controller s)) \<and>
         flagwantup (svcmain (controller s)) = (last cs = CHR ''u'')"
  unfolding controller_def using assms by (rule controller_loop_up_down)

lemma controller_single:
  "control s = [ch] \<Longrightarrow> controller s = snd (snd (ctl_cmd ch Main 1 (s\<lparr>control := []\<rparr>)))"
proof -
  assume c: "control s = [ch]"
  obtain w' kg' s' where e: "ctl_cmd ch Main 1 (s\<lparr>control := []\<rparr>) = (w', kg', s')"
    by (metis prod_cases3)
  then have "control s' = []" using ctl_cmd_control [of ch Main 1 "s\<lparr>control := []\<rparr>"] by simp
  then show ?thesis using c e by (simp add: controller_def controller_loop_Cons)
qed

subsection \<open>Scenarios of the specification\<close>

text \<open>
  C14. With \<open>run\<close> and no \<open>start\<close> script, the command \<open>u\<close> on a stopped main
  service publishes \<open>starting\<close> and then \<open>running\<close>, forks \<open>./run\<close> and
  records its pid: the start phase is skipped.
\<close>

theorem controller_up_run_only:
  assumes "control s = ''u''" and "pid (svcmain s) = 0"
    and "stat_isexec (dirents s) ''start'' = 0" and "stat_exists (dirents s) ''run'' \<noteq> 0"
    and "length (children s) < nproc_max s" and "0 < nextpid s"
    and "length (status_bytes s) \<le> status_room s"
  shows "published_main (trace (controller s)) =
           published_main (trace s) @ [svstatus_starting, svstatus_running] \<and>
         flagstatus (svcmain (controller s)) = svstatus_running \<and>
         pid (svcmain (controller s)) = nextpid s \<and>
         (\<exists>es. forks (trace (controller s)) = forks (trace s) @ (nextpid s, [Some ''./run'']) # es)"
proof -
  define s3 where "s3 = s\<lparr>control := [], firstrun := \<not> flagwantup (svcmain s),
                          svcmain := (svcmain s)\<lparr>flagwant := True, flagwantup := True,
                                                   flagstatus := svstatus_starting\<rparr>\<rparr>"
  define s5 where "s5 = (announce s3)\<lparr>firstrun := False, runscript := Some ''./run'',
                          svcmain := (svcmain (announce s3))\<lparr>flagstatus := svstatus_running\<rparr>\<rparr>"
  have room3: "length (status_bytes s3) \<le> status_room s3"
    using assms(7) by (simp add: s3_def length_status_bytes)
  have "controller s = ctl_up Main (s\<lparr>control := []\<rparr>)"
    using assms(1) by (simp add: controller_single ctl_cmd_def)
  also have "\<dots> = trystart Main (announce s3)"
    using assms(2) by (simp add: ctl_up_def Let_def s3_def)
  also have "\<dots> = trystart_fork Main [Some ''./run''] 1 s5"
    using assms(3,4) by (simp add: trystart_main_run s5_def s3_def)
  finally have eq: "controller s = trystart_fork Main [Some ''./run''] 1 s5" .
  have s5: "length (children s5) < nproc_max s5" "0 < nextpid s5" "nextpid s5 = nextpid s"
     "length (status_bytes s5) \<le> status_room s5" "flagstatus (svcmain s5) = svstatus_running"
     "published_main (trace s5) = published_main (trace s) @ [svstatus_starting]"
     "forks (trace s5) = forks (trace s)"
    using assms(5-7) published_main_announce [OF room3]
    by (simp_all add: s5_def s3_def length_status_bytes)
  show ?thesis
    using trystart_fork_published_main [OF s5(1,2,4), of Main "[Some ''./run'']" 1]
          trystart_fork_forks [OF s5(1,2), of Main "[Some ''./run'']" 1] s5(3,5-7)
    by (auto simp: eq)
qed

lemma controller_two:
  assumes "control s = [c1, c2]" and "ctl_cmd c1 Main 1 (s\<lparr>control := [c2]\<rparr>) = (w1, k1, s1)"
  shows "controller s = snd (snd (ctl_cmd c2 w1 k1 (s1\<lparr>control := []\<rparr>)))"
proof -
  have c1: "control s1 = [c2]" using ctl_cmd_control [of c1 Main 1 "s\<lparr>control := [c2]\<rparr>"] assms(2) by simp
  obtain w2 k2 s2 where e: "ctl_cmd c2 w1 k1 (s1\<lparr>control := []\<rparr>) = (w2, k2, s2)"
    by (metis prod_cases3)
  then have "control s2 = []" using ctl_cmd_control [of c2 w1 k1 "s1\<lparr>control := []\<rparr>"] by simp
  then show ?thesis using assms c1 e by (simp add: controller_def controller_loop_Cons)
qed

lemma controller_loop_drains: "control (controller_loop w kg s) = []"
proof (induction w kg s rule: controller_loop.induct)
  case (1 w kg s)
  show ?case
  proof (cases "control s")
    case Nil
    then show ?thesis by simp
  next
    case (Cons ch rest)
    obtain w' kg' s' where e: "ctl_cmd ch w kg (s\<lparr>control := rest\<rparr>) = (w', kg', s')"
      by (metis prod_cases3)
    then show ?thesis using 1 [OF Cons e [symmetric] refl] Cons by (simp add: controller_loop_Cons)
  qed
qed

text \<open>
  C15. With neither \<open>start\<close> nor \<open>run\<close>, the command \<open>u\<close> on a stopped main
  service marks it \<open>started\<close> and clears its persistent want: the \<open>u\<close> is not
  reflected in the published want marker, and nothing is forked.
\<close>

theorem controller_up_without_scripts:
  assumes "control s = ''u''" and "pid (svcmain s) = 0"
    and "stat_isexec (dirents s) ''start'' = 0" and "stat_exists (dirents s) ''run'' = 0"
  shows "\<not> flagwant (svcmain (controller s)) \<and> flagstatus (svcmain (controller s)) = svstatus_started \<and>
         pid (svcmain (controller s)) = 0 \<and> children (controller s) = children s"
  using assms by (simp add: controller_single ctl_cmd_def ctl_up_def trystart_def Let_def)

text \<open>
  C16. The command sequence \<open>L u\<close> starts \<open>./log\<close> even when the service has no
  log service (no \<open>log\<close> script, no log pipe): the log slot is not disabled.
\<close>

theorem controller_log_up_without_log:
  assumes "control s = ''Lu''" and "\<not> haslog s" and "pid (svclog s) = 0"
    and "length (children s) < nproc_max s" and "0 < nextpid s"
  shows "pid (svclog (controller s)) = nextpid s \<and>
         (\<exists>es. forks (trace (controller s)) = forks (trace s) @ (nextpid s, [Some ''./log'']) # es)"
proof -
  define s4 where "s4 = announce (s\<lparr>control := [], svclog := (svclog s)\<lparr>flagwant := True, flagwantup := True,
                                                              flagstatus := svstatus_starting\<rparr>\<rparr>)"
  define s5 where "s5 = s4\<lparr>svclog := (svclog s4)\<lparr>flagstatus := svstatus_running\<rparr>\<rparr>"
  have "ctl_cmd (CHR ''L'') Main 1 (s\<lparr>control := ''u''\<rparr>) = (Log, 1, s\<lparr>control := ''u''\<rparr>)"
    by (simp add: ctl_cmd_def)
  then have "controller s = ctl_up Log (s\<lparr>control := []\<rparr>)"
    using controller_two [of s "CHR ''L''" "CHR ''u''"] assms(1) by (simp add: ctl_cmd_def)
  also have "\<dots> = trystart_fork Log [Some ''./log''] 0 s5"
    using assms(3) by (simp add: ctl_up_def Let_def trystart_def s5_def s4_def)
  finally have eq: "controller s = trystart_fork Log [Some ''./log''] 0 s5" .
  have s5: "length (children s5) < nproc_max s5" "0 < nextpid s5" "nextpid s5 = nextpid s"
     "forks (trace s5) = forks (trace s)"
    using assms(4,5) by (simp_all add: s5_def s4_def)
  obtain es where "forks (trace (trystart_fork Log [Some ''./log''] 0 s5)) =
                     forks (trace s5) @ (nextpid s5, [Some ''./log'']) # es"
    using trystart_fork_forks [OF s5(1,2), of Log "[Some ''./log'']" 0] by blast
  moreover have "pid (svclog (trystart_fork Log [Some ''./log''] 0 s5)) = nextpid s5"
    using trystart_fork_pid [OF s5(1,2), of Log "[Some ''./log'']" 0] by simp
  ultimately show ?thesis using eq s5(3,4) by auto
qed

text \<open>
  C17. The command \<open>d\<close> on an orphaned main service sends no signal at all (the
  default single-process targeting is skipped for an orphan), yet marks the
  service stopping and keeps the pid of the reaped process.
\<close>

theorem controller_down_orphan_no_signal:
  assumes "control s = ''d''" and "pid (svcmain s) \<noteq> 0"
    and "flagstatus (svcmain s) = svstatus_orphanage"
  shows "kills (trace (controller s)) = kills (trace s) \<and>
         flagstatus (svcmain (controller s)) = svstatus_stopping \<and>
         pid (svcmain (controller s)) = pid (svcmain s)"
  using assms by (simp add: controller_single ctl_cmd_def ctl_down_def stopsvc_def Let_def kills_killsvc)

text \<open>
  C18. After the \<open>SIGTERM\<close> handler ran on an empty control FIFO, the next
  controller pass leaves the main service wanted down and the supervisor exiting.
\<close>

theorem controller_after_terminate:
  assumes "control s = []"
  shows "flagexit (controller (terminate s)) \<and> flagwant (svcmain (controller (terminate s))) \<and>
         \<not> flagwantup (svcmain (controller (terminate s))) \<and> control (controller (terminate s)) = []"
proof -
  have c: "control (terminate s) = ''dx''"
    using assms by (simp add: terminate_def control_write_def selfpipe_write_def)
  have "ctl_cmd (CHR ''d'') Main 1 ((terminate s)\<lparr>control := ''x''\<rparr>) =
          (Main, 1, ctl_down Main 1 ((terminate s)\<lparr>control := ''x''\<rparr>))"
    by (simp add: ctl_cmd_def)
  then have "controller (terminate s) =
               announce ((ctl_down Main 1 ((terminate s)\<lparr>control := ''x''\<rparr>))\<lparr>control := [], flagexit := True\<rparr>)"
    using controller_two [OF c] by (simp add: ctl_cmd_def)
  then show ?thesis using ctl_down_wants [of Main 1 "(terminate s)\<lparr>control := ''x''\<rparr>"] by simp
qed

text \<open>
  C19. A controller pass consumes the whole FIFO, and bytes outside the command
  alphabet change nothing else.
\<close>

theorem controller_ignores_unknown:
  assumes "\<forall>ch \<in> set (control s). ch \<notin> set ''+=Lldpuocxahktiq12w''"
  shows "controller s = s\<lparr>control := []\<rparr>"
proof -
  have "\<forall>ch \<in> set cs. ch \<notin> set ''+=Lldpuocxahktiq12w'' \<Longrightarrow> control t = cs \<Longrightarrow>
          controller_loop w kg t = t\<lparr>control := []\<rparr>" for cs t w kg
  proof (induction cs arbitrary: t)
    case Nil
    then show ?case by (cases t) simp
  next
    case (Cons ch rest)
    have "ctl_cmd ch w kg (t\<lparr>control := rest\<rparr>) = (w, kg, t\<lparr>control := rest\<rparr>)"
      using Cons.prems(1) by (auto simp: ctl_cmd_def ctl_signal_def)
    then show ?case using Cons by (simp add: controller_loop_Cons)
  qed
  then show ?thesis using assms by (simp add: controller_def)
qed

text \<open>
  C20. The command \<open>p\<close> on a main service without a process sets its paused flag
  though there is nothing to stop; the status record still publishes
  \<open>paused = false\<close>, since \<open>make_status\<close> masks the flag by the pid.
\<close>

theorem controller_pause_without_pid:
  assumes "control s = ''p''" and "pid (svcmain s) = 0"
    and "length (status_bytes s) \<le> status_room s"
  shows "flagpaused (svcmain (controller s)) \<and> pid (svcmain (controller s)) = 0 \<and>
         kills (trace (controller s)) = kills (trace s) \<and>
         (\<exists>v. decode_status (status_record Main (statusfile (controller s))) = Some v \<and> \<not> sv_paused v)"
proof -
  define s1 where "s1 = announce (s\<lparr>control := [], svcmain := (svcmain s)\<lparr>flagpaused := True\<rparr>\<rparr>)"
  have eq: "controller s = killsvc Main 1 SIGSTOP s1"
    using assms(1) by (simp add: controller_single ctl_cmd_pause s1_def)
  have "published s1"
    using assms(3) unfolding s1_def by (intro announce_published) (simp add: length_status_bytes)
  then have "decode_status (status_record Main (statusfile s1)) = Some (view_of_svc (svcmain s1))"
    using published_decode [of s1 Main] assms(2) by (simp add: s1_def)
  then show ?thesis using assms(2) by (simp add: eq s1_def kills_killsvc view_of_svc_def)
qed

subsection \<open>Signal commands\<close>

lemma ctl_cmd_signal:
  "ctl_signal ch = Some sg \<Longrightarrow> ctl_cmd ch w kg t = (w, kg, killsvc w kg sg t)"
  by (auto simp: ctl_cmd_def ctl_signal_def split: if_splits)

text \<open>
  C27. A signal letter on its own sends its signal to the main service's
  process when it has one and is not orphaned.
\<close>

theorem controller_signal_single:
  assumes "control s = [ch]" and "ctl_signal ch = Some sg"
    and "pid (svcmain s) \<noteq> 0" and "flagstatus (svcmain s) \<noteq> svstatus_orphanage"
  shows "kills (trace (controller s)) = kills (trace s) @ [(pid (svcmain s), sg)]"
  using assms by (simp add: controller_single ctl_cmd_signal kills_killsvc)

text \<open>
  C28. Preceded by \<open>+\<close>, a signal letter sends its signal to the main service's
  process group instead, also when the service is orphaned.
\<close>

theorem controller_signal_group:
  assumes "control s = [CHR ''+'', ch]" and "ctl_signal ch = Some sg" and "pid (svcmain s) \<noteq> 0"
  shows "kills (trace (controller s)) = kills (trace s) @ [(- pid (svcmain s), sg)]"
proof -
  have "ctl_cmd (CHR ''+'') Main 1 (s\<lparr>control := [ch]\<rparr>) = (Main, -1, s\<lparr>control := [ch]\<rparr>)"
    by (simp add: ctl_cmd_def)
  then show ?thesis
    using controller_two [OF assms(1)] assms(2,3) by (simp add: ctl_cmd_signal kills_killsvc)
qed

end
