(* ===== verification/Startup.thy ===== *)
theory Startup
  imports Service
begin

text \<open>
  Start-up, \<open>main\<close> of supervise.c (lines 448--535), up to the call of \<open>doit\<close>.
  Every fatal exit of \<open>main\<close> is a value of \<open>fatal\<close>; \<open>exit_status\<close> is the
  status \<open>strerr_die\<close> exits with. The outcomes of the calls the specification
  puts out of scope (creating the self-pipe and the log pipe, \<open>chdir\<close>, the
  control path, memory for each of the five path names \<open>svpath_make\<close> builds,
  the control directory, the lock, the subreaper attribute, opening the status
  file and the two FIFOs) are the fields of \<open>setup_io\<close>; \<open>main\<close> tests them
  in the order below. Opening the status file with \<open>open_trunc\<close> empties it. The
  directory decisions read the kernel's directory as the rest of the model does.
  The warnings and the status written by \<open>pidchange\<close> before a late fatal exit
  are lost with the process and not returned.
\<close>

datatype fatal =
    Usage | Selfpipe | Chdir | Svpath | Nomem | Mkdir | Lock | Subreaper | Logpipe
  | Orphan_log | Stat_down | Open_status | Read_control | Write_control | Read_ok

datatype mkdir_result = Mkdir_ok | Mkdir_exists | Mkdir_failed

record setup_io =
  io_selfpipe :: bool
  io_chdir :: bool
  io_svpath :: bool
  io_mem_dir :: bool
  io_mkdir :: mkdir_result
  io_mem_lock :: bool
  io_lock :: bool
  io_subreaper :: bool
  io_logpipe :: bool
  io_mem_status :: bool
  io_status :: bool
  io_mem_control :: bool
  io_control_read :: bool
  io_control_write :: bool
  io_mem_ok :: bool
  io_ok :: bool

text \<open>\<open>strerr_die1x(100, ...)\<close> for the usage error, \<open>strerr_die*sys(111, ...)\<close> otherwise.\<close>

definition exit_status :: "fatal \<Rightarrow> nat" where
  "exit_status e = (if e = Usage then 100 else 111)"

text \<open>Lines 486--503: orphanage mode, the log service, the \<open>down\<close> file.\<close>

definition main_dirs :: "setup_io \<Rightarrow> state \<Rightarrow> fatal + state" where
  "main_dirs io s0 =
     (let s1 = (if stat_exists (dirents s0) ''orphanage'' \<noteq> 0 then s0\<lparr>flagorphanage := True\<rparr> else s0)
      in if flagorphanage s1 \<and> \<not> io_subreaper io then Inl Subreaper
         else if stat_isexec (dirents s1) ''log'' > 0 \<and> \<not> io_logpipe io then Inl Logpipe
         else if stat_isexec (dirents s1) ''log'' > 0 \<and> flagorphanage s1 then Inl Orphan_log
         else
           let s2 = (if stat_isexec (dirents s1) ''log'' > 0
                     then s1\<lparr>haslog := True, svclog := (svclog s1)\<lparr>flagwantup := True\<rparr>\<rparr> else s1)
           in case dirents s2 ''down'' of
                StatErr \<Rightarrow> Inl Stat_down
              | Noent \<Rightarrow> Inr s2
              | Stat _ _ \<Rightarrow> Inr (s2\<lparr>svcmain := (svcmain s2)\<lparr>flagwantup := False\<rparr>,
                                   svclog := (svclog s2)\<lparr>flagwantup := False\<rparr>\<rparr>))"

text \<open>Lines 533--534: the first starts.\<close>

definition start_both :: "state \<Rightarrow> state" where
  "start_both s =
     (let s1 = (if \<not> flagwant (svclog s) \<or> flagwantup (svclog s) then trystart Log s else s)
      in if \<not> flagwant (svcmain s1) \<or> flagwantup (svcmain s1) then trystart Main s1 else s1)"

text \<open>
  Lines 506--522: \<open>open_trunc\<close> empties the status file, and \<open>taia_now\<close> stamps
  the log service before the first \<open>pidchange\<close>.
\<close>

definition main_open :: "state \<Rightarrow> state" where
  "main_open s = s\<lparr>statusfile := [], svclog := (svclog s)\<lparr>svc_when := clock s\<rparr>\<rparr>"

text \<open>
  \<open>main\<close> up to \<open>doit()\<close>. The argument vector is the list of the non-null
  entries of \<open>argv\<close>; \<open>!dir || argv[2]\<close> holds unless there are exactly two.
\<close>

definition supervise_main :: "string list \<Rightarrow> setup_io \<Rightarrow> state \<Rightarrow> fatal + state" where
  "supervise_main argv io s0 =
     (if length argv \<noteq> 2 then Inl Usage
      else if \<not> io_selfpipe io then Inl Selfpipe
      else if \<not> io_chdir io then Inl Chdir
      else if \<not> io_svpath io then Inl Svpath
      else if \<not> io_mem_dir io then Inl Nomem
      else if io_mkdir io = Mkdir_failed then Inl Mkdir
      else if \<not> io_mem_lock io then Inl Nomem
      else if \<not> io_lock io then Inl Lock
      else case main_dirs io s0 of
             Inl e \<Rightarrow> Inl e
           | Inr s2 \<Rightarrow>
               if \<not> io_mem_status io then Inl Nomem
               else if \<not> io_status io then Inl Open_status
               else if \<not> io_mem_control io then Inl Nomem
               else if \<not> io_control_read io then Inl Read_control
               else if \<not> io_control_write io then Inl Write_control
               else
                 let s3 = pidchange Main None 0 0 (main_open s2)
                 in if \<not> io_mem_ok io then Inl Nomem
                    else if \<not> io_ok io then Inl Read_ok
                    else Inr (start_both s3))"

text \<open>Every resource \<open>main\<close> needs was obtained.\<close>

definition setup_ok :: "setup_io \<Rightarrow> bool" where
  "setup_ok io \<longleftrightarrow> io_selfpipe io \<and> io_chdir io \<and> io_svpath io \<and> io_mem_dir io \<and>
     io_mkdir io \<noteq> Mkdir_failed \<and> io_mem_lock io \<and> io_lock io \<and> io_mem_status io \<and>
     io_status io \<and> io_mem_control io \<and> io_control_read io \<and> io_control_write io \<and>
     io_mem_ok io \<and> io_ok io"

subsection \<open>Lemmas\<close>

lemma supervise_main_Inr:
  "supervise_main argv io s0 = Inr s \<Longrightarrow>
     \<exists>s2. length argv = 2 \<and> setup_ok io \<and> main_dirs io s0 = Inr s2 \<and>
          s = start_both (pidchange Main None 0 0 (main_open s2))"
  by (auto simp: supervise_main_def setup_ok_def Let_def split: if_splits sum.splits)

lemma main_open_env: "same_env s (main_open s)"
  by (simp add: same_env_def main_open_def)

lemma start_both_env: "same_env s (start_both s)"
  unfolding start_both_def Let_def
  using same_env_trans [OF trystart_env trystart_env] trystart_env by simp

lemma main_dirs_Inr:
  "main_dirs io s0 = Inr s2 \<Longrightarrow>
     nextpid s2 = nextpid s0 \<and> children s2 = children s0 \<and> pid (svcmain s2) = pid (svcmain s0) \<and>
     pid (svclog s2) = pid (svclog s0) \<and> trace s2 = trace s0 \<and> dirents s2 = dirents s0"
  by (auto simp: main_dirs_def Let_def split: if_splits stat_result.splits)

subsection \<open>Fatal errors\<close>

text \<open>
  C23. With \<open>orphanage\<close> present (a \<open>stat\<close> error counting as present) and an
  executable \<open>log\<close>, start-up is fatal once the subreaper attribute and the log
  pipe have been obtained.
\<close>

theorem main_dirs_orphanage_log_fatal:
  assumes "dirents s ''orphanage'' \<noteq> Noent" and "stat_isexec (dirents s) ''log'' > 0"
    and "io_subreaper io" and "io_logpipe io"
  shows "main_dirs io s = Inl Orphan_log \<and> exit_status Orphan_log = 111"
  using assms by (simp add: main_dirs_def stat_exists_def exit_status_def split: stat_result.splits)

text \<open>
  C33. A supervisor that completes start-up was called with exactly one
  argument and holds every resource it needs, in particular the lock of the
  service directory: a second \<open>supervise\<close> on the same directory, which cannot
  take the lock, never gets past start-up.
\<close>

theorem supervise_main_success_holds_lock:
  assumes "supervise_main argv io s0 = Inr s"
  shows "length argv = 2 \<and> setup_ok io \<and> io_lock io"
  using supervise_main_Inr [OF assms] by (simp add: setup_ok_def)

subsection \<open>Successful start-up\<close>

lemma supervise_main_ok:
  assumes "length argv = 2" and "setup_ok io" and "main_dirs io s0 = Inr s2"
  shows "supervise_main argv io s0 =
           Inr (start_both (pidchange Main None 0 0 (main_open s2)))"
  using assms by (simp add: supervise_main_def setup_ok_def)

text \<open>
  C24. With \<open>down\<close> present (and neither \<open>orphanage\<close> nor \<open>log\<close>), start-up
  succeeds, wants the main service down and forks nothing.
\<close>

theorem supervise_main_down_starts_nothing:
  assumes "length argv = 2" and "setup_ok io"
    and "dirents k ''down'' = Stat x y" and "dirents k ''orphanage'' = Noent"
    and "stat_isexec (dirents k) ''log'' \<le> 0"
  shows "\<exists>s. supervise_main argv io (init_state k) = Inr s \<and> flagwant (svcmain s) \<and>
             \<not> flagwantup (svcmain s) \<and> \<not> flagwantup (svclog s) \<and> children s = children k \<and>
             forks (trace s) = forks (trace k) \<and> flagstatus (svcmain s) = svstatus_stopped"
proof -
  define s2 where "s2 = (init_state k)\<lparr>svcmain := svcmain_init\<lparr>flagwantup := False\<rparr>,
                                         svclog := svclog_init\<lparr>flagwantup := False\<rparr>\<rparr>"
  have d: "main_dirs io (init_state k) = Inr s2"
    using assms(3-5) by (simp add: main_dirs_def stat_exists_def s2_def Let_def)
  have "trace (init_state k) = trace k" by (simp add: init_state_def)
  then show ?thesis
    using supervise_main_ok [OF assms(1,2) d]
    by (simp add: start_both_def pidchange_def s2_def svcmain_init_def svclog_init_def main_open_def Let_def)
qed

text \<open>
  C34. In a directory with \<open>run\<close> and without \<open>start\<close>, \<open>down\<close>, \<open>log\<close> and
  \<open>orphanage\<close>, start-up publishes the main service stopped, then forks
  \<open>./run\<close> as its first child and publishes it running with that pid.
\<close>

theorem supervise_main_starts_run:
  assumes "length argv = 2" and "setup_ok io"
    and "dirents k ''orphanage'' = Noent" and "stat_isexec (dirents k) ''log'' \<le> 0"
    and "dirents k ''down'' = Noent" and "stat_isexec (dirents k) ''start'' = 0"
    and "stat_exists (dirents k) ''run'' \<noteq> 0"
    and "length (children k) < nproc_max k" and "0 < nextpid k" and "20 \<le> status_room k"
  shows "\<exists>s es. supervise_main argv io (init_state k) = Inr s \<and>
           published_main (trace s) = published_main (trace k) @ [svstatus_stopped, svstatus_running] \<and>
           flagstatus (svcmain s) = svstatus_running \<and> pid (svcmain s) = nextpid k \<and>
           forks (trace s) = forks (trace k) @ (nextpid k, [Some ''./run'']) # es"
proof -
  have d: "main_dirs io (init_state k) = Inr (init_state k)"
    using assms(3-5) by (simp add: main_dirs_def stat_exists_def Let_def)
  define s3 where "s3 = pidchange Main None 0 0 (main_open (init_state k))"
  have room: "length (status_bytes (main_open (init_state k))) \<le> status_room (main_open (init_state k))"
    using assms(10) by (simp add: length_status_bytes init_state_def main_open_def)
  have s3: "published_main (trace s3) = published_main (trace k) @ [svstatus_stopped]"
     "forks (trace s3) = forks (trace k)" "firstrun s3" "flagwant (svcmain s3)" "flagwantup (svcmain s3)"
     "\<not> flagwantup (svclog s3)" "flagwant (svclog s3)" "pid (svcmain s3) = 0"
     "length (children s3) < nproc_max s3" "0 < nextpid s3" "nextpid s3 = nextpid k"
     "length (status_bytes s3) \<le> status_room s3" "dirents s3 = dirents k"
    using published_main_pidchange [OF room, of Main None 0 0] assms(8-10)
    by (simp_all add: s3_def pidchange_def Let_def svcmain_init_def svclog_init_def init_state_def
                      length_status_bytes main_open_def)
  define s5 where "s5 = s3\<lparr>firstrun := False, runscript := Some ''./run'',
                          svcmain := (svcmain s3)\<lparr>flagstatus := svstatus_running\<rparr>\<rparr>"
  have "start_both s3 = trystart Main s3"
    using s3(4-7) by (simp add: start_both_def)
  also have "\<dots> = trystart_fork Main [Some ''./run''] 1 s5"
    using assms(6,7) s3(13) by (simp add: trystart_main_run s5_def)
  finally have eq: "start_both s3 = trystart_fork Main [Some ''./run''] 1 s5" .
  have s5: "length (children s5) < nproc_max s5" "0 < nextpid s5" "length (status_bytes s5) \<le> status_room s5"
    "flagstatus (svcmain s5) = svstatus_running" "nextpid s5 = nextpid k"
    "published_main (trace s5) = published_main (trace k) @ [svstatus_stopped]"
    "forks (trace s5) = forks (trace k)"
    using s3 by (simp_all add: s5_def length_status_bytes)
  obtain es where "forks (trace (trystart_fork Main [Some ''./run''] 1 s5)) =
                     forks (trace s5) @ (nextpid s5, [Some ''./run'']) # es"
    using trystart_fork_forks [OF s5(1,2), of Main "[Some ''./run'']" 1] by blast
  then show ?thesis
    using supervise_main_ok [OF assms(1,2) d] trystart_fork_published_main [OF s5(1-3), of Main "[Some ''./run'']" 1]
      s5(4-7) eq
    by (auto simp: s3_def)
qed

end
