(* ===== verification/Event_Loop.thy ===== *)
theory Event_Loop
  imports Reaper Controller Startup
begin

text \<open>
  The event loop \<open>doit\<close> (supervise.c lines 398--446) and the system it runs in,
  started by \<open>main\<close> (theory \<open>Startup\<close>). One iteration of \<open>doit\<close>,
  after \<open>iopause\<close> returns, drains the self-pipe, runs the reaper, kills both
  process groups and sets \<open>flagexit\<close> when the control FIFO has been unlinked, runs
  the controller, and starts stopping the log service once exiting with the main
  service stopped. The loop ends when \<open>flagexit\<close> is set and neither service has a
  pid. Everything asynchronous happens while the loop is parked in \<open>iopause\<close>:
  children exit (and \<open>SIGCHLD\<close> writes the self-pipe), clients write commands to
  the FIFO, \<open>SIGTERM\<close>/\<open>SIGINT\<close>/\<open>SIGTSTP\<close>/\<open>SIGCONT\<close> run their handlers, the
  FIFO is unlinked, the clock advances, and, in orphanage mode, orphaned
  descendants are reparented to the supervisor. \<open>sys_step\<close> interleaves these
  environment steps with iterations of the loop.
\<close>

subsection \<open>One iteration of doit\<close>

definition doit_done :: "state \<Rightarrow> bool" where
  "doit_done s \<longleftrightarrow> flagexit s \<and> pid (svcmain s) = 0 \<and> pid (svclog s) = 0"

definition kill_on_unlink :: "state \<Rightarrow> state" where
  "kill_on_unlink s =
     (if control_nlink s = 0 then
        let s1 = (if pid (svcmain s) \<noteq> 0 then sys_kill (- pid (svcmain s)) SIGKILL s else s);
            s2 = (if pid (svclog s1) \<noteq> 0 then sys_kill (- pid (svclog s1)) SIGKILL s1 else s1)
        in s2\<lparr>flagexit := True\<rparr>
      else s)"

definition stop_log_on_exit :: "state \<Rightarrow> state" where
  "stop_log_on_exit s =
     (if flagexit s \<and> flagstatus (svcmain s) = svstatus_stopped
         \<and> (flagstatus (svclog s) = svstatus_running \<or> flagstatus (svclog s) = svstatus_started)
      then stopsvc Log 1 s else s)"

definition doit_iter :: "state \<Rightarrow> state option" where
  "doit_iter s =
     (case reaper_loop (s\<lparr>selfpipe := 0\<rparr>) of
        None \<Rightarrow> None
      | Some s2 \<Rightarrow> Some (stop_log_on_exit (controller (kill_on_unlink s2))))"

subsection \<open>The system: environment steps and loop iterations\<close>

inductive env_step :: "state \<Rightarrow> state \<Rightarrow> bool" where
  child_exit: "i < length (children s) \<Longrightarrow> cexit (children s ! i) = None \<Longrightarrow>
     env_step s (trigger (s\<lparr>children := (children s)[i := (children s ! i)\<lparr>cexit := Some ws\<rparr>]\<rparr>))"
| client_write: "env_step s (control_write bs s)"
| sig_terminate: "env_step s (terminate s)"
| sig_ttystop: "env_step s (ttystop s)"
| sig_resume: "env_step s (resume s)"
| unlink_control: "env_step s (s\<lparr>control_nlink := 0\<rparr>)"
| clock_tick: "env_step s (s\<lparr>clock := t\<rparr>)"
| adopt_orphan: "flagorphanage s \<Longrightarrow>
     env_step s (s\<lparr>children := children s @ [\<lparr>cpid = nextpid s, cpgid = g, cargv = [],
                                             credir = None, cexit = None\<rparr>],
                   nextpid := nextpid s + 1\<rparr>)"

inductive sys_step :: "state \<Rightarrow> state \<Rightarrow> bool" where
  env: "env_step s s' \<Longrightarrow> sys_step s s'"
| iter: "\<not> doit_done s \<Longrightarrow> doit_iter s = Some s' \<Longrightarrow> sys_step s s'"

inductive reachable :: "state \<Rightarrow> bool" where
  start: "kernel_ok k \<Longrightarrow> supervise_main argv io (init_state k) = Inr s \<Longrightarrow> reachable (announce s)"
| step: "reachable s \<Longrightarrow> sys_step s s' \<Longrightarrow> reachable s'"

inductive_cases env_stepE: "env_step s s'"
inductive_cases sys_stepE: "sys_step s s'"

end
