(* ===== verification/Invariant.thy ===== *)
theory Invariant
  imports Event_Loop
begin

text \<open>
  An invariant of every reachable state of the supervisor and its environment:
  the pid allocator is positive, every child and every service pid lies below it,
  children have positive pids, service pids are non-negative, and the main and
  log services never hold the same pid. Each operation of the supervisor and each
  environment step preserves it; the proofs go operation by operation in the
  order the code composes them. A consequence is that the event loop's iteration
  always returns: the reaper only spins when the main pid is \<open>-1\<close>.
\<close>

definition pids_ok :: "pid_t \<Rightarrow> pid_t \<Rightarrow> pid_t \<Rightarrow> child list \<Rightarrow> bool" where
  "pids_ok n pm pl cs \<longleftrightarrow>
     0 < n \<and> 0 \<le> pm \<and> pm < n \<and> 0 \<le> pl \<and> pl < n \<and> (pm \<noteq> 0 \<and> pl \<noteq> 0 \<longrightarrow> pm \<noteq> pl) \<and>
     (\<forall>c \<in> set cs. 0 < cpid c \<and> cpid c < n)"

definition pid_inv :: "state \<Rightarrow> bool" where
  "pid_inv s \<longleftrightarrow> pids_ok (nextpid s) (pid (svcmain s)) (pid (svclog s)) (children s)"

definition step_state :: "'a loop_step \<Rightarrow> 'a" where
  "step_state x = (case x of Continue t \<Rightarrow> t | Break t \<Rightarrow> t)"

named_theorems inv_frame

lemma pid_inv_frame [inv_frame]:
  "pid_inv (announce s) = pid_inv s" "pid_inv (deepsleep n s) = pid_inv s"
  "pid_inv (killsvc w g sg s) = pid_inv s" "pid_inv (s\<lparr>firstrun := b\<rparr>) = pid_inv s"
  "pid_inv (s\<lparr>flagexit := b\<rparr>) = pid_inv s" "pid_inv (s\<lparr>runscript := r\<rparr>) = pid_inv s"
  "pid_inv (s\<lparr>control := cs\<rparr>) = pid_inv s" "pid_inv (s\<lparr>selfpipe := m\<rparr>) = pid_inv s"
  "pid_inv (s\<lparr>control_nlink := m\<rparr>) = pid_inv s" "pid_inv (s\<lparr>clock := t\<rparr>) = pid_inv s"
  "pid_inv (s\<lparr>wstat_slot := ws\<rparr>) = pid_inv s" "pid_inv (sys_kill tg sg s) = pid_inv s"
  "pid_inv (trigger s) = pid_inv s" "pid_inv (control_write bs s) = pid_inv s"
  "pid_inv (selfpipe_write s) = pid_inv s"
  by (simp_all add: pid_inv_def sys_kill_def trigger_def selfpipe_write_def control_write_def)

lemma pid_inv_upd_svc [inv_frame]:
  "pid (f (svc_of w s)) = pid (svc_of w s) \<Longrightarrow> pid_inv (upd_svc w f s) = pid_inv s"
  by (cases w) (simp_all add: pid_inv_def)

lemma pid_inv_upd_main [inv_frame]:
  "pid v = pid (svcmain s) \<Longrightarrow> pid_inv (s\<lparr>svcmain := v\<rparr>) = pid_inv s"
  "pid v = pid (svclog s) \<Longrightarrow> pid_inv (s\<lparr>svclog := v\<rparr>) = pid_inv s"
  by (simp_all add: pid_inv_def)

lemma pid_inv_clear_pid:
  "pid_inv s \<Longrightarrow> pid_inv (upd_svc w (\<lambda>v. v\<lparr>pid := 0\<rparr>) s)"
  by (cases w) (auto simp: pid_inv_def pids_ok_def)

lemma pid_inv_forkexecve:
  "pid_inv s \<Longrightarrow> pid_inv (snd (forkexecve svc argv fd s))"
proof -
  assume i: "pid_inv s"
  show ?thesis
  proof (cases "nproc_max s \<le> length (children s)")
    case True
    then show ?thesis using i by (simp add: forkexecve_fail pid_inv_def)
  next
    case False
    have "nextpid s \<noteq> -1" using i by (simp add: pid_inv_def pids_ok_def)
    then show ?thesis using i False forkexecve_ok [of s svc argv fd]
      by (cases svc; cases "the svc")
         (auto simp: pid_inv_def pids_ok_def forked_def new_child_def)
  qed
qed

lemma pid_inv_notify: "pid_inv s \<Longrightarrow> pid_inv (notify w n c p s)"
  unfolding notify_def by (rule pid_inv_forkexecve)

lemma pid_inv_pidchange: "pid_inv s \<Longrightarrow> pid_inv (pidchange w n c p s)"
  by (simp add: pidchange_def Let_def inv_frame pid_inv_notify split: option.splits)

lemma pid_inv_trystart_fork: "pid_inv s \<Longrightarrow> pid_inv (trystart_fork w argv fd s)"
  using pid_inv_forkexecve [of s "Some w" argv fd]
  by (auto simp: trystart_fork_def inv_frame pid_inv_pidchange split: prod.splits)

lemma pid_inv_trystart: "pid_inv s \<Longrightarrow> pid_inv (trystart w s)"
  by (simp add: trystart_def Let_def inv_frame pid_inv_trystart_fork)

lemma pid_inv_trystop: "pid_inv s \<Longrightarrow> pid_inv (trystop w s)"
  using pid_inv_forkexecve [of "s\<lparr>runscript := Some ''./stop''\<rparr>" "Some w" "[Some ''./stop'']" 1]
  by (auto simp: trystop_def inv_frame pid_inv_pidchange split: prod.splits)

lemma pid_inv_stopsvc: "pid_inv s \<Longrightarrow> pid_inv (stopsvc w g s)"
  by (simp add: stopsvc_def inv_frame)

lemma waitpid_slot_children:
  "waitpid_slot t s = (r, s') \<Longrightarrow> set (children s') \<subseteq> set (children s)"
  by (auto simp: waitpid_slot_def sys_waitpid_def Let_def dest!: take_zombie_Some
           split: option.splits prod.splits wait_result.splits if_splits)

lemma pid_inv_waitpid_slot:
  assumes "waitpid_slot t s = (r, s')" and "pid_inv s"
  shows "pid_inv s'"
proof -
  have "s' = s\<lparr>children := children s', wstat_slot := wstat_slot s'\<rparr>"
    using waitpid_slot_frame [OF assms(1)] .
  then have "nextpid s' = nextpid s" "svcmain s' = svcmain s" "svclog s' = svclog s"
    by (metis supervisor.select_convs(1-2) kernel.select_convs(2) supervisor.surjective
              supervisor.update_convs(8) kernel.update_convs(1))+
  then show ?thesis using assms(2) waitpid_slot_children [OF assms(1)]
    by (auto simp: pid_inv_def pids_ok_def)
qed

lemma pid_inv_reaper_exit: "pid_inv s \<Longrightarrow> pid_inv (reaper_exit w p s)"
proof -
  assume i: "pid_inv s"
  define ws where "ws = wstat_slot s"
  define crashed where "crashed = (wait_crashed ws \<noteq> 0)"
  define s1 where "s1 = upd_svc w (\<lambda>v. v\<lparr>pid := 0\<rparr>) s"
  define s2 where "s2 = (if (w = Main \<and> flagstatus (svc_of w s1) = svstatus_starting \<and>
                              (crashed \<or> wait_exitcode ws \<noteq> 0))
                           \<or> (\<not> crashed \<and> wait_exitcode ws = 100)
                then upd_svc w (\<lambda>v. v\<lparr>flagwantup := False, flagstatus := svstatus_failed\<rparr>) s1
                else if w = Main \<and> flagstatus (svc_of w s1) = svstatus_starting then s1
                else if \<not> flagwant (svc_of w s1) \<or> \<not> flagwantup (svc_of w s1)
                then upd_svc w (\<lambda>v. v\<lparr>flagstatus := svstatus_stopped\<rparr>) s1
                else s1)"
  define s4 where "s4 = (pidchange w (Some (if crashed then ''killed'' else ''exit''))
                 (int (if crashed then wait_stopsig ws else wait_exitcode ws)) p s2)\<lparr>firstrun := False\<rparr>"
  have i1: "pid_inv s1" using pid_inv_clear_pid [OF i] by (simp add: s1_def)
  then have "pid_inv s2" by (simp add: s2_def inv_frame)
  then have i4: "pid_inv s4" by (simp add: s4_def inv_frame pid_inv_pidchange)
  have "reaper_exit w p s = (if (flagwant (svc_of w s4) \<and> flagwantup (svc_of w s4)) \<or>
                                 (w = Main \<and> flagstatus (svc_of w s4) = svstatus_starting)
                              then (if \<not> flagexit s4 then trystart w s4 else s4)
                              else if flagstatus (svc_of w s4) \<noteq> svstatus_failed then trystop w s4
                              else s4)"
    unfolding reaper_exit_def Let_def s4_def s2_def s1_def crashed_def ws_def by (rule refl)
  then show ?thesis using i4 by (simp add: pid_inv_trystart pid_inv_trystop)
qed

lemma pid_inv_reaper_step: "pid_inv s \<Longrightarrow> pid_inv (step_state (reaper_step s))"
proof -
  assume i: "pid_inv s"
  obtain r0 s0 where w0: "(if flagstatus (svcmain s) = svstatus_orphanage
                      then waitpid_slot (- pid (svcmain s)) s else (WNone, s)) = (r0, s0)"
    by (metis surj_pair)
  have i0: "pid_inv s0" using w0 i by (auto split: if_splits intro: pid_inv_waitpid_slot)
  obtain r s1 where w1: "(if wait_ret r0 = 0 then waitpid_slot (-1) s0 else (r0, s0)) = (r, s1)"
    by (metis surj_pair)
  have i1: "pid_inv s1" using w1 i0 by (auto split: if_splits intro: pid_inv_waitpid_slot)
  have "reaper_step s =
          (if wait_ret r0 > 0 then Continue s0
           else let p = wait_ret r
           in if p = 0 then Break s1
              else if flagorphanage s1 \<and> p = pid (svcmain s1)
              then Continue (announce (s1\<lparr>svcmain := (svcmain s1)\<lparr>flagstatus := svstatus_orphanage\<rparr>\<rparr>))
              else if p = pid (svcmain s1) \<or> (p = -1 \<and> r = WErr ECHILD)
              then Break (reaper_exit Main p s1)
              else if p = pid (svclog s1) then Break (reaper_exit Log p s1)
              else if p = -1 \<and> r \<noteq> WErr EINTR then Break s1
              else Continue s1)"
    using w0 w1 by (simp add: reaper_step_def)
  then show ?thesis using i0 i1
    by (simp add: step_state_def Let_def inv_frame pid_inv_reaper_exit)
qed

lemma pid_inv_reaper_loop:
  "pid_inv s \<Longrightarrow> reaper_loop s = Some s' \<Longrightarrow> pid_inv s'"
proof (induction "zombies (children s)" arbitrary: s rule: less_induct)
  case less
  have ne: "pid (svcmain s) \<noteq> -1" using less.prems(1) by (auto simp: pid_inv_def pids_ok_def)
  have st: "pid_inv (step_state (reaper_step s))" by (rule pid_inv_reaper_step [OF less.prems(1)])
  show ?case
  proof (cases "reaper_step s")
    case (Continue t)
    then have "zombies (children t) < zombies (children s)" "reaper_loop t = Some s'"
      using reaper_step_continue [OF Continue ne] less.prems(2)
      by (simp_all add: reaper_loop.simps [of s])
    then show ?thesis using less.hyps st Continue by (simp add: step_state_def)
  next
    case (Break t)
    then show ?thesis using less.prems(2) st by (simp add: reaper_loop.simps [of s] step_state_def)
  qed
qed

lemma pid_inv_ctl_cmd: "pid_inv s \<Longrightarrow> pid_inv (snd (snd (ctl_cmd ch w kg s)))"
proof -
  assume i: "pid_inv s"
  have d: "pid_inv (ctl_down w kg s)"
    using i by (simp add: ctl_down_def Let_def inv_frame pid_inv_stopsvc pid_inv_trystop)
  have u: "pid_inv (ctl_up w s)"
    using i by (simp add: ctl_up_def Let_def inv_frame pid_inv_trystart)
  have o: "pid_inv (ctl_once w s)"
    using i by (simp add: ctl_once_def Let_def inv_frame pid_inv_trystart)
  show ?thesis
    using i d u o by (simp add: ctl_cmd_def inv_frame split: option.splits)
qed

lemma pid_inv_controller_loop: "pid_inv s \<Longrightarrow> pid_inv (controller_loop w kg s)"
  by (rule controller_loop_preserves [where I = pid_inv]) (simp_all add: pid_inv_ctl_cmd inv_frame)

lemma pid_inv_doit_iter: "pid_inv s \<Longrightarrow> doit_iter s = Some s' \<Longrightarrow> pid_inv s'"
proof -
  assume i: "pid_inv s" and d: "doit_iter s = Some s'"
  then obtain s2 where r: "reaper_loop (s\<lparr>selfpipe := 0\<rparr>) = Some s2"
      and s': "s' = stop_log_on_exit (controller (kill_on_unlink s2))"
    by (auto simp: doit_iter_def split: option.splits)
  have "pid_inv s2" using pid_inv_reaper_loop [OF _ r] i by (simp add: inv_frame)
  then have "pid_inv (kill_on_unlink s2)" by (simp add: kill_on_unlink_def Let_def inv_frame)
  then have "pid_inv (controller (kill_on_unlink s2))"
    by (simp add: controller_def pid_inv_controller_loop)
  then show ?thesis by (simp add: s' stop_log_on_exit_def pid_inv_stopsvc)
qed

lemma pid_inv_env_step: "env_step s s' \<Longrightarrow> pid_inv s \<Longrightarrow> pid_inv s'"
proof (induction rule: env_step.induct)
  case (child_exit i s ws)
  then show ?case
    by (auto simp: pid_inv_def pids_ok_def trigger_def selfpipe_write_def set_update_subset_insert
             dest!: subsetD [OF set_update_subset_insert])
next
  case (adopt_orphan s g)
  then show ?case by (auto simp: pid_inv_def pids_ok_def)
qed (simp_all add: inv_frame terminate_def ttystop_def resume_def)

lemma pid_inv_supervise_main:
  assumes "kernel_ok k" and "supervise_main argv io (init_state k) = Inr s"
  shows "pid_inv s"
proof -
  obtain s2 where d: "main_dirs io (init_state k) = Inr s2"
    and s: "s = start_both (pidchange Main None 0 0 (main_open s2))"
    using supervise_main_Inr [OF assms(2)] by blast
  have "pid_inv (init_state k)"
    using assms(1) by (simp add: pid_inv_def pids_ok_def kernel_ok_def init_state_def svcmain_init_def
                                 svclog_init_def)
  then have "pid_inv s2"
    using main_dirs_Inr [OF d] by (simp add: pid_inv_def)
  then have "pid_inv (main_open s2)" by (simp add: pid_inv_def main_open_def)
  then have "pid_inv (pidchange Main None 0 0 (main_open s2))" by (rule pid_inv_pidchange)
  then show ?thesis by (simp add: s start_both_def Let_def pid_inv_trystart)
qed

lemma pid_inv_reachable: "reachable s \<Longrightarrow> pid_inv s"
proof (induction rule: reachable.induct)
  case (start k s)
  then show ?case by (simp add: inv_frame pid_inv_supervise_main)
next
  case (step s s')
  then show ?case by (auto elim!: sys_stepE intro: pid_inv_env_step pid_inv_doit_iter)
qed

subsection \<open>Properties of every reachable state\<close>

text \<open>
  C25. In every reachable state the service pids are non-negative and below the
  allocator, the main and log services never hold the same process, and every
  child has a positive pid below the allocator.
\<close>

theorem reachable_pids:
  assumes "reachable s"
  shows "0 \<le> pid (svcmain s) \<and> pid (svcmain s) < nextpid s \<and>
         0 \<le> pid (svclog s) \<and> pid (svclog s) < nextpid s \<and>
         (pid (svcmain s) \<noteq> 0 \<and> pid (svclog s) \<noteq> 0 \<longrightarrow> pid (svcmain s) \<noteq> pid (svclog s)) \<and>
         (\<forall>c \<in> set (children s). 0 < cpid c \<and> cpid c < nextpid s)"
  using pid_inv_reachable [OF assms] by (simp add: pid_inv_def pids_ok_def)

text \<open>
  C26. From every reachable state, an iteration of the event loop returns: the
  reaper's loop ends, since the main pid is never \<open>-1\<close>, and the rest of the
  iteration is total.
\<close>

theorem reachable_iteration_returns:
  assumes "reachable s"
  shows "\<exists>s'. doit_iter s = Some s'"
proof -
  have "pid (svcmain (s\<lparr>selfpipe := 0\<rparr>)) \<noteq> -1"
    using pid_inv_reachable [OF assms] by (auto simp: pid_inv_def pids_ok_def)
  then obtain s2 where "reaper_loop (s\<lparr>selfpipe := 0\<rparr>) = Some s2"
    using reaper_loop_defined by blast
  then show ?thesis by (simp add: doit_iter_def)
qed

end
