(* ===== verification/Ownership.thy ===== *)
theory Ownership
  imports Invariant
begin

text \<open>
  The specification's invariant of a service slot, ``\<open>pid\<close> is non-empty only
  while a live child is attributed to the slot'', in the form the code keeps it
  outside orphanage mode: every non-zero service pid is the pid of a child the
  kernel still holds for the supervisor (running, or exited and not yet reaped),
  and the main service is never marked orphaned. In orphanage mode the code keeps
  the pid of the reaped main process on purpose (to drain its process group), so
  the invariant is stated for \<open>\<not> flagorphanage\<close>. The proofs follow those of
  \<open>pid_inv\<close>; the reaper needs \<open>pid_inv\<close> as well, since the child it reaps is
  attributed to at most one service.
\<close>

definition owns_ok :: "bool \<Rightarrow> svstatus \<Rightarrow> pid_t \<Rightarrow> pid_t \<Rightarrow> child list \<Rightarrow> bool" where
  "owns_ok orph st pm pl cs \<longleftrightarrow>
     \<not> orph \<longrightarrow> st \<noteq> svstatus_orphanage \<and>
                (pm \<noteq> 0 \<longrightarrow> pm \<in> cpid ` set cs) \<and> (pl \<noteq> 0 \<longrightarrow> pl \<in> cpid ` set cs)"

definition own_inv :: "state \<Rightarrow> bool" where
  "own_inv s \<longleftrightarrow>
     owns_ok (flagorphanage s) (flagstatus (svcmain s)) (pid (svcmain s)) (pid (svclog s)) (children s)"

named_theorems own_frame

lemma own_inv_frame [own_frame]:
  "own_inv (announce s) = own_inv s" "own_inv (deepsleep n s) = own_inv s"
  "own_inv (killsvc w g sg s) = own_inv s" "own_inv (s\<lparr>firstrun := b\<rparr>) = own_inv s"
  "own_inv (s\<lparr>flagexit := b\<rparr>) = own_inv s" "own_inv (s\<lparr>runscript := r\<rparr>) = own_inv s"
  "own_inv (s\<lparr>control := cs\<rparr>) = own_inv s" "own_inv (s\<lparr>selfpipe := m\<rparr>) = own_inv s"
  "own_inv (s\<lparr>control_nlink := m\<rparr>) = own_inv s" "own_inv (s\<lparr>clock := t\<rparr>) = own_inv s"
  "own_inv (s\<lparr>wstat_slot := ws\<rparr>) = own_inv s" "own_inv (sys_kill tg sg s) = own_inv s"
  "own_inv (trigger s) = own_inv s" "own_inv (control_write bs s) = own_inv s"
  "own_inv (selfpipe_write s) = own_inv s"
  by (simp_all add: own_inv_def sys_kill_def trigger_def selfpipe_write_def control_write_def)

text \<open>Updates of a service that keep its pid and do not mark the main service orphaned.\<close>

lemma own_inv_upd_svc [own_frame]:
  "(\<And>v. pid (f v) = pid v) \<Longrightarrow> (\<And>v. flagstatus (f v) = flagstatus v) \<Longrightarrow>
     own_inv (upd_svc w f s) = own_inv s"
  by (cases w) (simp_all add: own_inv_def)

lemma own_inv_set_status:
  "st \<noteq> svstatus_orphanage \<Longrightarrow> (\<And>v. pid (f v) = pid v) \<Longrightarrow> own_inv s \<Longrightarrow>
     own_inv (upd_svc w (\<lambda>v. (f v)\<lparr>flagstatus := st\<rparr>) s)"
  by (cases w) (auto simp: own_inv_def owns_ok_def)

lemma own_inv_upd_main [own_frame]:
  "pid v = pid (svcmain s) \<Longrightarrow> flagstatus v = flagstatus (svcmain s) \<Longrightarrow>
     own_inv (s\<lparr>svcmain := v\<rparr>) = own_inv s"
  "pid v = pid (svclog s) \<Longrightarrow> own_inv (s\<lparr>svclog := v\<rparr>) = own_inv s"
  by (simp_all add: own_inv_def)

lemma own_inv_clear_pid:
  "own_inv (upd_svc w (\<lambda>v. v\<lparr>pid := 0\<rparr>) s) \<longleftrightarrow>
     owns_ok (flagorphanage s) (flagstatus (svcmain s)) (if w = Main then 0 else pid (svcmain s))
       (if w = Log then 0 else pid (svclog s)) (children s)"
  by (cases w) (simp_all add: own_inv_def)

lemma own_inv_forkexecve: "own_inv s \<Longrightarrow> own_inv (snd (forkexecve svc argv fd s))"
proof -
  assume i: "own_inv s"
  show ?thesis
  proof (cases "nproc_max s \<le> length (children s)")
    case True
    then show ?thesis using i by (simp add: forkexecve_fail own_inv_def)
  next
    case False
    show ?thesis
    proof (cases "nextpid s = -1")
      case True
      then show ?thesis using i False
        by (auto simp: forkexecve_def sys_fork_def trigger_def deepsleep_def strerr_warn_def
                       selfpipe_write_def Let_def own_inv_def owns_ok_def)
    next
      case ne: False
      then show ?thesis using i False forkexecve_ok [of s svc argv fd]
        by (cases svc; cases "the svc") (auto simp: own_inv_def owns_ok_def forked_def new_child_def)
    qed
  qed
qed

lemma own_inv_notify: "own_inv s \<Longrightarrow> own_inv (notify w n c p s)"
  unfolding notify_def by (rule own_inv_forkexecve)

lemma own_inv_pidchange: "own_inv s \<Longrightarrow> own_inv (pidchange w n c p s)"
proof -
  assume i: "own_inv s"
  define s1 where "s1 = upd_svc w (\<lambda>v. v\<lparr>svc_when := clock s\<rparr>) s"
  have i1: "own_inv s1" using i by (simp add: s1_def own_frame)
  have "pidchange w n c p s =
          announce (case n of Some m \<Rightarrow> if stat_isexec (dirents s1) ''notify'' > 0
                                       then notify w m c p s1 else s1 | None \<Rightarrow> s1)"
    unfolding pidchange_def s1_def Let_def by (rule refl)
  then show ?thesis using i1 by (simp add: own_frame own_inv_notify split: option.splits)
qed

lemma own_inv_trystart_fork: "own_inv s \<Longrightarrow> own_inv (trystart_fork w argv fd s)"
  using own_inv_forkexecve [of s "Some w" argv fd]
  by (auto simp: trystart_fork_def own_frame own_inv_pidchange split: prod.splits)

lemma own_inv_trystart: "own_inv s \<Longrightarrow> own_inv (trystart w s)"
proof -
  assume i: "own_inv s"
  let ?s1 = "if firstrun s \<and> stat_isexec (dirents s) ''start'' = 0 then s\<lparr>firstrun := False\<rparr> else s"
  have i1: "own_inv ?s1" using i by (simp add: own_frame)
  have "own_inv (?s1\<lparr>svcmain := (svcmain ?s1)\<lparr>flagwant := False, flagstatus := svstatus_started\<rparr>\<rparr>)"
    using i1 by (auto simp: own_inv_def owns_ok_def)
  moreover have "own_inv (?s1\<lparr>runscript := Some sc, svcmain := (svcmain ?s1)\<lparr>flagstatus := st\<rparr>\<rparr>)"
    if "st \<noteq> svstatus_orphanage" for sc st
    using i1 that by (auto simp: own_inv_def owns_ok_def)
  moreover have "own_inv (s\<lparr>svclog := (svclog s)\<lparr>flagstatus := svstatus_running\<rparr>\<rparr>)"
    using i by (auto simp: own_inv_def owns_ok_def)
  ultimately show ?thesis
    by (simp add: trystart_def Let_def own_frame own_inv_trystart_fork)
qed

lemma own_inv_trystop: "own_inv s \<Longrightarrow> own_inv (trystop w s)"
proof -
  assume i: "own_inv s"
  show ?thesis
  proof (cases "ranstop (svc_of w s) \<or> w \<noteq> Main \<or> stat_isexec (dirents s) ''stop'' \<noteq> 1")
    case True
    have "own_inv (upd_svc w (\<lambda>v. v\<lparr>ranstop := True, flagstatus := svstatus_stopped\<rparr>) s)"
      using own_inv_set_status [OF _ _ i, of svstatus_stopped "\<lambda>v. v\<lparr>ranstop := True\<rparr>" w] by simp
    then show ?thesis using True by (simp add: trystop_def own_frame)
  next
    case False
    then have w: "w = Main" by simp
    obtain f s2 where fe: "forkexecve (Some Main) [Some ''./stop''] 1 (s\<lparr>runscript := Some ''./stop''\<rparr>) = (f, s2)"
      by (metis surj_pair)
    have "own_inv s2"
      using own_inv_forkexecve [of "s\<lparr>runscript := Some ''./stop''\<rparr>" "Some Main" "[Some ''./stop'']" 1] i fe
      by (simp add: own_frame)
    then have "own_inv (upd_svc Main (\<lambda>v. v\<lparr>ranstop := True\<rparr>) s2)" by (simp add: own_frame)
    then show ?thesis using False fe w by (simp add: trystop_def own_frame own_inv_pidchange)
  qed
qed

lemma own_inv_stopsvc: "own_inv s \<Longrightarrow> own_inv (stopsvc w g s)"
  by (cases w) (auto simp: stopsvc_def own_inv_def owns_ok_def)

subsection \<open>The reaper\<close>

text \<open>\<open>reaper_exit\<close> starts by clearing the service's pid; the child may already be gone.\<close>

lemma own_inv_reaper_exit:
  "own_inv (upd_svc w (\<lambda>v. v\<lparr>pid := 0\<rparr>) s) \<Longrightarrow> own_inv (reaper_exit w p s)"
proof -
  assume i1: "own_inv (upd_svc w (\<lambda>v. v\<lparr>pid := 0\<rparr>) s)"
  define ws where "ws = wstat_slot s"
  define crashed where "crashed = (wait_crashed ws \<noteq> 0)"
  define s1 where "s1 = upd_svc w (\<lambda>v. v\<lparr>pid := 0\<rparr>) s"
  define s2 where "s2 = (if (w = Main \<and> flagstatus (svc_of w s1) = svstatus_starting \<and>
                              (crashed \<or> wait_exitcode ws \<noteq> 0))
                           \<or> (\<not> crashed \<and> wait_exitcode ws = 100)
                then upd_svc w (\<lambda>v. v\<lparr>flagwantup := False, flagstatus := svstatus_failed\<rparr>) s1
                else if w = Main \<and> flagstatus (svc_of w s1) = svstatus_starting then s1
                else if \<not> flagwant (svc_of w s1) \<or> \<not> flagwantup (svc_of w s1)
                then upd_svc w (\<lambda>v. v\<lparr>flagstatus := svstatus_stopped\<rparr>) s1
                else s1)"
  define s4 where "s4 = (pidchange w (Some (if crashed then ''killed'' else ''exit''))
                 (int (if crashed then wait_stopsig ws else wait_exitcode ws)) p s2)\<lparr>firstrun := False\<rparr>"
  have "own_inv s1" using i1 by (simp add: s1_def)
  then have "own_inv s2"
    by (cases w) (auto simp: s2_def s1_def own_inv_def owns_ok_def)
  then have i4: "own_inv s4" by (simp add: s4_def own_frame own_inv_pidchange)
  have "reaper_exit w p s = (if (flagwant (svc_of w s4) \<and> flagwantup (svc_of w s4)) \<or>
                                 (w = Main \<and> flagstatus (svc_of w s4) = svstatus_starting)
                              then (if \<not> flagexit s4 then trystart w s4 else s4)
                              else if flagstatus (svc_of w s4) \<noteq> svstatus_failed then trystop w s4
                              else s4)"
    unfolding reaper_exit_def Let_def s4_def s2_def s1_def crashed_def ws_def by (rule refl)
  then show ?thesis using i4 by (simp add: own_inv_trystart own_inv_trystop)
qed

lemma waitpid_slot_cpids:
  assumes w: "waitpid_slot t s = (WPid p ws, s')"
  shows "p \<in> cpid ` set (children s) \<and> cpid ` set (children s) \<subseteq> insert p (cpid ` set (children s'))"
proof (cases "take_zombie (wait_selects t (self_pgid s)) (children s)")
  case None
  then show ?thesis using w by (simp add: waitpid_slot_def sys_waitpid_def split: if_splits)
next
  case (Some a)
  obtain z cs where a: "a = (z, cs)" by (cases a)
  then have "p = cpid z" "children s' = cs"
    using w Some by (auto simp: waitpid_slot_def sys_waitpid_def)
  then show ?thesis
    using take_zombie_Some [OF Some [unfolded a]] take_zombie_remove [OF Some [unfolded a]] by blast
qed

lemma reaper_step_orphanage:
  "flagorphanage (step_state (reaper_step s)) = flagorphanage s"
proof -
  obtain r0 s0 where w0: "(if flagstatus (svcmain s) = svstatus_orphanage
                      then waitpid_slot (- pid (svcmain s)) s else (WNone, s)) = (r0, s0)"
    by (metis surj_pair)
  have f0: "flagorphanage s0 = flagorphanage s" using w0 by (auto split: if_splits dest: waitpid_slot_svc)
  obtain r s1 where w1: "(if wait_ret r0 = 0 then waitpid_slot (-1) s0 else (r0, s0)) = (r, s1)"
    by (metis surj_pair)
  have f1: "flagorphanage s1 = flagorphanage s" using w1 f0 by (auto split: if_splits dest: waitpid_slot_svc)
  have "reaper_step s =
          (if wait_ret r0 > 0 then Continue s0
           else let p = wait_ret r
           in if p = 0 then Break s1
              else if flagorphanage s1 \<and> p = pid (svcmain s1)
              then Continue (announce (s1\<lparr>svcmain := (svcmain s1)\<lparr>flagstatus := svstatus_orphanage\<rparr>\<rparr>))
              else if p = pid (svcmain s1) \<or> (p = -1 \<and> r = WErr ECHILD)
              then Break (reaper_exit Main p s1)
              else if p = pid (svclog s1) then Break (reaper_exit Log p s1)
              else if p = -1 \<and> r \<noteq> WErr EINTR then Break s1
              else Continue s1)"
    using w0 w1 by (simp add: reaper_step_def)
  moreover have "flagorphanage (reaper_exit w p s1) = flagorphanage s" for w p
    using reaper_exit_env [of s1 w p] f1 by (simp add: same_env_def)
  moreover have "flagorphanage (announce t) = flagorphanage t" for t
    using announce_env [of t] by (simp add: same_env_def)
  ultimately show ?thesis using f0 f1 by (simp add: step_state_def Let_def)
qed

lemma own_inv_orphanage [simp]: "flagorphanage s \<Longrightarrow> own_inv s"
  by (simp add: own_inv_def owns_ok_def)

lemma own_inv_reaper_step:
  assumes p: "pid_inv s" and i: "own_inv s"
  shows "own_inv (step_state (reaper_step s))"
proof (cases "flagorphanage s")
  case True
  then show ?thesis by (simp add: reaper_step_orphanage)
next
  case False
  then have st: "flagstatus (svcmain s) \<noteq> svstatus_orphanage"
    using i by (simp add: own_inv_def owns_ok_def)
  obtain r s1 where w1: "waitpid_slot (-1) s = (r, s1)" by (metis surj_pair)
  have fr: "svcmain s1 = svcmain s" "svclog s1 = svclog s" "flagorphanage s1 = flagorphanage s"
    using waitpid_slot_svc [OF w1] by simp_all
  have eq: "reaper_step s =
          (let p = wait_ret r
           in if p = 0 then Break s1
              else if flagorphanage s1 \<and> p = pid (svcmain s1)
              then Continue (announce (s1\<lparr>svcmain := (svcmain s1)\<lparr>flagstatus := svstatus_orphanage\<rparr>\<rparr>))
              else if p = pid (svcmain s1) \<or> (p = -1 \<and> r = WErr ECHILD)
              then Break (reaper_exit Main p s1)
              else if p = pid (svclog s1) then Break (reaper_exit Log p s1)
              else if p = -1 \<and> r \<noteq> WErr EINTR then Break s1
              else Continue s1)"
    using st w1 by (simp add: reaper_step_def wait_ret_def)
  have pm: "0 \<le> pid (svcmain s)" "0 \<le> pid (svclog s)"
    "pid (svcmain s) \<noteq> 0 \<and> pid (svclog s) \<noteq> 0 \<longrightarrow> pid (svcmain s) \<noteq> pid (svclog s)"
    "\<forall>c \<in> set (children s). 0 < cpid c"
    using p by (auto simp: pid_inv_def pids_ok_def)
  have o: "pid (svcmain s) \<noteq> 0 \<longrightarrow> pid (svcmain s) \<in> cpid ` set (children s)"
    "pid (svclog s) \<noteq> 0 \<longrightarrow> pid (svclog s) \<in> cpid ` set (children s)"
    using i False by (simp_all add: own_inv_def owns_ok_def)
  show ?thesis
  proof (cases r)
    case (WPid q ws)
    have q: "q \<in> cpid ` set (children s)" "cpid ` set (children s) \<subseteq> insert q (cpid ` set (children s1))"
      using waitpid_slot_cpids [OF w1 [unfolded WPid]] by simp_all
    then have "0 < q" using pm(4) by auto
    have keep: "x \<noteq> 0 \<Longrightarrow> x \<in> cpid ` set (children s) \<Longrightarrow> x \<noteq> q \<Longrightarrow> x \<in> cpid ` set (children s1)" for x
      using q(2) by auto
    have "own_inv (upd_svc Main (\<lambda>v. v\<lparr>pid := 0\<rparr>) s1)" if "q = pid (svcmain s)"
      using that keep o pm(3) \<open>0 < q\<close> False st fr by (auto simp: own_inv_def owns_ok_def)
    moreover have "own_inv (upd_svc Log (\<lambda>v. v\<lparr>pid := 0\<rparr>) s1)" if "q = pid (svclog s)" "q \<noteq> pid (svcmain s)"
      using that keep o False st fr by (auto simp: own_inv_def owns_ok_def)
    moreover have "own_inv s1" if "q \<noteq> pid (svcmain s)" "q \<noteq> pid (svclog s)"
      using that keep o False st fr by (auto simp: own_inv_def owns_ok_def)
    ultimately show ?thesis
      using eq WPid \<open>0 < q\<close> fr by (auto simp: step_state_def Let_def wait_ret_def own_inv_reaper_exit)
  next
    case WNone
    then have "s1 = s" using waitpid_slot_nopid [OF w1] by simp
    then show ?thesis using eq WNone i by (simp add: step_state_def wait_ret_def)
  next
    case (WErr e)
    then have "s1 = s" "e = ECHILD" using waitpid_slot_err [OF w1 [unfolded WErr]] by simp_all
    moreover have "own_inv (upd_svc Main (\<lambda>v. v\<lparr>pid := 0\<rparr>) s)"
      using o False st by (auto simp: own_inv_def owns_ok_def)
    ultimately show ?thesis
      using eq WErr pm(1) by (simp add: step_state_def wait_ret_def own_inv_reaper_exit)
  qed
qed

lemma own_inv_reaper_loop:
  "pid_inv s \<Longrightarrow> own_inv s \<Longrightarrow> reaper_loop s = Some s' \<Longrightarrow> own_inv s'"
proof (induction "zombies (children s)" arbitrary: s rule: less_induct)
  case less
  have ne: "pid (svcmain s) \<noteq> -1" using less.prems(1) by (auto simp: pid_inv_def pids_ok_def)
  have st: "pid_inv (step_state (reaper_step s))" "own_inv (step_state (reaper_step s))"
    using pid_inv_reaper_step own_inv_reaper_step less.prems(1,2) by blast+
  show ?case
  proof (cases "reaper_step s")
    case (Continue t)
    then have "zombies (children t) < zombies (children s)" "reaper_loop t = Some s'"
      using reaper_step_continue [OF Continue ne] less.prems(3)
      by (simp_all add: reaper_loop.simps [of s])
    then show ?thesis using less.hyps st Continue by (simp add: step_state_def)
  next
    case (Break t)
    then show ?thesis using less.prems(3) st by (simp add: reaper_loop.simps [of s] step_state_def)
  qed
qed

subsection \<open>The controller and the iteration\<close>

lemma own_inv_ctl_cmd: "own_inv s \<Longrightarrow> own_inv (snd (snd (ctl_cmd ch w kg s)))"
proof -
  assume i: "own_inv s"
  have d: "own_inv (ctl_down w kg s)"
    using i by (simp add: ctl_down_def Let_def own_frame own_inv_stopsvc own_inv_trystop)
  have "own_inv (upd_svc w (\<lambda>v. v\<lparr>flagwant := True, flagwantup := True\<rparr>) s')" if "own_inv s'" for s'
    using that by (simp add: own_frame)
  then have u: "own_inv (ctl_up w s)"
    using i own_inv_set_status [where st = svstatus_starting and f = "\<lambda>v. v" and w = w]
    by (simp add: ctl_up_def Let_def own_frame own_inv_trystart)
  have o: "own_inv (ctl_once w s)"
    using i by (simp add: ctl_once_def Let_def own_frame own_inv_trystart)
  show ?thesis
    using i d u o by (simp add: ctl_cmd_def own_frame split: option.splits)
qed

lemma own_inv_controller_loop: "own_inv s \<Longrightarrow> own_inv (controller_loop w kg s)"
  by (rule controller_loop_preserves [where I = own_inv]) (simp_all add: own_inv_ctl_cmd own_frame)

lemma own_inv_doit_iter: "pid_inv s \<Longrightarrow> own_inv s \<Longrightarrow> doit_iter s = Some s' \<Longrightarrow> own_inv s'"
proof -
  assume p: "pid_inv s" and i: "own_inv s" and d: "doit_iter s = Some s'"
  then obtain s2 where r: "reaper_loop (s\<lparr>selfpipe := 0\<rparr>) = Some s2"
      and s': "s' = stop_log_on_exit (controller (kill_on_unlink s2))"
    by (auto simp: doit_iter_def split: option.splits)
  have "own_inv s2" using own_inv_reaper_loop [OF _ _ r] p i by (simp add: inv_frame own_frame)
  then have "own_inv (kill_on_unlink s2)" by (simp add: kill_on_unlink_def Let_def own_frame)
  then have "own_inv (controller (kill_on_unlink s2))"
    by (simp add: controller_def own_inv_controller_loop)
  then show ?thesis by (simp add: s' stop_log_on_exit_def own_inv_stopsvc)
qed

subsection \<open>Environment steps and start-up\<close>

lemma cpids_set_cexit [simp]:
  "i < length cs \<Longrightarrow> cpid ` set (cs[i := (cs ! i)\<lparr>cexit := e\<rparr>]) = cpid ` set cs"
  by (metis list.set_map map_update nth_map child.select_convs(1) child.surjective
            child.update_convs(5) list_update_id)

lemma own_inv_env_step: "env_step s s' \<Longrightarrow> own_inv s \<Longrightarrow> own_inv s'"
proof (induction rule: env_step.induct)
  case (child_exit i s ws)
  then show ?case by (simp only: own_frame) (simp add: own_inv_def owns_ok_def)
next
  case (adopt_orphan s g)
  then show ?case by simp
qed (simp_all add: own_frame terminate_def ttystop_def resume_def)

lemma main_dirs_status:
  "main_dirs io s0 = Inr s2 \<Longrightarrow> flagstatus (svcmain s2) = flagstatus (svcmain s0)"
  by (auto simp: main_dirs_def Let_def split: if_splits stat_result.splits)

lemma own_inv_supervise_main:
  assumes "supervise_main argv io (init_state k) = Inr s"
  shows "own_inv s"
proof -
  obtain s2 where d: "main_dirs io (init_state k) = Inr s2"
    and s: "s = start_both (pidchange Main None 0 0 (main_open s2))"
    using supervise_main_Inr [OF assms] by blast
  have "own_inv s2"
    using main_dirs_Inr [OF d] main_dirs_status [OF d]
    by (simp add: own_inv_def owns_ok_def init_state_def svcmain_init_def svclog_init_def)
  then have "own_inv (main_open s2)" by (simp add: own_inv_def main_open_def)
  then have "own_inv (pidchange Main None 0 0 (main_open s2))" by (rule own_inv_pidchange)
  then show ?thesis by (simp add: s start_both_def Let_def own_inv_trystart)
qed

lemma own_inv_reachable: "reachable s \<Longrightarrow> own_inv s"
proof -
  assume "reachable s"
  then have "pid_inv s \<and> own_inv s"
  proof (induction rule: reachable.induct)
    case (start k argv io s)
    then show ?case by (simp add: inv_frame own_frame pid_inv_supervise_main own_inv_supervise_main)
  next
    case (step s s')
    then show ?case
      by (auto elim!: sys_stepE intro: pid_inv_env_step pid_inv_doit_iter own_inv_env_step
                own_inv_doit_iter)
  qed
  then show ?thesis ..
qed

subsection \<open>Ownership of the service processes\<close>

text \<open>
  C35. Outside orphanage mode, every reachable state keeps the main service out of the
  orphanage status, and a non-zero pid of either service is the pid of a child the
  supervisor has not yet reaped: the reaper clears a service's pid exactly when it
  reaps that process.
\<close>

theorem reachable_services_owned:
  assumes "reachable s" and "\<not> flagorphanage s"
  shows "flagstatus (svcmain s) \<noteq> svstatus_orphanage \<and>
         (pid (svcmain s) \<noteq> 0 \<longrightarrow> pid (svcmain s) \<in> cpid ` set (children s)) \<and>
         (pid (svclog s) \<noteq> 0 \<longrightarrow> pid (svclog s) \<in> cpid ` set (children s))"
  using own_inv_reachable [OF assms(1)] assms(2) by (simp add: own_inv_def owns_ok_def)

end
