(* ===== verification/Log_Status.thy ===== *)
theory Log_Status
  imports Ownership
begin

text \<open>
  The statuses the log service can take. The specification reserves \<open>Starting\<close> for
  the main service's two-phase start-up, \<open>Started\<close> for a main service without a
  \<open>run\<close> script and \<open>Orphaned\<close> for the main service in orphanage mode. The code
  writes a log status in \<open>trystart\<close> (\<open>running\<close>), \<open>trystop\<close> (\<open>stopped\<close>),
  \<open>stopsvc\<close> (\<open>stopping\<close>), the reaper (\<open>failed\<close>, \<open>stopped\<close>) and the command
  \<open>u\<close>, whose transient \<open>starting\<close> is always followed by \<open>trystart\<close>, since
  the log service then has no process. The invariant \<open>log_inv\<close> records this for
  every reachable state.
\<close>

definition log_status_ok :: "svstatus \<Rightarrow> bool" where
  "log_status_ok st \<longleftrightarrow>
     st = svstatus_stopped \<or> st = svstatus_running \<or> st = svstatus_stopping \<or> st = svstatus_failed"

definition log_inv :: "state \<Rightarrow> bool" where
  "log_inv s \<longleftrightarrow> log_status_ok (flagstatus (svclog s))"

subsection \<open>Statuses are only written by the service operations\<close>

lemma forkexecve_status:
  "flagstatus (svc_of v (snd (forkexecve sv argv fd s))) = flagstatus (svc_of v s)"
  by (cases v; auto simp: forkexecve_def sys_fork_def trigger_def deepsleep_def strerr_warn_def
                 selfpipe_write_def upd_svc_def Let_def split: option.splits which.splits)

lemma trystart_fork_status:
  "flagstatus (svc_of v (trystart_fork w argv fd s)) = flagstatus (svc_of v s)"
  using forkexecve_status [of v "Some w" argv fd s]
  by (cases v; auto simp: trystart_fork_def split: prod.splits)

lemma log_status_trystart_fork [simp]:
  "flagstatus (svclog (trystart_fork w argv fd s)) = flagstatus (svclog s)"
  using trystart_fork_status [of Log w argv fd s] by simp

lemma log_status_forkexecve:
  "forkexecve sv argv fd s = (f, s') \<Longrightarrow> flagstatus (svclog s') = flagstatus (svclog s)"
  using forkexecve_status [of Log sv argv fd s] by simp

text \<open>One pass of the reaper reaps, marks the main service orphaned, or handles an exit.\<close>

lemma reaper_step_result:
  "\<exists>s1. svcmain s1 = svcmain s \<and> svclog s1 = svclog s \<and>
        (step_state (reaper_step s) = s1 \<or>
         step_state (reaper_step s) = announce (s1\<lparr>svcmain := (svcmain s1)\<lparr>flagstatus := svstatus_orphanage\<rparr>\<rparr>) \<or>
         (\<exists>w p. step_state (reaper_step s) = reaper_exit w p s1))"
proof -
  obtain r0 s0 where w0: "(if flagstatus (svcmain s) = svstatus_orphanage
                      then waitpid_slot (- pid (svcmain s)) s else (WNone, s)) = (r0, s0)"
    by (metis surj_pair)
  have f0: "svcmain s0 = svcmain s" "svclog s0 = svclog s"
    using w0 by (auto split: if_splits dest: waitpid_slot_svc)
  obtain r s1 where w1: "(if wait_ret r0 = 0 then waitpid_slot (-1) s0 else (r0, s0)) = (r, s1)"
    by (metis surj_pair)
  have f1: "svcmain s1 = svcmain s" "svclog s1 = svclog s"
    using w1 f0 by (auto split: if_splits dest: waitpid_slot_svc)
  have "reaper_step s =
          (if wait_ret r0 > 0 then Continue s0
           else let p = wait_ret r
           in if p = 0 then Break s1
              else if flagorphanage s1 \<and> p = pid (svcmain s1)
              then Continue (announce (s1\<lparr>svcmain := (svcmain s1)\<lparr>flagstatus := svstatus_orphanage\<rparr>\<rparr>))
              else if p = pid (svcmain s1) \<or> (p = -1 \<and> r = WErr ECHILD)
              then Break (reaper_exit Main p s1)
              else if p = pid (svclog s1) then Break (reaper_exit Log p s1)
              else if p = -1 \<and> r \<noteq> WErr EINTR then Break s1
              else Continue s1)"
    using w0 w1 by (simp add: reaper_step_def)
  then show ?thesis using f0 f1
    by (cases "wait_ret r0 > 0") (auto simp: step_state_def Let_def)
qed

subsection \<open>Preservation\<close>

lemma log_inv_frame [simp]:
  "log_inv (announce s) = log_inv s" "log_inv (deepsleep n s) = log_inv s"
  "log_inv (killsvc w g sg s) = log_inv s" "log_inv (sys_kill tg sg s) = log_inv s"
  "log_inv (pidchange w nm c p s) = log_inv s" "log_inv (trigger s) = log_inv s"
  "log_inv (control_write bs s) = log_inv s" "log_inv (selfpipe_write s) = log_inv s"
  by (simp_all add: log_inv_def sys_kill_def trigger_def selfpipe_write_def control_write_def)

lemma log_inv_upd [simp]:
  "log_inv (s\<lparr>svcmain := v\<rparr>) = log_inv s" "log_inv (s\<lparr>svclog := v\<rparr>) = log_status_ok (flagstatus v)"
  "(\<And>v. flagstatus (f v) = flagstatus v) \<Longrightarrow> log_inv (upd_svc w f s) = log_inv s"
  by (cases w; simp add: log_inv_def)+

lemma log_inv_trystart: "log_inv s \<Longrightarrow> log_inv (trystart w s)"
  by (cases w) (simp_all add: trystart_def Let_def log_inv_def log_status_ok_def)

lemma log_inv_trystop: "log_inv s \<Longrightarrow> log_inv (trystop w s)"
  by (cases w) (auto simp: trystop_def log_inv_def log_status_ok_def dest!: log_status_forkexecve
                     split: prod.splits)

lemma log_inv_stopsvc: "log_inv s \<Longrightarrow> log_inv (stopsvc w g s)"
  by (cases w) (simp_all add: stopsvc_def log_inv_def log_status_ok_def)

lemma log_inv_reaper_exit: "log_inv s \<Longrightarrow> log_inv (reaper_exit w p s)"
  by (cases w) (auto simp: reaper_exit_def Let_def log_inv_def log_status_ok_def
                     intro!: log_inv_trystart [unfolded log_inv_def log_status_ok_def]
                             log_inv_trystop [unfolded log_inv_def log_status_ok_def])

lemma log_inv_reaper_step: "log_inv s \<Longrightarrow> log_inv (step_state (reaper_step s))"
proof -
  assume i: "log_inv s"
  obtain s1 where e: "svcmain s1 = svcmain s" "svclog s1 = svclog s"
    and r: "step_state (reaper_step s) = s1 \<or>
            step_state (reaper_step s) = announce (s1\<lparr>svcmain := (svcmain s1)\<lparr>flagstatus := svstatus_orphanage\<rparr>\<rparr>) \<or>
            (\<exists>w p. step_state (reaper_step s) = reaper_exit w p s1)"
    using reaper_step_result [of s] by blast
  have "log_inv s1" using i e by (simp add: log_inv_def)
  then show ?thesis using r log_inv_reaper_exit by (auto simp: log_inv_def)
qed

text \<open>A property kept by every pass is kept by the whole loop, by fixpoint induction.\<close>

lemma reaper_loop_preserves:
  assumes step: "\<And>t. I t \<Longrightarrow> I (step_state (reaper_step t))"
    and r: "reaper_loop s = Some s'" and i: "I s"
  shows "I s'"
proof -
  have "I x \<longrightarrow> I y" if "reaper_loop x = Some y" for x y
    by (rule reaper_loop.raw_induct [where P = "\<lambda>x y. I x \<longrightarrow> I y", OF _ that])
       (auto simp: step_state_def dest: step split: loop_step.splits)
  then show ?thesis using r i by blast
qed

subsection \<open>The controller and the iteration\<close>

lemma log_inv_ctl_cmd: "log_inv s \<Longrightarrow> log_inv (snd (snd (ctl_cmd ch w kg s)))"
proof -
  assume i: "log_inv s"
  have d: "log_inv (ctl_down w kg s)"
    using i by (simp add: ctl_down_def Let_def log_inv_stopsvc log_inv_trystop)
  have u: "log_inv (ctl_up w s)"
    using i by (cases w) (simp_all add: ctl_up_def Let_def log_inv_trystart log_inv_def log_status_ok_def
                                        trystart_def)
  have o: "log_inv (ctl_once w s)"
    using i by (simp add: ctl_once_def Let_def log_inv_trystart)
  show ?thesis
    using i d u o by (cases w) (simp_all add: ctl_cmd_def log_inv_def split: option.splits)
qed

lemma log_inv_controller_loop: "log_inv s \<Longrightarrow> log_inv (controller_loop w kg s)"
  by (rule controller_loop_preserves [where I = log_inv, OF log_inv_ctl_cmd]) (simp_all add: log_inv_def)

lemma log_inv_doit_iter: "log_inv s \<Longrightarrow> doit_iter s = Some s' \<Longrightarrow> log_inv s'"
proof -
  assume i: "log_inv s" and d: "doit_iter s = Some s'"
  then obtain s2 where r: "reaper_loop (s\<lparr>selfpipe := 0\<rparr>) = Some s2"
      and s': "s' = stop_log_on_exit (controller (kill_on_unlink s2))"
    by (auto simp: doit_iter_def split: option.splits)
  have "log_inv s2"
    using reaper_loop_preserves [where I = log_inv, OF log_inv_reaper_step r] i by (simp add: log_inv_def)
  then have "log_inv (kill_on_unlink s2)" by (simp add: kill_on_unlink_def Let_def log_inv_def sys_kill_def)
  then have "log_inv (controller (kill_on_unlink s2))"
    by (simp add: controller_def log_inv_controller_loop)
  then show ?thesis by (simp add: s' stop_log_on_exit_def log_inv_stopsvc)
qed

lemma log_inv_env_step: "env_step s s' \<Longrightarrow> log_inv s \<Longrightarrow> log_inv s'"
  by (induction rule: env_step.induct)
     (simp_all add: log_inv_def terminate_def ttystop_def resume_def trigger_def selfpipe_write_def
                    control_write_def)

lemma log_inv_supervise_main:
  assumes "supervise_main argv io (init_state k) = Inr s"
  shows "log_inv s"
proof -
  obtain s2 where d: "main_dirs io (init_state k) = Inr s2"
    and s: "s = start_both (pidchange Main None 0 0 (main_open s2))"
    using supervise_main_Inr [OF assms] by blast
  have "log_inv s2"
    using d by (auto simp: main_dirs_def Let_def log_inv_def log_status_ok_def init_state_def svclog_init_def
                     split: if_splits stat_result.splits)
  then have "log_inv (pidchange Main None 0 0 (main_open s2))"
    by (simp add: log_inv_def main_open_def)
  then show ?thesis by (simp add: s start_both_def Let_def log_inv_trystart)
qed

lemma log_inv_reachable: "reachable s \<Longrightarrow> log_inv s"
proof (induction rule: reachable.induct)
  case (start k argv io s)
  then show ?case by (simp add: log_inv_supervise_main)
next
  case (step s s')
  then show ?case by (auto elim!: sys_stepE intro: log_inv_env_step log_inv_doit_iter)
qed

subsection \<open>The log service's statuses\<close>

text \<open>
  C36. In every reachable state the log service is stopped, running, stopping or
  failed: it is never \<open>starting\<close>, \<open>started\<close> or \<open>orphanage\<close>, the statuses the
  specification reserves for the main service.
\<close>

theorem reachable_log_status:
  assumes "reachable s"
  shows "flagstatus (svclog s) \<in> {svstatus_stopped, svstatus_running, svstatus_stopping, svstatus_failed}"
  using log_inv_reachable [OF assms] by (auto simp: log_inv_def log_status_ok_def)

end
