(* ===== verification/Controller_Refinement.thy ===== *)
theory Controller_Refinement
  imports Controller
begin

text \<open>
  An abstract specification of what the controller does to the wanted state of
  the services (the specification's section 4.6): a pass reads the command bytes
  in order, keeping the selected service (\<open>l\<close>/\<open>L\<close>); \<open>u\<close> makes the selected
  service wanted up persistently, \<open>d\<close> wanted down persistently, \<open>o\<close> clears the
  persistence and keeps the direction, and every other byte leaves the wants
  alone. The refinement theorem shows that the controller of supervise.c
  implements this specification on the abstraction \<open>wants_of\<close>, provided a
  \<open>run\<close> script exists (without one, \<open>trystart\<close> clears the main service's want).
\<close>

type_synonym want = "bool \<times> bool"

definition abs_want :: "svc \<Rightarrow> want" where
  "abs_want v = (flagwant v, flagwantup v)"

definition wants_of :: "state \<Rightarrow> which \<Rightarrow> want" where
  "wants_of s w = abs_want (svc_of w s)"

fun want_cmd :: "char \<Rightarrow> which \<times> (which \<Rightarrow> want) \<Rightarrow> which \<times> (which \<Rightarrow> want)" where
  "want_cmd ch (w, m) =
     (if ch = CHR ''L'' then (Log, m)
      else if ch = CHR ''l'' then (Main, m)
      else if ch = CHR ''u'' then (w, m(w := (True, True)))
      else if ch = CHR ''d'' then (w, m(w := (True, False)))
      else if ch = CHR ''o'' then (w, m(w := (False, snd (m w))))
      else (w, m))"

definition want_pass :: "char list \<Rightarrow> which \<Rightarrow> (which \<Rightarrow> want) \<Rightarrow> which \<Rightarrow> want" where
  "want_pass cs w m = snd (foldl (\<lambda>a ch. want_cmd ch a) (w, m) cs)"

subsection \<open>Each command refines its abstract step\<close>

lemma wants_of_frame [simp]:
  "wants_of (announce s) = wants_of s" "wants_of (killsvc w g sg s) = wants_of s"
  "wants_of (s\<lparr>flagexit := b\<rparr>) = wants_of s" "wants_of (s\<lparr>firstrun := b\<rparr>) = wants_of s"
  "wants_of (s\<lparr>control := cs\<rparr>) = wants_of s"
  by (simp_all add: wants_of_def fun_eq_iff svc_of_def split: which.splits)

lemma wants_of_eqI:
  "(\<And>v. flagwant (svc_of v t) = flagwant (svc_of v s) \<and> flagwantup (svc_of v t) = flagwantup (svc_of v s))
   \<Longrightarrow> wants_of t = wants_of s"
  by (simp add: wants_of_def abs_want_def fun_eq_iff)

lemma wants_of_upd:
  "wants_of (upd_svc w (\<lambda>v. v\<lparr>flagwant := a, flagwantup := b\<rparr>) s) = (wants_of s)(w := (a, b))"
  "wants_of (upd_svc w (\<lambda>v. v\<lparr>flagwant := a\<rparr>) s) = (wants_of s)(w := (a, snd (wants_of s w)))"
  by (cases w; simp add: wants_of_def abs_want_def fun_eq_iff svc_of_def split: which.splits)+

lemma wants_of_status [simp]:
  "wants_of (upd_svc w (\<lambda>v. v\<lparr>flagstatus := st\<rparr>) s) = wants_of s"
  by (cases w; simp add: wants_of_def abs_want_def fun_eq_iff svc_of_def split: which.splits)

lemma wants_of_trystart:
  "stat_exists (dirents s) ''run'' \<noteq> 0 \<Longrightarrow> wants_of (trystart w s) = wants_of s"
  by (rule wants_of_eqI) (use trystart_wants in blast)

lemma wants_of_trystop: "wants_of (trystop w s) = wants_of s"
  by (rule wants_of_eqI) (use trystop_wants in blast)

lemma wants_of_stopsvc: "wants_of (stopsvc w g s) = wants_of s"
  by (rule wants_of_eqI) (use stopsvc_wants in blast)

lemma wants_of_ctl_down: "wants_of (ctl_down w kg s) = (wants_of s)(w := (True, False))"
proof -
  define s1 where "s1 = upd_svc w (\<lambda>v. v\<lparr>flagwant := True, flagwantup := False\<rparr>) s"
  have "ctl_down w kg s = announce (if pid (svc_of w s1) \<noteq> 0 then stopsvc w kg s1 else trystop w s1)"
    by (simp add: ctl_down_def s1_def Let_def)
  then have "wants_of (ctl_down w kg s) = wants_of s1"
    by (simp add: wants_of_stopsvc wants_of_trystop)
  then show ?thesis by (simp only: s1_def wants_of_upd)
qed
lemma wants_of_ctl_up:
  assumes "stat_exists (dirents s) ''run'' \<noteq> 0"
  shows "wants_of (ctl_up w s) = (wants_of s)(w := (True, True))"
proof -
  define s1 where "s1 = (if w = Main then s\<lparr>firstrun := \<not> flagwantup (svcmain s)\<rparr> else s)"
  define s2 where "s2 = upd_svc w (\<lambda>v. v\<lparr>flagwant := True, flagwantup := True\<rparr>) s1"
  define s4 where "s4 = announce (if pid (svc_of w s2) = 0
                      then upd_svc w (\<lambda>v. v\<lparr>flagstatus := svstatus_starting\<rparr>) s2 else s2)"
  have eq: "ctl_up w s = (if pid (svc_of w s4) = 0 then trystart w s4 else s4)"
    by (simp add: ctl_up_def s1_def s2_def s4_def Let_def)
  have w1: "wants_of s1 = wants_of s" "dirents s1 = dirents s" by (simp_all add: s1_def)
  have "wants_of s4 = wants_of s2" by (simp add: s4_def)
  also have "\<dots> = (wants_of s)(w := (True, True))" by (simp only: s2_def wants_of_upd w1)
  finally have w4: "wants_of s4 = (wants_of s)(w := (True, True))" .
  have "dirents s4 = dirents s"
    by (cases w) (simp_all add: s4_def s2_def s1_def)
  then show ?thesis using eq w4 assms by (simp add: wants_of_trystart)
qed

lemma wants_of_ctl_once:
  assumes "stat_exists (dirents s) ''run'' \<noteq> 0"
  shows "wants_of (ctl_once w s) = (wants_of s)(w := (False, snd (wants_of s w)))"
proof -
  define s5 where "s5 = announce (upd_svc w (\<lambda>v. v\<lparr>flagwant := False\<rparr>) s)"
  have eq: "ctl_once w s = (if pid (svc_of w s5) = 0 then trystart w s5 else s5)"
    by (simp add: ctl_once_def s5_def Let_def)
  have w5: "wants_of s5 = (wants_of s)(w := (False, snd (wants_of s w)))"
    by (simp only: s5_def wants_of_frame wants_of_upd)
  have "dirents s5 = dirents s" by (cases w) (simp_all add: s5_def)
  then show ?thesis using eq w5 assms by (simp add: wants_of_trystart)
qed
lemma ctl_cmd_refines:
  assumes "stat_exists (dirents s) ''run'' \<noteq> 0"
  shows "(fst (ctl_cmd ch w kg s), wants_of (snd (snd (ctl_cmd ch w kg s)))) = want_cmd ch (w, wants_of s)"
proof -
  have p: "wants_of (upd_svc w (\<lambda>v. v\<lparr>flagpaused := b\<rparr>) s) = wants_of s" for b
    by (cases w; simp add: wants_of_def abs_want_def fun_eq_iff svc_of_def split: which.splits)
  consider "ch = CHR ''L''" | "ch = CHR ''l''" | "ch = CHR ''u''" | "ch = CHR ''d''" | "ch = CHR ''o''"
    | "ch = CHR ''p''" | "ch = CHR ''c''" | "ch = CHR ''x''" | "ch = CHR ''+''" | "ch = CHR ''=''"
    | "ch \<notin> set ''Lludopcx+=''" by auto
  then show ?thesis
  proof cases
    case 11
    then show ?thesis by (auto simp: ctl_cmd_def split: option.splits)
  qed (use assms p in \<open>simp_all add: ctl_cmd_def wants_of_ctl_down wants_of_ctl_up wants_of_ctl_once\<close>)
qed

subsection \<open>The refinement theorem\<close>

text \<open>
  C32. With a \<open>run\<close> script present, the wants after a controller pass are those
  the abstract specification computes from the wants before it and the bytes in
  the FIFO: the controller refines \<open>want_pass\<close>.
\<close>

theorem controller_refines_want_pass:
  assumes "stat_exists (dirents s) ''run'' \<noteq> 0"
  shows "wants_of (controller s) = want_pass (control s) Main (wants_of s)"
proof -
  have "wants_of (controller_loop w kg t) = want_pass (control t) w (wants_of t)"
    if "stat_exists (dirents t) ''run'' \<noteq> 0" for w kg t
    using that
  proof (induction w kg t rule: controller_loop.induct)
    case (1 w kg t)
    show ?case
    proof (cases "control t")
      case Nil
      then show ?thesis by (simp add: want_pass_def)
    next
      case (Cons ch rest)
      obtain w' kg' t' where e: "ctl_cmd ch w kg (t\<lparr>control := rest\<rparr>) = (w', kg', t')"
        by (metis prod_cases3)
      have env: "control t' = rest" "dirents t' = dirents t"
        using ctl_cmd_env [of "t\<lparr>control := rest\<rparr>" ch w kg] e by (simp_all add: same_env_def)
      have step: "(w', wants_of t') = want_cmd ch (w, wants_of t)"
        using ctl_cmd_refines [of "t\<lparr>control := rest\<rparr>" ch w kg] "1.prems" e by simp
      have "wants_of (controller_loop w' kg' t') = want_pass rest w' (wants_of t')"
        using "1.IH" [OF Cons e [symmetric] refl] env "1.prems" by simp
      then show ?thesis using Cons e step
        by (simp add: controller_loop_Cons want_pass_def del: want_cmd.simps)
    qed
  qed
  then show ?thesis using assms by (simp add: controller_def)
qed
end
