(* ===== verification/Iteration.thy ===== *)
theory Iteration
  imports Event_Loop
begin

text \<open>
  One iteration of \<open>doit\<close> composed with the environment step before it: the
  signal handler folds \<open>SIGTERM\<close> into the command stream (\<open>terminate\<close>, lines
  85--91), and the iteration (lines 409--445) then runs the reaper, the unlink
  check, the controller and the log-stop test in that order. The lemmas below
  describe each stage on a quiet state, where no child has exited, and follow
  the exit flag and the trace through a whole iteration; with them the iteration
  after the control FIFO is unlinked and the one after a \<open>SIGTERM\<close> are stated
  over \<open>doit_iter\<close> and \<open>sys_step\<close>.
\<close>

subsection \<open>A quiet reaper\<close>

text \<open>With live children and none exited, \<open>waitpid(-1, WNOHANG)\<close> returns 0 and the reaper stops at once.\<close>

lemma waitpid_quiet:
  assumes "children s \<noteq> []" and "list_all (\<lambda>c. cexit c = None) (children s)"
  shows "waitpid_slot (-1) s = (WNone, s)"
proof -
  have "take_zombie (wait_selects (-1) (self_pgid s)) (children s) = None"
    using assms(2) by (simp add: take_zombie_None list_all_iff)
  moreover have "\<exists>c \<in> set (children s). wait_selects (-1) (self_pgid s) c"
    using assms(1) by (auto simp: wait_selects_def neq_Nil_conv)
  ultimately show ?thesis by (simp add: waitpid_slot_def sys_waitpid_def)
qed

lemma reaper_loop_quiet:
  assumes "flagstatus (svcmain s) \<noteq> svstatus_orphanage" and "children s \<noteq> []"
    and "list_all (\<lambda>c. cexit c = None) (children s)"
  shows "reaper_loop s = Some s"
proof -
  have "reaper_step s = Break s"
    using assms waitpid_quiet [OF assms(2,3)] by (simp add: reaper_step_def wait_ret_def)
  then show ?thesis by (simp add: reaper_loop.simps [of s])
qed

subsection \<open>The controller on the handler's bytes\<close>

lemma controller_dx:
  assumes "control s = ''dx''"
  shows "controller s = announce ((ctl_down Main 1 (s\<lparr>control := ''x''\<rparr>))\<lparr>control := [], flagexit := True\<rparr>)"
proof -
  have "ctl_cmd (CHR ''d'') Main 1 (s\<lparr>control := ''x''\<rparr>) =
          (Main, 1, ctl_down Main 1 (s\<lparr>control := ''x''\<rparr>))"
    by (simp add: ctl_cmd_def)
  then show ?thesis using controller_two [OF assms] by (simp add: ctl_cmd_def)
qed

lemma controller_dx_running:
  assumes "control s = ''dx''" and "pid (svcmain s) \<noteq> 0"
    and "flagstatus (svcmain s) \<noteq> svstatus_orphanage"
  shows "kills (trace (controller s)) =
           kills (trace s) @ [(pid (svcmain s), SIGTERM), (pid (svcmain s), SIGCONT)] \<and>
         flagexit (controller s) \<and> flagwant (svcmain (controller s)) \<and>
         \<not> flagwantup (svcmain (controller s)) \<and>
         flagstatus (svcmain (controller s)) = svstatus_stopping \<and>
         pid (svcmain (controller s)) = pid (svcmain s)"
  using controller_dx [OF assms(1)] assms(2,3) by (simp add: ctl_down_def stopsvc_def Let_def kills_killsvc)

subsection \<open>The exit flag and the trace through an iteration\<close>

lemma forkexecve_flagexit [simp]: "flagexit (snd (forkexecve sv argv fd s)) = flagexit s"
  by (auto simp: forkexecve_def sys_fork_def trigger_def deepsleep_def strerr_warn_def
                 selfpipe_write_def upd_svc_def Let_def split: option.splits which.splits)

lemma upd_svc_flagexit [simp]: "flagexit (upd_svc w f s) = flagexit s"
  by (cases w) simp_all

lemma trystart_fork_flagexit [simp]: "flagexit (trystart_fork w argv fd s) = flagexit s"
  by (simp add: trystart_fork_def split_def Let_def)

lemma service_flagexit [simp]:
  "flagexit (trystart w s) = flagexit s" "flagexit (trystop w s) = flagexit s"
  "flagexit (stopsvc w g s) = flagexit s" "flagexit (killsvc w g sg s) = flagexit s"
  by (simp_all add: trystart_def trystop_def stopsvc_def killsvc_def sys_kill_def split_def Let_def)

text \<open>No command clears the exit flag.\<close>

lemma ctl_cmd_flagexit: "flagexit s \<Longrightarrow> flagexit (snd (snd (ctl_cmd ch w kg s)))"
  by (simp add: ctl_cmd_def ctl_down_def ctl_up_def ctl_once_def Let_def split: option.splits)

lemma controller_flagexit: "flagexit s \<Longrightarrow> flagexit (controller s)"
  unfolding controller_def by (rule controller_loop_preserves [where I = flagexit, OF ctl_cmd_flagexit]) simp_all

lemma controller_trace: "\<exists>es. trace (controller s) = trace s @ es"
  unfolding controller_def
proof (rule controller_loop_preserves [where I = "\<lambda>t. \<exists>es. trace t = trace s @ es"])
  fix ch w kg and t :: state
  assume "\<exists>es. trace t = trace s @ es"
  then show "\<exists>es. trace (snd (snd (ctl_cmd ch w kg t))) = trace s @ es"
    using ctl_cmd_env [of t ch w kg] by (auto simp: same_env_def)
qed simp_all

subsection \<open>Removal of the control FIFO\<close>

text \<open>
  C7. When the control FIFO has been unlinked while a supervisor that is not yet
  exiting waits and no child has exited, the next iteration sends \<open>SIGKILL\<close> to the process group of
  each service that has a process, main first, after the reaper and before any
  signal the controller sends; it sets the exit flag, and when neither service
  has a process and no command is queued the loop's exit test then holds.
\<close>

theorem unlink_iteration_kills_groups:
  assumes "control_nlink s = 0" and "flagstatus (svcmain s) \<noteq> svstatus_orphanage"
    and "children s \<noteq> []" and "list_all (\<lambda>c. cexit c = None) (children s)" and "\<not> flagexit s"
  shows "\<exists>s' es. sys_step s s' \<and> doit_iter s = Some s' \<and>
           kills (trace s') =
             kills (trace s) @ (if pid (svcmain s) \<noteq> 0 then [(- pid (svcmain s), SIGKILL)] else [])
                             @ (if pid (svclog s) \<noteq> 0 then [(- pid (svclog s), SIGKILL)] else []) @ es \<and>
           flagexit s' \<and>
           (control s = [] \<and> pid (svcmain s) = 0 \<and> pid (svclog s) = 0 \<longrightarrow> doit_done s')"
proof -
  define t where "t = s\<lparr>selfpipe := 0\<rparr>"
  have r: "reaper_loop t = Some t" using reaper_loop_quiet [of t] assms(2-4) by (simp add: t_def)
  define k where "k = kill_on_unlink t"
  have kk: "kills (trace k) =
             kills (trace s) @ (if pid (svcmain s) \<noteq> 0 then [(- pid (svcmain s), SIGKILL)] else [])
                             @ (if pid (svclog s) \<noteq> 0 then [(- pid (svclog s), SIGKILL)] else [])"
    "flagexit k" "svcmain k = svcmain s" "svclog k = svclog s" "control k = control s"
    using assms(1) by (simp_all add: k_def t_def kill_on_unlink_def sys_kill_def Let_def)
  define s' where "s' = stop_log_on_exit (controller k)"
  have d: "doit_iter s = Some s'" using r by (simp add: doit_iter_def t_def [symmetric] k_def s'_def)
  obtain es1 where e1: "trace (controller k) = trace k @ es1" using controller_trace by blast
  have "\<exists>es2. trace s' = trace (controller k) @ es2"
    using stopsvc_env [of "controller k" Log 1] by (auto simp: s'_def stop_log_on_exit_def same_env_def)
  then obtain es2 where e2: "trace s' = trace (controller k) @ es2" by blast
  have f: "flagexit s'" using controller_flagexit [OF kk(2)] by (simp add: s'_def stop_log_on_exit_def)
  have "doit_done s'" if "control s = []" "pid (svcmain s) = 0" "pid (svclog s) = 0"
  proof -
    have "controller k = k" using that(1) kk(5) by (simp add: controller_def)
    then show ?thesis using that kk f by (auto simp: doit_done_def s'_def stop_log_on_exit_def stopsvc_def)
  qed
  moreover have "sys_step s s'"
    using assms(5) d by (auto simp: doit_done_def intro: sys_step.iter)
  ultimately show ?thesis using d e1 e2 kk(1) f by auto
qed

subsection \<open>The log stop of an exiting supervisor\<close>

text \<open>
  The last stage stops the log service without publishing: the status file keeps
  the log record written before, which still says the log service is running.
\<close>

lemma stop_log_on_exit_unpublished:
  assumes "flagexit s" and "flagstatus (svcmain s) = svstatus_stopped"
    and "flagstatus (svclog s) = svstatus_running"
  shows "flagstatus (svclog (stop_log_on_exit s)) = svstatus_stopping \<and>
         statusfile (stop_log_on_exit s) = statusfile s"
  using assms by (simp add: stop_log_on_exit_def stopsvc_def killsvc_def sys_kill_def Let_def)

subsection \<open>Termination request during a wait\<close>

text \<open>
  C37. When \<open>SIGTERM\<close> reaches a supervisor parked in \<open>iopause\<close> with its main
  service running (a live process, no exited child, an empty FIFO still linked),
  the next iteration of the loop sends the main process \<open>SIGTERM\<close> then
  \<open>SIGCONT\<close>, marks it wanted down and stopping with its pid kept, and sets the
  exit flag; the loop is not done yet, since the process has not been reaped.
\<close>

theorem terminate_iteration_stops_main:
  assumes "control s = []" and "control_nlink s \<noteq> 0" and "pid (svcmain s) \<noteq> 0"
    and "flagstatus (svcmain s) \<noteq> svstatus_orphanage" and "children s \<noteq> []"
    and "list_all (\<lambda>c. cexit c = None) (children s)"
  shows "\<exists>s'. sys_step s (terminate s) \<and> sys_step (terminate s) s' \<and>
              kills (trace s') = kills (trace s) @ [(pid (svcmain s), SIGTERM), (pid (svcmain s), SIGCONT)] \<and>
              flagexit s' \<and> flagwant (svcmain s') \<and> \<not> flagwantup (svcmain s') \<and>
              flagstatus (svcmain s') = svstatus_stopping \<and> pid (svcmain s') = pid (svcmain s) \<and>
              \<not> doit_done s'"
proof -
  define t where "t = (terminate s)\<lparr>selfpipe := 0\<rparr>"
  have t: "control t = ''dx''" "children t = children s" "svcmain t = svcmain s"
    "control_nlink t = control_nlink s" "kills (trace t) = kills (trace s)"
    using assms(1) by (simp_all add: t_def terminate_def control_write_def selfpipe_write_def)
  define c where "c = controller t"
  have r: "reaper_loop t = Some t" using reaper_loop_quiet [of t] assms(4-6) t by simp
  have k: "kill_on_unlink t = t" using assms(2) t by (simp add: kill_on_unlink_def)
  have cf: "kills (trace c) = kills (trace s) @ [(pid (svcmain s), SIGTERM), (pid (svcmain s), SIGCONT)]"
    "flagexit c" "flagwant (svcmain c)" "\<not> flagwantup (svcmain c)"
    "flagstatus (svcmain c) = svstatus_stopping" "pid (svcmain c) = pid (svcmain s)"
    using controller_dx_running [of t] assms(3,4) t by (simp_all add: c_def)
  have "doit_iter (terminate s) = Some c"
    using r k cf(5) by (simp add: doit_iter_def t_def [symmetric] c_def stop_log_on_exit_def)
  moreover have "\<not> doit_done (terminate s)"
    using assms(3) by (simp add: doit_done_def terminate_def control_write_def selfpipe_write_def)
  ultimately have "sys_step (terminate s) c" by (rule sys_step.iter [rotated])
  moreover have "sys_step s (terminate s)" by (rule sys_step.env [OF env_step.sig_terminate])
  ultimately show ?thesis using cf assms(3) by (auto simp: doit_done_def)
qed

end
