(* ===== verification/Shutdown.thy ===== *)
theory Shutdown
  imports Ownership Iteration
begin

text \<open>
  Shutdown. Once the supervisor is exiting (\<open>flagexit\<close>, set by the command
  \<open>x\<close> or by the removal of the control FIFO), the reaper no longer restarts a
  service whose process it reaps (\<open>if (!flagexit) trystart(svc)\<close> at line 320),
  and \<open>doit\<close> returns when neither service has a process (line 410). The lemmas
  below follow the iterations of an exiting supervisor whose services' processes
  have all exited: each iteration reaps one of them and forks nothing but
  \<open>./notify\<close>, so the loop's exit test is reached.
\<close>

definition svc_exited :: "state \<Rightarrow> bool" where
  "svc_exited s \<longleftrightarrow>
     list_all (\<lambda>c. cexit c \<noteq> None)
       (filter (\<lambda>c. cpid c \<in> {pid (svcmain s), pid (svclog s)}) (children s))"

definition nsvc :: "state \<Rightarrow> nat" where
  "nsvc s = (if pid (svcmain s) \<noteq> 0 then 1 else 0) + (if pid (svclog s) \<noteq> 0 then 1 else 0)"

definition notify_only :: "event list \<Rightarrow> bool" where
  "notify_only es \<longleftrightarrow> list_all (\<lambda>x. hd (snd x) = Some ''./notify'') (forks es)"

subsection \<open>Helpers\<close>

lemma svc_exited_iff:
  "svc_exited s \<longleftrightarrow>
     (\<forall>c \<in> set (children s). cpid c = pid (svcmain s) \<or> cpid c = pid (svclog s) \<longrightarrow> cexit c \<noteq> None)"
  by (auto simp: svc_exited_def list_all_iff)

lemma notify_only_simps [simp]:
  "notify_only []" "notify_only (xs @ ys) \<longleftrightarrow> notify_only xs \<and> notify_only ys"
  by (simp_all add: notify_only_def)

text \<open>\<open>pidchange\<close> adds at most the \<open>./notify\<close> child, whose pid is fresh.\<close>

lemma pidchange_children_new:
  "set (children (pidchange w n c p s)) \<subseteq> set (children s) \<union> {x. nextpid s \<le> cpid x \<and> cexit x = None}"
  by (auto simp: pidchange_def notify_def forkexecve_def sys_fork_def trigger_def deepsleep_def
                 strerr_warn_def selfpipe_write_def upd_svc_def Let_def
           split: option.splits which.splits if_splits prod.splits)

lemma pidchange_trace:
  "\<exists>es. trace (pidchange w n c p s) = trace s @ es \<and> notify_only es"
proof -
  obtain es where e: "trace (pidchange w n c p s) = trace s @ es"
    using pidchange_env [of s w n c p] by (auto simp: same_env_def)
  obtain fs where "forks (trace (pidchange w n c p s)) = forks (trace s) @ fs"
      "\<forall>x \<in> set fs. hd (snd x) = Some ''./notify''"
    using forks_pidchange [of w n c p s] by blast
  then show ?thesis using e by (auto simp: notify_only_def list_all_iff)
qed

lemma announce_trace: "\<exists>es. trace (announce s) = trace s @ es \<and> notify_only es"
proof -
  obtain es where "trace (announce s) = trace s @ es"
    using announce_env [of s] by (auto simp: same_env_def)
  moreover have "forks (trace (announce s)) = forks (trace s)" by simp
  ultimately show ?thesis by (auto simp: notify_only_def)
qed

subsection \<open>One exit handled while exiting\<close>

text \<open>
  The shape of \<open>reaper_exit\<close>: the service's pid is cleared and its status
  classified in \<open>s2\<close>, \<open>pidchange\<close> notifies and publishes, and the tail either
  restarts the service (only when not exiting), stops it, or leaves it.
\<close>

lemma reaper_exit_shape:
  "\<exists>s2 nm c. children s2 = children s \<and> trace s2 = trace s \<and> nextpid s2 = nextpid s \<and>
     flagexit s2 = flagexit s \<and> dirents s2 = dirents s \<and>
     pid (svcmain s2) = (if w = Main then 0 else pid (svcmain s)) \<and>
     pid (svclog s2) = (if w = Log then 0 else pid (svclog s)) \<and>
     (let s4 = (pidchange w (Some nm) c p s2)\<lparr>firstrun := False\<rparr>; v4 = svc_of w s4
      in reaper_exit w p s =
           (if (flagwant v4 \<and> flagwantup v4) \<or> (w = Main \<and> flagstatus v4 = svstatus_starting)
            then (if \<not> flagexit s4 then trystart w s4 else s4)
            else if flagstatus v4 \<noteq> svstatus_failed then trystop w s4 else s4))"
proof -
  define ws where "ws = wstat_slot s"
  define crashed where "crashed = (wait_crashed ws \<noteq> 0)"
  define s1 where "s1 = upd_svc w (\<lambda>v. v\<lparr>pid := 0\<rparr>) s"
  define s2 where "s2 = (if (w = Main \<and> flagstatus (svc_of w s1) = svstatus_starting \<and>
                              (crashed \<or> wait_exitcode ws \<noteq> 0))
                           \<or> (\<not> crashed \<and> wait_exitcode ws = 100)
                then upd_svc w (\<lambda>v. v\<lparr>flagwantup := False, flagstatus := svstatus_failed\<rparr>) s1
                else if w = Main \<and> flagstatus (svc_of w s1) = svstatus_starting then s1
                else if \<not> flagwant (svc_of w s1) \<or> \<not> flagwantup (svc_of w s1)
                then upd_svc w (\<lambda>v. v\<lparr>flagstatus := svstatus_stopped\<rparr>) s1
                else s1)"
  have "children s2 = children s \<and> trace s2 = trace s \<and> nextpid s2 = nextpid s \<and>
        flagexit s2 = flagexit s \<and> dirents s2 = dirents s \<and>
        pid (svcmain s2) = (if w = Main then 0 else pid (svcmain s)) \<and>
        pid (svclog s2) = (if w = Log then 0 else pid (svclog s))"
    by (cases w) (simp_all add: s2_def s1_def)
  moreover have "reaper_exit w p s =
     (let s4 = (pidchange w (Some (if crashed then ''killed'' else ''exit''))
                 (int (if crashed then wait_stopsig ws else wait_exitcode ws)) p s2)\<lparr>firstrun := False\<rparr>;
          v4 = svc_of w s4
      in if (flagwant v4 \<and> flagwantup v4) \<or> (w = Main \<and> flagstatus v4 = svstatus_starting)
         then (if \<not> flagexit s4 then trystart w s4 else s4)
         else if flagstatus v4 \<noteq> svstatus_failed then trystop w s4 else s4)"
    unfolding reaper_exit_def Let_def s2_def s1_def crashed_def ws_def by (rule refl)
  ultimately show ?thesis unfolding Let_def by blast
qed

text \<open>
  While exiting and without an executable \<open>stop\<close> script, handling an exit
  clears the service's pid for good: nothing is restarted, \<open>trystop\<close> only
  marks the service stopped, and the only child forked is \<open>./notify\<close>.
\<close>

lemma reaper_exit_exiting:
  assumes "flagexit s" and "stat_isexec (dirents s) ''stop'' \<noteq> 1"
  shows "pid (svcmain (reaper_exit w p s)) = (if w = Main then 0 else pid (svcmain s)) \<and>
         pid (svclog (reaper_exit w p s)) = (if w = Log then 0 else pid (svclog s)) \<and>
         flagexit (reaper_exit w p s) \<and>
         (\<exists>es. trace (reaper_exit w p s) = trace s @ es \<and> notify_only es) \<and>
         set (children (reaper_exit w p s)) \<subseteq>
           set (children s) \<union> {x. nextpid s \<le> cpid x \<and> cexit x = None}"
proof -
  obtain s2 nm c where s2: "children s2 = children s" "trace s2 = trace s" "nextpid s2 = nextpid s"
      "flagexit s2 = flagexit s" "dirents s2 = dirents s"
      "pid (svcmain s2) = (if w = Main then 0 else pid (svcmain s))"
      "pid (svclog s2) = (if w = Log then 0 else pid (svclog s))"
    and e: "let s4 = (pidchange w (Some nm) c p s2)\<lparr>firstrun := False\<rparr>; v4 = svc_of w s4
            in reaper_exit w p s =
              (if (flagwant v4 \<and> flagwantup v4) \<or> (w = Main \<and> flagstatus v4 = svstatus_starting)
               then (if \<not> flagexit s4 then trystart w s4 else s4)
               else if flagstatus v4 \<noteq> svstatus_failed then trystop w s4 else s4)"
    using reaper_exit_shape [of s w p] by blast
  define s4 where "s4 = (pidchange w (Some nm) c p s2)\<lparr>firstrun := False\<rparr>"
  have f4: "flagexit s4" "stat_isexec (dirents s4) ''stop'' \<noteq> 1"
    using assms s2(4,5) by (simp_all add: s4_def)
  have r: "reaper_exit w p s = s4 \<or>
           reaper_exit w p s = announce (upd_svc w (\<lambda>v. v\<lparr>ranstop := True, flagstatus := svstatus_stopped\<rparr>) s4)"
    using e f4 by (auto simp: Let_def s4_def [symmetric] trystop_def)
  have p4: "pid (svcmain s4) = pid (svcmain s2)" "pid (svclog s4) = pid (svclog s2)"
    by (simp_all add: s4_def)
  obtain es where t4: "trace s4 = trace s @ es" "notify_only es"
    using pidchange_trace [of w "Some nm" c p s2] s2(2) by (auto simp: s4_def)
  have c4: "set (children s4) \<subseteq> set (children s) \<union> {x. nextpid s \<le> cpid x \<and> cexit x = None}"
    using pidchange_children_new [of w "Some nm" c p s2] s2(1,3) by (simp add: s4_def)
  let ?t = "upd_svc w (\<lambda>v. v\<lparr>ranstop := True, flagstatus := svstatus_stopped\<rparr>) s4"
  have t: "pid (svcmain ?t) = pid (svcmain s4)" "pid (svclog ?t) = pid (svclog s4)"
    "trace ?t = trace s4" "children ?t = children s4" "flagexit ?t"
    using f4 by (cases w; simp)+
  obtain es' where "trace (announce ?t) = trace ?t @ es'" "notify_only es'"
    using announce_trace [of ?t] by blast
  then have "\<exists>es. trace (reaper_exit w p s) = trace s @ es \<and> notify_only es"
    using r t4 t(3) by (elim disjE) (auto intro!: exI [of _ "es @ es'"] exI [of _ es])
  then show ?thesis
    using r p4 s2(6,7) c4 t f4 by (elim disjE) auto
qed

subsection \<open>The reaper while exiting\<close>

definition exiting :: "state \<Rightarrow> bool" where
  "exiting s \<longleftrightarrow> pid_inv s \<and> own_inv s \<and> flagexit s \<and> \<not> flagorphanage s \<and> control s = [] \<and>
     stat_isexec (dirents s) ''stop'' \<noteq> 1 \<and> svc_exited s"

text \<open>With an exited child, \<open>waitpid(-1, WNOHANG)\<close> returns a pid.\<close>

lemma waitpid_zombie:
  assumes "c \<in> set (children s)" and "cexit c \<noteq> None"
  shows "\<exists>q ws s'. waitpid_slot (-1) s = (WPid q ws, s')"
proof -
  have "take_zombie (wait_selects (-1) (self_pgid s)) (children s) \<noteq> None"
    using assms by (auto simp: take_zombie_None wait_selects_def)
  then show ?thesis by (auto simp: waitpid_slot_def sys_waitpid_def)
qed

text \<open>Handling the exit of a service's process after reaping it.\<close>

lemma exiting_reaper_exit:
  assumes x: "exiting s" and w: "waitpid_slot (-1) s = (WPid q ws, s1)"
    and q: "q = pid (svc_of v s)" "q \<noteq> 0"
  shows "svc_exited (reaper_exit v q s1) \<and> flagexit (reaper_exit v q s1) \<and>
         nsvc (reaper_exit v q s1) < nsvc s \<and>
         \<not> flagorphanage (reaper_exit v q s1) \<and> control (reaper_exit v q s1) = [] \<and>
         stat_isexec (dirents (reaper_exit v q s1)) ''stop'' \<noteq> 1 \<and>
         (\<exists>es. trace (reaper_exit v q s1) = trace s @ es \<and> notify_only es)"
proof -
  have f: "s1 = s\<lparr>children := children s1, wstat_slot := wstat_slot s1\<rparr>"
    using waitpid_slot_frame [OF w] .
  have f1: "svcmain s1 = svcmain s" "svclog s1 = svclog s" "nextpid s1 = nextpid s" "flagexit s1 = flagexit s"
    "dirents s1 = dirents s" "trace s1 = trace s" "flagorphanage s1 = flagorphanage s" "control s1 = control s"
    by (subst f; simp)+
  have cs: "set (children s1) \<subseteq> set (children s)" using waitpid_slot_children [OF w] .
  have xs: "pid_inv s" "flagexit s" "\<not> flagorphanage s" "control s = []"
    "stat_isexec (dirents s) ''stop'' \<noteq> 1" "svc_exited s"
    using x by (simp_all add: exiting_def)
  let ?t = "reaper_exit v q s1"
  have r: "pid (svcmain ?t) = (if v = Main then 0 else pid (svcmain s))"
    "pid (svclog ?t) = (if v = Log then 0 else pid (svclog s))" "flagexit ?t"
    "\<exists>es. trace ?t = trace s @ es \<and> notify_only es"
    "set (children ?t) \<subseteq> set (children s1) \<union> {x. nextpid s \<le> cpid x \<and> cexit x = None}"
    using reaper_exit_exiting [of s1 v q] xs(2,5) f1 by simp_all
  have e: "flagorphanage ?t = flagorphanage s1" "control ?t = control s1" "dirents ?t = dirents s1"
    using reaper_exit_env [of s1 v q] by (simp_all add: same_env_def)
  have pi: "0 \<le> pid (svcmain s)" "pid (svcmain s) < nextpid s" "0 \<le> pid (svclog s)" "pid (svclog s) < nextpid s"
    "\<forall>c \<in> set (children s). 0 < cpid c"
    using xs(1) by (auto simp: pid_inv_def pids_ok_def)
  have "svc_exited ?t"
    unfolding svc_exited_iff
  proof
    fix c assume c: "c \<in> set (children ?t)"
    show "cpid c = pid (svcmain ?t) \<or> cpid c = pid (svclog ?t) \<longrightarrow> cexit c \<noteq> None"
    proof (cases "c \<in> set (children s)")
      case True
      then show ?thesis using xs(6) pi(5) r(1,2) by (cases v) (auto simp: svc_exited_iff)
    next
      case False
      then have "nextpid s \<le> cpid c" using c r(5) cs by auto
      then show ?thesis using pi r(1,2) by (cases v) auto
    qed
  qed
  moreover have "nsvc ?t < nsvc s" using r(1,2) q by (cases v) (auto simp: nsvc_def)
  ultimately show ?thesis using r(3,4) e f1 xs by simp
qed

text \<open>
  One pass of the reaper of an exiting supervisor with a service process left:
  it either reaps a child of no service and continues, or handles a service's
  exit and stops, with one service process fewer.
\<close>

lemma exiting_reaper_step:
  assumes x: "exiting s" and n: "0 < nsvc s"
  shows "(\<exists>t. reaper_step s = Continue t \<and> exiting t \<and> nsvc t = nsvc s \<and> trace t = trace s \<and>
              zombies (children t) < zombies (children s)) \<or>
         (\<exists>t es. reaper_step s = Break t \<and> exiting t \<and> nsvc t < nsvc s \<and>
              trace t = trace s @ es \<and> notify_only es)"
proof -
  have xs: "pid_inv s" "own_inv s" "\<not> flagorphanage s" "svc_exited s"
    using x by (simp_all add: exiting_def)
  then have st: "flagstatus (svcmain s) \<noteq> svstatus_orphanage"
    by (simp add: own_inv_def owns_ok_def)
  obtain v where v: "pid (svc_of v s) \<noteq> 0"
    using n by (auto simp: nsvc_def split: if_splits intro: that [of Main] that [of Log])
  then have "pid (svc_of v s) \<in> cpid ` set (children s)"
    using xs(2,3) by (cases v) (auto simp: own_inv_def owns_ok_def)
  then obtain c where c: "c \<in> set (children s)" "cpid c = pid (svc_of v s)" by auto
  then have "cexit c \<noteq> None" using xs(4) by (cases v) (auto simp: svc_exited_iff)
  then obtain q ws s1 where w1: "waitpid_slot (-1) s = (WPid q ws, s1)"
    using waitpid_zombie [OF c(1)] by blast
  have f: "s1 = s\<lparr>children := children s1, wstat_slot := wstat_slot s1\<rparr>"
    using waitpid_slot_frame [OF w1] .
  have f1: "svcmain s1 = svcmain s" "svclog s1 = svclog s" "flagorphanage s1 = flagorphanage s"
    "trace s1 = trace s" "dirents s1 = dirents s" "control s1 = control s" "flagexit s1 = flagexit s"
    by (subst f; simp)+
  have "q \<in> cpid ` set (children s)" using waitpid_slot_cpids [OF w1] by blast
  then have q0: "0 < q" using xs(1) by (auto simp: pid_inv_def pids_ok_def)
  have eq: "reaper_step s =
              (if q = pid (svcmain s1) then Break (reaper_exit Main q s1)
               else if q = pid (svclog s1) then Break (reaper_exit Log q s1)
               else Continue s1)"
    using st w1 q0 xs(3) f1 by (simp add: reaper_step_def wait_ret_def)
  have inv: "pid_inv (step_state (reaper_step s))" "own_inv (step_state (reaper_step s))"
    using pid_inv_reaper_step [OF xs(1)] own_inv_reaper_step [OF xs(1,2)] by simp_all
  show ?thesis
  proof (cases "q = pid (svcmain s) \<or> q = pid (svclog s)")
    case True
    then obtain u where u: "q = pid (svc_of u s)" "reaper_step s = Break (reaper_exit u q s1)"
      using eq f1 by (cases "q = pid (svcmain s)") (auto intro: that [of Main] that [of Log])
    then show ?thesis
      using exiting_reaper_exit [OF x w1 u(1)] q0 inv by (auto simp: exiting_def step_state_def)
  next
    case False
    then have r: "reaper_step s = Continue s1" using eq f1 by simp
    have "svc_exited s1"
      using xs(4) waitpid_slot_children [OF w1] f1 by (auto simp: svc_exited_iff)
    moreover have "zombies (children s1) < zombies (children s)" using waitpid_slot_dec [OF w1] .
    ultimately show ?thesis
      using r inv x f1 by (auto simp: exiting_def step_state_def nsvc_def)
  qed
qed

lemma exiting_reaper_loop:
  assumes "exiting s" and "0 < nsvc s"
  shows "\<exists>t es. reaper_loop s = Some t \<and> exiting t \<and> nsvc t < nsvc s \<and>
                trace t = trace s @ es \<and> notify_only es"
  using assms
proof (induction "zombies (children s)" arbitrary: s rule: less_induct)
  case less
  from exiting_reaper_step [OF less.prems] show ?case
  proof (elim disjE exE conjE)
    fix t assume c: "reaper_step s = Continue t" "exiting t" "nsvc t = nsvc s" "trace t = trace s"
      "zombies (children t) < zombies (children s)"
    then obtain u es where "reaper_loop t = Some u" "exiting u" "nsvc u < nsvc t"
        "trace u = trace t @ es" "notify_only es"
      using less.hyps [of t] less.prems(2) by auto
    then show ?thesis using c by (auto simp: reaper_loop.simps [of s])
  next
    fix t es assume "reaper_step s = Break t" "exiting t" "nsvc t < nsvc s"
      "trace t = trace s @ es" "notify_only es"
    then show ?thesis by (auto simp: reaper_loop.simps [of s])
  qed
qed

subsection \<open>Iterations of an exiting supervisor\<close>

lemma exiting_doit_iter:
  assumes x: "exiting s" and n: "0 < nsvc s"
  shows "\<exists>s' es. doit_iter s = Some s' \<and> exiting s' \<and> nsvc s' < nsvc s \<and>
                 trace s' = trace s @ es \<and> notify_only es"
proof -
  have "exiting (s\<lparr>selfpipe := 0\<rparr>)" "nsvc (s\<lparr>selfpipe := 0\<rparr>) = nsvc s"
    using x by (simp_all add: exiting_def inv_frame own_frame svc_exited_def nsvc_def)
  then obtain t es1 where t: "reaper_loop (s\<lparr>selfpipe := 0\<rparr>) = Some t" "exiting t" "nsvc t < nsvc s"
      "trace t = trace s @ es1" "notify_only es1"
    using exiting_reaper_loop [of "s\<lparr>selfpipe := 0\<rparr>"] n by auto
  define k where "k = kill_on_unlink t"
  have k: "svcmain k = svcmain t" "svclog k = svclog t" "children k = children t" "control k = []"
    "flagexit k" "\<not> flagorphanage k" "dirents k = dirents t"
    "\<exists>es. trace k = trace t @ es \<and> notify_only es"
    using t(2) by (auto simp: k_def kill_on_unlink_def sys_kill_def Let_def exiting_def notify_only_def)
  have c: "controller k = k" using k(4) by (simp add: controller_def)
  define s' where "s' = stop_log_on_exit k"
  have s': "pid (svcmain s') = pid (svcmain t)" "pid (svclog s') = pid (svclog t)"
    "children s' = children t" "control s' = []" "flagexit s'" "\<not> flagorphanage s'" "dirents s' = dirents t"
    "\<exists>es. trace s' = trace k @ es \<and> notify_only es"
    using k by (auto simp: s'_def stop_log_on_exit_def stopsvc_def killsvc_def sys_kill_def Let_def
                           notify_only_def)
  have d: "doit_iter s = Some s'" using t(1) c by (simp add: doit_iter_def k_def s'_def)
  have "pid_inv s'" "own_inv s'"
    using pid_inv_doit_iter [OF _ d] own_inv_doit_iter [OF _ _ d] x by (auto simp: exiting_def)
  then have "exiting s'" "nsvc s' = nsvc t"
    using s' t(2) by (simp_all add: exiting_def svc_exited_def nsvc_def)
  then show ?thesis using d t(3-5) k(8) s'(8) by fastforce
qed

lemma exiting_finishes:
  "exiting s \<Longrightarrow> \<exists>s' es. rtranclp sys_step s s' \<and> doit_done s' \<and> trace s' = trace s @ es \<and> notify_only es"
proof (induction "nsvc s" arbitrary: s rule: less_induct)
  case less
  show ?case
  proof (cases "nsvc s = 0")
    case True
    then have "doit_done s" using less.prems by (auto simp: doit_done_def exiting_def nsvc_def split: if_splits)
    then show ?thesis by (intro exI [of _ s] exI [of _ "[]"]) simp
  next
    case False
    then obtain s1 es1 where s1: "doit_iter s = Some s1" "exiting s1" "nsvc s1 < nsvc s"
        "trace s1 = trace s @ es1" "notify_only es1"
      using exiting_doit_iter [OF less.prems] by blast
    have "\<not> doit_done s" using False by (auto simp: doit_done_def nsvc_def)
    then have "sys_step s s1" using s1(1) by (rule sys_step.iter)
    moreover obtain s2 es2 where "rtranclp sys_step s1 s2" "doit_done s2" "trace s2 = trace s1 @ es2"
        "notify_only es2"
      using less.hyps [OF s1(3,2)] by blast
    ultimately show ?thesis using s1(4,5)
      by (intro exI [of _ s2] exI [of _ "es1 @ es2"]) (simp add: converse_rtranclp_into_rtranclp)
  qed
qed

subsection \<open>An exiting supervisor finishes\<close>

text \<open>
  C38. From a reachable state in which the supervisor is exiting, outside
  orphanage mode, with no command queued and no executable \<open>stop\<close> script, once
  the processes of both services have exited, iterations of the loop alone reach
  its exit test; on the way they fork nothing but \<open>./notify\<close>, so no service is
  restarted.
\<close>

theorem reachable_exiting_finishes:
  assumes "reachable s" and "flagexit s" and "\<not> flagorphanage s" and "control s = []"
    and "stat_isexec (dirents s) ''stop'' \<noteq> 1"
    and "list_all (\<lambda>c. cexit c \<noteq> None)
           (filter (\<lambda>c. cpid c \<in> {pid (svcmain s), pid (svclog s)}) (children s))"
  shows "\<exists>s' es. rtranclp sys_step s s' \<and> doit_done s' \<and> trace s' = trace s @ es \<and>
                 list_all (\<lambda>x. hd (snd x) = Some ''./notify'') (forks es)"
proof -
  have "exiting s"
    using assms pid_inv_reachable [OF assms(1)] own_inv_reachable [OF assms(1)]
    by (simp add: exiting_def svc_exited_def)
  then show ?thesis using exiting_finishes by (simp add: notify_only_def)
qed

end
