(* ===== verification/Spec2Isabelle.thy ===== *)
theory Spec2Isabelle
  imports Log_Status Controller_Refinement Shutdown
begin

text \<open>
  \<^bold>\<open>A verification model of supervise.c (daemontools-encore).\<close>

  \<open>supervise\<close> keeps one service running from a directory: it runs \<open>./start\<close>
  once then \<open>./run\<close> (the main service) and, when \<open>./log\<close> is executable, a log
  service fed through a pipe; it restarts them as they exit, obeys one-byte
  commands written to the FIFO \<open>supervise/control\<close>, runs \<open>./stop\<close> and
  \<open>./notify\<close> on the way, and publishes a 20- or 40-byte record in
  \<open>supervise/status\<close>. The program is single-threaded: signal handlers only write
  the self-pipe (and \<open>SIGTERM\<close>/\<open>SIGTSTP\<close>/\<open>SIGCONT\<close> a command byte), and
  all state changes happen in \<open>doit\<close> after \<open>iopause\<close> returns.

  \<^bold>\<open>Theories and what they model\<close> (all line numbers are of src/supervise.c).
  \<^item> \<open>Supervise_Base\<close>: signal numbers, \<open>stat\<close> results of the directory with
    \<open>stat_isexec\<close>/\<open>stat_exists\<close> (lines 57--71), the \<open>wait.h\<close> macros,
    \<open>fmt_uint\<close>, \<open>enum svstatus\<close>, \<open>struct taia\<close>, \<open>struct svc\<close> (lines 29--38),
    big-endian packing.
  \<^item> \<open>Kernel\<close>: the operating system the code calls, as an explicit state: the
    children (running, or exited and not reaped), the pid allocator, the process
    limit at which \<open>fork\<close> fails, the status file (which may accept a short
    write), the control FIFO and its link count, the self-pipe, and a trace of
    observable calls (forks with their argument vectors, signals, sleeps, status
    writes, warnings). \<open>waitpid\<close> with \<open>WNOHANG\<close> reaps the oldest exited child
    the pid argument selects.
  \<^item> \<open>Status_Record\<close>: \<open>make_status\<close> (lines 143--159) byte for byte, with the pid
    as a 64-bit \<open>unsigned long\<close> truncated bytewise, and a decoder.
  \<^item> \<open>Supervisor\<close>: the globals (lines 29--55) as the record \<open>supervisor\<close>
    extending \<open>kernel\<close>; \<open>which\<close> stands for a \<open>struct svc *\<close>. The reaper's
    local \<open>wstat\<close> is the field \<open>wstat_slot\<close>, because the code reads it
    uninitialised on one path.
  \<^item> \<open>Launcher\<close>: the signal handlers (lines 78--107) and \<open>forkexecve\<close>
    (109--141): fork failure warns, sleeps 60 s, writes the self-pipe and returns
    -1; the child calls \<open>setsid\<close> unless \<open>no-setsid\<close> exists and takes the log
    pipe on its \<open>fd\<close> when there is one.
  \<^item> \<open>Publish\<close>: \<open>announce\<close>, \<open>notify\<close>, \<open>pidchange\<close> (161--208).
  \<^item> \<open>Service\<close>: \<open>trystart\<close>, \<open>trystop\<close>, \<open>killsvc\<close>, \<open>stopsvc\<close> (210--274).
  \<^item> \<open>Reaper\<close>: \<open>reaper\<close> (276--326), its loop body \<open>reaper_step\<close> (one
    \<open>continue\<close>/\<open>break\<close> pass) and the exit classification \<open>reaper_exit\<close>.
  \<^item> \<open>Control_Commands\<close>, \<open>Controller\<close>: the \<open>switch\<close> of \<open>controller\<close>
    (335--395) and its read loop (328--334).
  \<^item> \<open>Controller_Refinement\<close>: an abstract specification of the commands
    that change what is wanted (\<open>want_cmd\<close>, \<open>want_pass\<close>: the selected service
    and, per service, wanted and wanted up) and the abstraction \<open>wants_of\<close> of
    the supervisor state into it.
  \<^item> \<open>Startup\<close>: \<open>main\<close> (448--535) as \<open>supervise_main\<close>: the argument check
    and every fatal exit of start-up as a value of \<open>fatal\<close> with its exit status,
    the decisions on \<open>orphanage\<close>, \<open>log\<close> and \<open>down\<close> (\<open>main_dirs\<close>, 486--503),
    the first publication and the first starts (\<open>start_both\<close>, 533--534). The
    outcome of each system call start-up makes (self-pipe, \<open>chdir\<close>, path
    building and the memory for each of the five paths at lines 476, 480, 506,
    512 and 527, \<open>mkdir\<close>, lock, subreaper, log pipe, opening the status file
    and the FIFO, reading \<open>supervise/ok\<close>) is an input, the record
    \<open>setup_io\<close>; \<open>main_open\<close> empties the status file as \<open>open_trunc\<close> does.
  \<^item> \<open>Event_Loop\<close>: one iteration of \<open>doit\<close> (398--446), the environment
    steps that happen while \<open>doit\<close> is parked in \<open>iopause\<close>, and the reachable
    states: a successful \<open>supervise_main\<close> followed by the \<open>announce\<close> at the
    top of \<open>doit\<close>, then any interleaving of environment steps and loop iterations.
  \<^item> \<open>Invariant\<close>: the pid invariant of reachable states and the progress of the
    loop.
  \<^item> \<open>Ownership\<close>: the ownership invariant outside orphanage mode (a non-zero
    service pid is a child not yet reaped), preserved by every operation.
  \<^item> \<open>Log_Status\<close>: the statuses the log service can take, an invariant of
    every reachable state; a fixpoint-induction rule for properties kept by each
    pass of the reaper.
  \<^item> \<open>Iteration\<close>: the stages of one iteration on a quiet state: the
    iteration after the control FIFO is unlinked, and a \<open>SIGTERM\<close> delivered
    during \<open>iopause\<close> followed by the next iteration.
  \<^item> \<open>Shutdown\<close>: the iterations of an exiting supervisor, which reap the
    services' processes one per iteration without restarting them until the
    loop's exit test holds; the measure is the number of services with a process.

  \<^bold>\<open>Loops.\<close> The reaper's \<open>for (;;)\<close> is a \<open>partial_function (option)\<close>: it
  diverges when the main service is orphaned and its pid is \<open>-1\<close>
  (\<open>waitpid(1, ...)\<close> then fails forever). Its termination is proved as such
  (\<open>Reaper.reaper_loop_returns\<close>) by induction on the number of exited,
  unreaped children, which every \<open>continue\<close> decreases. The controller's loop is
  a \<open>function\<close> whose measure is the number of bytes in the FIFO: no command
  writes to it. No fuel is used.

  \<^bold>\<open>What is proved.\<close> The round trip of the status record (C3) and that the
  code's shifts write the pid's little-endian bytes (C31); publication of the
  new pid after a start (C4); the classification of exits in the reaper (C1,
  C21, C22, C29, C30), the termination of the reaper (C2) and of every loop
  iteration from a reachable state (C26); the commands \<open>u d p c x\<close>, the signal
  letters and the command alphabet (C5, C6, C14, C15, C18, C19, C27, C28), and
  that the controller refines the abstract command semantics on wants (C32);
  stopping (C11, C13); the iteration after the control FIFO is unlinked (C7);
  start-up, its fatal exits and its first starts (C23, C24, C33, C34); a pid
  invariant of every reachable state, including that main and log never share a
  pid (C25), the ownership invariant (C35) and the log service's statuses (C36);
  a termination signal carried through the handler, the FIFO and one iteration
  (C37); and that an exiting supervisor whose services' processes have exited
  reaches its exit test by iterations alone, restarting nothing (C38). Several theorems record behaviour that departs from the
  specification or from what the code means: the code passed to
  \<open>./notify\<close> for a killed service is always 0 (C8); with no children the
  reaper reports a phantom exit of the main service with pid \<open>-1\<close> and a null
  script name (C9); a failed fork leaves the service marked running without a
  process (C10); \<open>./stop\<close> is notified as \<open>start\<close> (C12); \<open>L u\<close> starts
  \<open>./log\<close> without a log service (C16); \<open>d\<close> on an orphaned service signals
  nothing (C17); \<open>p\<close> without a process sets paused (C20).

  \<^bold>\<open>Not modelled.\<close> The system calls of start-up are inputs (\<open>setup_io\<close>),
  not models of \<open>lock\<close>, \<open>svpath\<close>, \<open>fifo\<close>, \<open>subreaper\<close>, \<open>ndelay\<close> or
  \<open>closeonexec\<close>, whose sources are not part of src/; the warnings start-up
  writes are not in the trace. Signal dispositions, descriptor flags and
  \<open>iopause\<close> with its 10-second deadline are not modelled: \<open>iopause\<close> is the
  point where environment steps occur, and the handlers' effects are environment
  steps between iterations, never in the middle of one; \<open>taia_now\<close> reads the
  kernel clock. The seek before the status write and the \<open>fstat\<close> of the control
  FIFO are not modelled as failing, and pipe capacity is not modelled. The \<open>execve\<close> itself is not modelled: a failed \<open>execve\<close> is an exit
  of the child with status 111, an environment step. The numeric order of
  \<open>enum svstatus\<close> is taken from the specification's list, since svstatus.h is
  not part of the sources.
\<close>

section \<open>Example states\<close>

definition ex_dir :: svdir where
  "ex_dir p = (if p = ''run'' \<or> p = ''notify'' then Stat True True else Noent)"

definition ex_kernel :: kernel where
  "ex_kernel =
     \<lparr>children = [], nextpid = 100, nproc_max = 16, self_pgid = 1, clock = taia_zero,
      dirents = ex_dir, statusfile = [], status_room = 40, control = [], control_nlink = 1,
      selfpipe = 0, trace = []\<rparr>"

text \<open>Main service running \<open>./run\<close> as pid 100, no log service.\<close>

definition ex_running :: state where
  "ex_running =
     (init_state ex_kernel)\<lparr>
        children := [\<lparr>cpid = 100, cpgid = 100, cargv = [Some ''./run''], credir = None,
                      cexit = None\<rparr>],
        nextpid := 101, firstrun := False, runscript := Some ''./run'',
        svcmain := svcmain_init\<lparr>pid := 100, flagstatus := svstatus_running\<rparr>\<rparr>"

text \<open>The same, after pid 100 has exited with status \<open>ws\<close> and not yet been reaped.\<close>

definition ex_exited :: "wstat \<Rightarrow> state" where
  "ex_exited ws =
     ex_running\<lparr>children := [(hd (children ex_running))\<lparr>cexit := Some ws\<rparr>], wstat_slot := ws\<rparr>"

text \<open>Main running as pid 100 and log running as pid 101 with the log pipe.\<close>

definition ex_with_log :: state where
  "ex_with_log =
     ex_running\<lparr>
        children := children ex_running @
          [\<lparr>cpid = 101, cpgid = 101, cargv = [Some ''./log''], credir = Some 0, cexit = None\<rparr>],
        nextpid := 102, haslog := True,
        svclog := svclog_init\<lparr>pid := 101, flagstatus := svstatus_running, flagwantup := True\<rparr>\<rparr>"

text \<open>The same directory with an executable \<open>stop\<close> script.\<close>

definition ex_stop_dir :: svdir where
  "ex_stop_dir = ex_dir(''stop'' := Stat True True)"

text \<open>An empty service directory.\<close>

definition ex_empty_dir :: svdir where
  "ex_empty_dir p = Noent"

text \<open>\<open>./start\<close> (pid 100) has exited 0 while the main service is starting.\<close>

definition ex_starting :: state where
  "ex_starting = (ex_exited (exited 0))\<lparr>svcmain := (svcmain ex_running)\<lparr>flagstatus := svstatus_starting\<rparr>\<rparr>"

text \<open>A directory whose \<open>orphanage\<close> cannot be \<open>stat\<close>ed and which has a \<open>log\<close> script,
  and a kernel whose directory has a \<open>down\<close> file.\<close>

definition ex_orphan_log_dir :: svdir where
  "ex_orphan_log_dir = ex_dir(''orphanage'' := StatErr, ''log'' := Stat True True)"

definition ex_down_kernel :: kernel where
  "ex_down_kernel = ex_kernel\<lparr>dirents := ex_dir(''down'' := Stat False False)\<rparr>"

text \<open>A run-once main service whose process has exited 0, and the same exit of
  pid 100 under orphanage mode.\<close>

definition ex_once :: state where
  "ex_once = (ex_exited (exited 0))\<lparr>svcmain := (svcmain ex_running)\<lparr>flagwant := False\<rparr>\<rparr>"

definition ex_orphan :: state where
  "ex_orphan = (ex_exited (exited 0))\<lparr>flagorphanage := True\<rparr>"

text \<open>Start-up in which every resource is obtained, and the command line
  \<open>supervise svc\<close>.\<close>

definition ex_io :: setup_io where
  "ex_io = \<lparr>io_selfpipe = True, io_chdir = True, io_svpath = True, io_mem_dir = True,
            io_mkdir = Mkdir_exists, io_mem_lock = True, io_lock = True, io_subreaper = True,
            io_logpipe = True, io_mem_status = True, io_status = True, io_mem_control = True,
            io_control_read = True, io_control_write = True, io_mem_ok = True, io_ok = True\<rparr>"

definition ex_argv :: "string list" where
  "ex_argv = [''supervise'', ''svc'']"

section \<open>Witnesses\<close>

theorem reaper_exit_code_100_witness:
  "wait_crashed (wstat_slot (ex_exited (exited 100))) = 0 \<and>
   wait_exitcode (wstat_slot (ex_exited (exited 100))) = 100 \<and>
   pid (svc_of Main (reaper_exit Main 100 (ex_exited (exited 100)))) = 0 \<and>
   flagstatus (svc_of Main (reaper_exit Main 100 (ex_exited (exited 100)))) = svstatus_failed \<and>
   \<not> flagwantup (svc_of Main (reaper_exit Main 100 (ex_exited (exited 100))))"
proof -
  have h: "wait_crashed (wstat_slot (ex_exited (exited 100))) = 0"
          "wait_exitcode (wstat_slot (ex_exited (exited 100))) = 100"
    by (simp_all add: ex_exited_def)
  show ?thesis using h Reaper.reaper_exit_code_100 [OF h, of Main 100] by blast
qed

theorem reaper_loop_returns_witness:
  "pid (svcmain (ex_exited (exited 0))) \<noteq> -1 \<and> (\<exists>s'. reaper_loop (ex_exited (exited 0)) = Some s')"
proof -
  have h: "pid (svcmain (ex_exited (exited 0))) \<noteq> -1"
    by (simp add: ex_exited_def ex_running_def)
  show ?thesis using h Reaper.reaper_loop_returns [OF h] by blast
qed

theorem make_status_roundtrip_witness:
  "- (2 ^ 31) \<le> pid (svcmain ex_running) \<and> pid (svcmain ex_running) < 2 ^ 31 \<and>
   decode_status (make_status (svcmain ex_running)) = Some (view_of_svc (svcmain ex_running))"
proof -
  have h: "- (2 ^ 31) \<le> pid (svcmain ex_running)" "pid (svcmain ex_running) < 2 ^ 31"
    by (simp_all add: ex_running_def)
  show ?thesis using h Status_Record.make_status_roundtrip [OF h] by blast
qed

theorem trystart_publishes_pid_witness:
  "length (children (init_state ex_kernel)) < nproc_max (init_state ex_kernel) \<and>
   0 < nextpid (init_state ex_kernel) \<and> nextpid (init_state ex_kernel) < 2 ^ 31 \<and>
   40 \<le> status_room (init_state ex_kernel) \<and>
   stat_exists (dirents (init_state ex_kernel)) ''run'' = 1 \<and>
   pid (svc_of Main (trystart Main (init_state ex_kernel))) = 100 \<and>
   \<not> flagpaused (svc_of Main (trystart Main (init_state ex_kernel))) \<and>
   (\<exists>v. decode_status (status_record Main (statusfile (trystart Main (init_state ex_kernel)))) = Some v \<and>
        sv_pid v = 100 \<and> \<not> sv_paused v)"
proof -
  have h: "length (children (init_state ex_kernel)) < nproc_max (init_state ex_kernel)"
     "0 < nextpid (init_state ex_kernel)" "nextpid (init_state ex_kernel) < 2 ^ 31"
     "40 \<le> status_room (init_state ex_kernel)"
     "Main = Main \<and> stat_exists (dirents (init_state ex_kernel)) ''run'' = 1 \<or>
      Main = Log \<and> haslog (init_state ex_kernel)"
    by (simp_all add: init_state_def ex_kernel_def stat_exists_def ex_dir_def)
  have n: "nextpid ex_kernel = 100" by (simp add: ex_kernel_def)
  show ?thesis using h Service.trystart_publishes_pid [OF h] by (simp add: n)
qed

theorem controller_pause_continue_witness:
  "control (ex_running\<lparr>control := ''pc''\<rparr>) = ''pc'' \<and>
   \<not> flagpaused (svcmain (controller (ex_running\<lparr>control := ''pc''\<rparr>))) \<and>
   pid (svcmain (controller (ex_running\<lparr>control := ''pc''\<rparr>))) = 100 \<and>
   kills (trace (controller (ex_running\<lparr>control := ''pc''\<rparr>))) = [(100, SIGSTOP), (100, SIGCONT)]"
proof -
  have h: "control (ex_running\<lparr>control := ''pc''\<rparr>) = ''pc''"
     "pid (svcmain (ex_running\<lparr>control := ''pc''\<rparr>)) \<noteq> 0"
     "flagstatus (svcmain (ex_running\<lparr>control := ''pc''\<rparr>)) \<noteq> svstatus_orphanage"
    by (simp_all add: ex_running_def)
  have t: "trace (ex_running\<lparr>control := ''pc''\<rparr>) = []" "pid (svcmain ex_running) = 100"
    by (simp_all add: ex_running_def init_state_def ex_kernel_def)
  show ?thesis using h Controller.controller_pause_continue [OF h] by (simp add: t)
qed

theorem controller_up_down_last_witness:
  "control (ex_running\<lparr>control := ''dud''\<rparr>) = ''dud'' \<and>
   stat_exists (dirents (ex_running\<lparr>control := ''dud''\<rparr>)) ''run'' \<noteq> 0 \<and>
   flagwant (svcmain (controller (ex_running\<lparr>control := ''dud''\<rparr>))) \<and>
   \<not> flagwantup (svcmain (controller (ex_running\<lparr>control := ''dud''\<rparr>)))"
proof -
  have h: "control (ex_running\<lparr>control := ''dud''\<rparr>) = ''dud''" "''dud'' \<noteq> []"
     "set ''dud'' \<subseteq> {CHR ''u'', CHR ''d''}"
     "stat_exists (dirents (ex_running\<lparr>control := ''dud''\<rparr>)) ''run'' \<noteq> 0"
    by (simp_all add: ex_running_def init_state_def ex_kernel_def stat_exists_def ex_dir_def)
  show ?thesis using h Controller.controller_up_down_last [OF h] by simp
qed

theorem unlink_iteration_kills_groups_witness:
  "control_nlink (ex_with_log\<lparr>control_nlink := 0\<rparr>) = 0 \<and>
   flagstatus (svcmain (ex_with_log\<lparr>control_nlink := 0\<rparr>)) \<noteq> svstatus_orphanage \<and>
   children (ex_with_log\<lparr>control_nlink := 0\<rparr>) \<noteq> [] \<and>
   list_all (\<lambda>c. cexit c = None) (children (ex_with_log\<lparr>control_nlink := 0\<rparr>)) \<and>
   \<not> flagexit (ex_with_log\<lparr>control_nlink := 0\<rparr>) \<and>
   (\<exists>s' es. sys_step (ex_with_log\<lparr>control_nlink := 0\<rparr>) s' \<and>
       doit_iter (ex_with_log\<lparr>control_nlink := 0\<rparr>) = Some s' \<and>
       kills (trace s') = [(-100, SIGKILL), (-101, SIGKILL)] @ es \<and> flagexit s')"
proof -
  have h: "control_nlink (ex_with_log\<lparr>control_nlink := 0\<rparr>) = 0"
    "flagstatus (svcmain (ex_with_log\<lparr>control_nlink := 0\<rparr>)) \<noteq> svstatus_orphanage"
    "children (ex_with_log\<lparr>control_nlink := 0\<rparr>) \<noteq> []"
    "list_all (\<lambda>c. cexit c = None) (children (ex_with_log\<lparr>control_nlink := 0\<rparr>))"
    "\<not> flagexit (ex_with_log\<lparr>control_nlink := 0\<rparr>)"
    by (simp_all add: ex_with_log_def ex_running_def init_state_def ex_kernel_def svcmain_init_def)
  have t: "trace (ex_with_log\<lparr>control_nlink := 0\<rparr>) = []"
    "pid (svcmain ex_with_log) = 100" "pid (svclog ex_with_log) = 101"
    by (simp_all add: ex_with_log_def ex_running_def init_state_def ex_kernel_def)
  show ?thesis using h Iteration.unlink_iteration_kills_groups [OF h] by (simp add: t)
qed

theorem reaper_killed_notify_code_zero_witness:
  "wstat_slot (ex_exited (killed_by 9)) = killed_by 9 \<and> (0::nat) < 9 \<and> (9::nat) < 128 \<and>
   stat_isexec (dirents (ex_exited (killed_by 9))) ''notify'' > 0 \<and>
   length (children (ex_exited (killed_by 9))) < nproc_max (ex_exited (killed_by 9)) \<and>
   nextpid (ex_exited (killed_by 9)) \<noteq> -1 \<and>
   (\<exists>es. forks (trace (reaper_exit Main 100 (ex_exited (killed_by 9)))) =
      (101, [Some ''./notify'', Some ''run'', Some ''killed'', Some (fmt_int_as_uint 100), Some ''0'']) # es)"
proof -
  have h: "wstat_slot (ex_exited (killed_by 9)) = killed_by 9" "(0::nat) < 9" "(9::nat) < 128"
     "stat_isexec (dirents (ex_exited (killed_by 9))) ''notify'' > 0"
     "length (children (ex_exited (killed_by 9))) < nproc_max (ex_exited (killed_by 9))"
     "nextpid (ex_exited (killed_by 9)) \<noteq> -1"
    by (simp_all add: ex_exited_def ex_running_def init_state_def ex_kernel_def stat_isexec_def ex_dir_def)
  have e: "trace (ex_exited (killed_by 9)) = []" "nextpid (ex_exited (killed_by 9)) = 101"
     "runscript (ex_exited (killed_by 9)) = Some ''./run''"
    by (simp_all add: ex_exited_def ex_running_def init_state_def ex_kernel_def)
  show ?thesis using h Reaper.reaper_killed_notify_code_zero [OF h, of Main 100] by (simp add: e)
qed

theorem reaper_no_children_phantom_exit_witness:
  "children (init_state ex_kernel) = [] \<and>
   flagstatus (svcmain (init_state ex_kernel)) \<noteq> svstatus_orphanage \<and>
   pid (svcmain (init_state ex_kernel)) \<noteq> -1 \<and>
   stat_isexec (dirents (init_state ex_kernel)) ''notify'' > 0 \<and>
   0 < nproc_max (init_state ex_kernel) \<and> nextpid (init_state ex_kernel) \<noteq> -1 \<and>
   (\<exists>s' n c es. reaper_loop (init_state ex_kernel) = Some s' \<and>
      forks (trace s') = (100, [Some ''./notify'', None, Some n, Some ''4294967295'', Some c]) # es)"
proof -
  have h: "children (init_state ex_kernel) = []"
     "flagstatus (svcmain (init_state ex_kernel)) \<noteq> svstatus_orphanage"
     "pid (svcmain (init_state ex_kernel)) \<noteq> -1"
     "stat_isexec (dirents (init_state ex_kernel)) ''notify'' > 0"
     "0 < nproc_max (init_state ex_kernel)" "nextpid (init_state ex_kernel) \<noteq> -1"
    by (simp_all add: init_state_def ex_kernel_def stat_isexec_def ex_dir_def svcmain_init_def)
  have e: "trace (init_state ex_kernel) = []" "nextpid ex_kernel = 100"
    by (simp_all add: init_state_def ex_kernel_def)
  show ?thesis using h Reaper.reaper_no_children_phantom_exit [OF h] by (simp add: e)
qed

theorem trystart_fork_failure_running_without_pid_witness:
  "nproc_max ((init_state ex_kernel)\<lparr>nproc_max := 0, firstrun := False\<rparr>) \<le>
     length (children ((init_state ex_kernel)\<lparr>nproc_max := 0, firstrun := False\<rparr>)) \<and>
   pid (svcmain ((init_state ex_kernel)\<lparr>nproc_max := 0, firstrun := False\<rparr>)) = 0 \<and>
   \<not> firstrun ((init_state ex_kernel)\<lparr>nproc_max := 0, firstrun := False\<rparr>) \<and>
   stat_exists (dirents ((init_state ex_kernel)\<lparr>nproc_max := 0, firstrun := False\<rparr>)) ''run'' \<noteq> 0 \<and>
   pid (svcmain (trystart Main ((init_state ex_kernel)\<lparr>nproc_max := 0, firstrun := False\<rparr>))) = 0 \<and>
   flagstatus (svcmain (trystart Main ((init_state ex_kernel)\<lparr>nproc_max := 0, firstrun := False\<rparr>))) =
     svstatus_running"
proof -
  have h: "nproc_max ((init_state ex_kernel)\<lparr>nproc_max := 0, firstrun := False\<rparr>) \<le>
             length (children ((init_state ex_kernel)\<lparr>nproc_max := 0, firstrun := False\<rparr>))"
    "pid (svcmain ((init_state ex_kernel)\<lparr>nproc_max := 0, firstrun := False\<rparr>)) = 0"
    "\<not> firstrun ((init_state ex_kernel)\<lparr>nproc_max := 0, firstrun := False\<rparr>)"
    "stat_exists (dirents ((init_state ex_kernel)\<lparr>nproc_max := 0, firstrun := False\<rparr>)) ''run'' \<noteq> 0"
    by (simp_all add: svcmain_init_def ex_kernel_def stat_exists_def ex_dir_def)
  show ?thesis using h Service.trystart_fork_failure_running_without_pid [OF h(1,2) disjI1 [OF h(3)] h(4)] by blast
qed

theorem trystop_after_ranstop_no_fork_witness:
  "ranstop (svc_of Main (ex_running\<lparr>svcmain := (svcmain ex_running)\<lparr>ranstop := True\<rparr>\<rparr>)) \<and>
   forks (trace (trystop Main (ex_running\<lparr>svcmain := (svcmain ex_running)\<lparr>ranstop := True\<rparr>\<rparr>))) = [] \<and>
   flagstatus (svc_of Main (trystop Main (ex_running\<lparr>svcmain := (svcmain ex_running)\<lparr>ranstop := True\<rparr>\<rparr>))) =
     svstatus_stopped"
proof -
  have h: "ranstop (svc_of Main (ex_running\<lparr>svcmain := (svcmain ex_running)\<lparr>ranstop := True\<rparr>\<rparr>))"
    by simp
  have t: "trace ex_running = []" by (simp add: ex_running_def init_state_def ex_kernel_def)
  show ?thesis using h Service.trystop_after_ranstop_no_fork [OF h] by (simp add: t)
qed

theorem trystop_runs_stop_notifies_start_witness:
  "\<not> ranstop (svcmain ((init_state ex_kernel)\<lparr>dirents := ex_stop_dir\<rparr>)) \<and>
   stat_isexec (dirents ((init_state ex_kernel)\<lparr>dirents := ex_stop_dir\<rparr>)) ''stop'' = 1 \<and>
   stat_isexec (dirents ((init_state ex_kernel)\<lparr>dirents := ex_stop_dir\<rparr>)) ''notify'' > 0 \<and>
   Suc (length (children ((init_state ex_kernel)\<lparr>dirents := ex_stop_dir\<rparr>))) <
     nproc_max ((init_state ex_kernel)\<lparr>dirents := ex_stop_dir\<rparr>) \<and>
   0 < nextpid ((init_state ex_kernel)\<lparr>dirents := ex_stop_dir\<rparr>) \<and>
   forks (trace (trystop Main ((init_state ex_kernel)\<lparr>dirents := ex_stop_dir\<rparr>))) =
     [(100, [Some ''./stop'']),
      (101, [Some ''./notify'', Some ''stop'', Some ''start'', Some (fmt_int_as_uint 100), Some ''0''])]"
proof -
  have h: "\<not> ranstop (svcmain ((init_state ex_kernel)\<lparr>dirents := ex_stop_dir\<rparr>))"
    "stat_isexec (dirents ((init_state ex_kernel)\<lparr>dirents := ex_stop_dir\<rparr>)) ''stop'' = 1"
    "stat_isexec (dirents ((init_state ex_kernel)\<lparr>dirents := ex_stop_dir\<rparr>)) ''notify'' > 0"
    "Suc (length (children ((init_state ex_kernel)\<lparr>dirents := ex_stop_dir\<rparr>))) <
       nproc_max ((init_state ex_kernel)\<lparr>dirents := ex_stop_dir\<rparr>)"
    "0 < nextpid ((init_state ex_kernel)\<lparr>dirents := ex_stop_dir\<rparr>)"
    by (simp_all add: svcmain_init_def init_state_def ex_kernel_def stat_isexec_def ex_stop_dir_def ex_dir_def)
  have e: "trace ((init_state ex_kernel)\<lparr>dirents := ex_stop_dir\<rparr>) = []"
     "nextpid ((init_state ex_kernel)\<lparr>dirents := ex_stop_dir\<rparr>) = 100"
    by (simp_all add: init_state_def ex_kernel_def)
  show ?thesis using h Service.trystop_runs_stop_notifies_start [OF h] by (simp only: e) simp
qed

theorem stopsvc_term_then_cont_witness:
  "pid (svc_of Main ex_running) \<noteq> 0 \<and> flagstatus (svc_of Main ex_running) \<noteq> svstatus_orphanage \<and>
   kills (trace (stopsvc Main (-1) ex_running)) = [(-100, SIGTERM), (-100, SIGCONT)] \<and>
   flagstatus (svc_of Main (stopsvc Main (-1) ex_running)) = svstatus_stopping"
proof -
  have h: "pid (svc_of Main ex_running) \<noteq> 0" "flagstatus (svc_of Main ex_running) \<noteq> svstatus_orphanage"
    by (simp_all add: ex_running_def)
  have t: "trace ex_running = []" "pid (svcmain ex_running) = 100"
    by (simp_all add: ex_running_def init_state_def ex_kernel_def)
  show ?thesis using h Service.stopsvc_term_then_cont [OF h, of "-1"] by (simp add: t)
qed

theorem controller_up_run_only_witness:
  "control ((init_state ex_kernel)\<lparr>control := ''u''\<rparr>) = ''u'' \<and>
   pid (svcmain ((init_state ex_kernel)\<lparr>control := ''u''\<rparr>)) = 0 \<and>
   stat_isexec (dirents ((init_state ex_kernel)\<lparr>control := ''u''\<rparr>)) ''start'' = 0 \<and>
   stat_exists (dirents ((init_state ex_kernel)\<lparr>control := ''u''\<rparr>)) ''run'' \<noteq> 0 \<and>
   length (children ((init_state ex_kernel)\<lparr>control := ''u''\<rparr>)) <
     nproc_max ((init_state ex_kernel)\<lparr>control := ''u''\<rparr>) \<and>
   0 < nextpid ((init_state ex_kernel)\<lparr>control := ''u''\<rparr>) \<and>
   length (status_bytes ((init_state ex_kernel)\<lparr>control := ''u''\<rparr>)) \<le>
     status_room ((init_state ex_kernel)\<lparr>control := ''u''\<rparr>) \<and>
   published_main (trace (controller ((init_state ex_kernel)\<lparr>control := ''u''\<rparr>))) =
     [svstatus_starting, svstatus_running] \<and>
   pid (svcmain (controller ((init_state ex_kernel)\<lparr>control := ''u''\<rparr>))) = 100"
proof -
  have h: "control ((init_state ex_kernel)\<lparr>control := ''u''\<rparr>) = ''u''"
    "pid (svcmain ((init_state ex_kernel)\<lparr>control := ''u''\<rparr>)) = 0"
    "stat_isexec (dirents ((init_state ex_kernel)\<lparr>control := ''u''\<rparr>)) ''start'' = 0"
    "stat_exists (dirents ((init_state ex_kernel)\<lparr>control := ''u''\<rparr>)) ''run'' \<noteq> 0"
    "length (children ((init_state ex_kernel)\<lparr>control := ''u''\<rparr>)) <
       nproc_max ((init_state ex_kernel)\<lparr>control := ''u''\<rparr>)"
    "0 < nextpid ((init_state ex_kernel)\<lparr>control := ''u''\<rparr>)"
    "length (status_bytes ((init_state ex_kernel)\<lparr>control := ''u''\<rparr>)) \<le>
       status_room ((init_state ex_kernel)\<lparr>control := ''u''\<rparr>)"
    by (simp_all add: svcmain_init_def init_state_def ex_kernel_def stat_isexec_def stat_exists_def
                      ex_dir_def length_status_bytes)
  have e: "trace ((init_state ex_kernel)\<lparr>control := ''u''\<rparr>) = []" "nextpid ex_kernel = 100"
    by (simp_all add: init_state_def ex_kernel_def)
  show ?thesis using h Controller.controller_up_run_only [OF h] by (simp add: e)
qed

theorem controller_up_without_scripts_witness:
  "control ((init_state ex_kernel)\<lparr>control := ''u'', dirents := ex_empty_dir\<rparr>) = ''u'' \<and>
   pid (svcmain ((init_state ex_kernel)\<lparr>control := ''u'', dirents := ex_empty_dir\<rparr>)) = 0 \<and>
   stat_isexec (dirents ((init_state ex_kernel)\<lparr>control := ''u'', dirents := ex_empty_dir\<rparr>)) ''start'' = 0 \<and>
   stat_exists (dirents ((init_state ex_kernel)\<lparr>control := ''u'', dirents := ex_empty_dir\<rparr>)) ''run'' = 0 \<and>
   \<not> flagwant (svcmain (controller ((init_state ex_kernel)\<lparr>control := ''u'', dirents := ex_empty_dir\<rparr>))) \<and>
   flagstatus (svcmain (controller ((init_state ex_kernel)\<lparr>control := ''u'', dirents := ex_empty_dir\<rparr>))) =
     svstatus_started"
proof -
  have h: "control ((init_state ex_kernel)\<lparr>control := ''u'', dirents := ex_empty_dir\<rparr>) = ''u''"
    "pid (svcmain ((init_state ex_kernel)\<lparr>control := ''u'', dirents := ex_empty_dir\<rparr>)) = 0"
    "stat_isexec (dirents ((init_state ex_kernel)\<lparr>control := ''u'', dirents := ex_empty_dir\<rparr>)) ''start'' = 0"
    "stat_exists (dirents ((init_state ex_kernel)\<lparr>control := ''u'', dirents := ex_empty_dir\<rparr>)) ''run'' = 0"
    by (simp_all add: svcmain_init_def stat_isexec_def stat_exists_def ex_empty_dir_def)
  show ?thesis using h Controller.controller_up_without_scripts [OF h] by blast
qed

theorem controller_log_up_without_log_witness:
  "control ((init_state ex_kernel)\<lparr>control := ''Lu''\<rparr>) = ''Lu'' \<and>
   \<not> haslog ((init_state ex_kernel)\<lparr>control := ''Lu''\<rparr>) \<and>
   pid (svclog ((init_state ex_kernel)\<lparr>control := ''Lu''\<rparr>)) = 0 \<and>
   length (children ((init_state ex_kernel)\<lparr>control := ''Lu''\<rparr>)) <
     nproc_max ((init_state ex_kernel)\<lparr>control := ''Lu''\<rparr>) \<and>
   0 < nextpid ((init_state ex_kernel)\<lparr>control := ''Lu''\<rparr>) \<and>
   pid (svclog (controller ((init_state ex_kernel)\<lparr>control := ''Lu''\<rparr>))) = 100 \<and>
   (\<exists>es. forks (trace (controller ((init_state ex_kernel)\<lparr>control := ''Lu''\<rparr>))) =
      (100, [Some ''./log'']) # es)"
proof -
  have h: "control ((init_state ex_kernel)\<lparr>control := ''Lu''\<rparr>) = ''Lu''"
    "\<not> haslog ((init_state ex_kernel)\<lparr>control := ''Lu''\<rparr>)"
    "pid (svclog ((init_state ex_kernel)\<lparr>control := ''Lu''\<rparr>)) = 0"
    "length (children ((init_state ex_kernel)\<lparr>control := ''Lu''\<rparr>)) <
       nproc_max ((init_state ex_kernel)\<lparr>control := ''Lu''\<rparr>)"
    "0 < nextpid ((init_state ex_kernel)\<lparr>control := ''Lu''\<rparr>)"
    by (simp_all add: svclog_init_def init_state_def ex_kernel_def)
  have e: "trace ((init_state ex_kernel)\<lparr>control := ''Lu''\<rparr>) = []" "nextpid ex_kernel = 100"
    by (simp_all add: init_state_def ex_kernel_def)
  show ?thesis using h Controller.controller_log_up_without_log [OF h] by (simp add: e)
qed

theorem controller_down_orphan_no_signal_witness:
  "control (ex_running\<lparr>control := ''d'', svcmain := (svcmain ex_running)\<lparr>flagstatus := svstatus_orphanage\<rparr>\<rparr>) = ''d'' \<and>
   pid (svcmain (ex_running\<lparr>control := ''d'', svcmain := (svcmain ex_running)\<lparr>flagstatus := svstatus_orphanage\<rparr>\<rparr>)) \<noteq> 0 \<and>
   flagstatus (svcmain (ex_running\<lparr>control := ''d'', svcmain := (svcmain ex_running)\<lparr>flagstatus := svstatus_orphanage\<rparr>\<rparr>)) =
     svstatus_orphanage \<and>
   kills (trace (controller (ex_running\<lparr>control := ''d'', svcmain := (svcmain ex_running)\<lparr>flagstatus := svstatus_orphanage\<rparr>\<rparr>))) = [] \<and>
   pid (svcmain (controller (ex_running\<lparr>control := ''d'', svcmain := (svcmain ex_running)\<lparr>flagstatus := svstatus_orphanage\<rparr>\<rparr>))) = 100"
proof -
  have h: "control (ex_running\<lparr>control := ''d'', svcmain := (svcmain ex_running)\<lparr>flagstatus := svstatus_orphanage\<rparr>\<rparr>) = ''d''"
    "pid (svcmain (ex_running\<lparr>control := ''d'', svcmain := (svcmain ex_running)\<lparr>flagstatus := svstatus_orphanage\<rparr>\<rparr>)) \<noteq> 0"
    "flagstatus (svcmain (ex_running\<lparr>control := ''d'', svcmain := (svcmain ex_running)\<lparr>flagstatus := svstatus_orphanage\<rparr>\<rparr>)) =
       svstatus_orphanage"
    by (simp_all add: ex_running_def)
  have e: "trace ex_running = []" "pid (svcmain ex_running) = 100"
    by (simp_all add: ex_running_def init_state_def ex_kernel_def)
  show ?thesis using h Controller.controller_down_orphan_no_signal [OF h] by (simp add: e)
qed

theorem controller_ignores_unknown_witness:
  "set (control (ex_running\<lparr>control := ''zZ!''\<rparr>)) \<inter> set ''+=Lldpuocxahktiq12w'' = {} \<and>
   controller (ex_running\<lparr>control := ''zZ!''\<rparr>) = ex_running"
proof -
  have h: "\<forall>ch \<in> set (control (ex_running\<lparr>control := ''zZ!''\<rparr>)). ch \<notin> set ''+=Lldpuocxahktiq12w''"
    by simp
  have e: "control ex_running = []" by (simp add: ex_running_def init_state_def ex_kernel_def)
  have "ex_running\<lparr>control := []\<rparr> = ex_running" using e by (cases ex_running) simp
  then show ?thesis using h Controller.controller_ignores_unknown [OF h] by simp
qed

theorem controller_pause_without_pid_witness:
  "control ((init_state ex_kernel)\<lparr>control := ''p''\<rparr>) = ''p'' \<and>
   pid (svcmain ((init_state ex_kernel)\<lparr>control := ''p''\<rparr>)) = 0 \<and>
   length (status_bytes ((init_state ex_kernel)\<lparr>control := ''p''\<rparr>)) \<le>
     status_room ((init_state ex_kernel)\<lparr>control := ''p''\<rparr>) \<and>
   flagpaused (svcmain (controller ((init_state ex_kernel)\<lparr>control := ''p''\<rparr>))) \<and>
   (\<exists>v. decode_status (status_record Main (statusfile (controller ((init_state ex_kernel)\<lparr>control := ''p''\<rparr>)))) =
          Some v \<and> \<not> sv_paused v)"
proof -
  have h: "control ((init_state ex_kernel)\<lparr>control := ''p''\<rparr>) = ''p''"
    "pid (svcmain ((init_state ex_kernel)\<lparr>control := ''p''\<rparr>)) = 0"
    "length (status_bytes ((init_state ex_kernel)\<lparr>control := ''p''\<rparr>)) \<le>
       status_room ((init_state ex_kernel)\<lparr>control := ''p''\<rparr>)"
    by (simp_all add: svcmain_init_def init_state_def ex_kernel_def length_status_bytes)
  show ?thesis using h Controller.controller_pause_without_pid [OF h] by blast
qed

theorem controller_after_terminate_witness:
  "control ex_running = [] \<and> flagexit (controller (terminate ex_running)) \<and>
   \<not> flagwantup (svcmain (controller (terminate ex_running)))"
proof -
  have h: "control ex_running = []" by (simp add: ex_running_def init_state_def ex_kernel_def)
  show ?thesis using h Controller.controller_after_terminate [OF h] by blast
qed

theorem reaper_start_success_runs_run_witness:
  "flagstatus (svcmain ex_starting) = svstatus_starting \<and> wstat_slot ex_starting = exited 0 \<and>
   \<not> flagexit ex_starting \<and> stat_exists (dirents ex_starting) ''run'' \<noteq> 0 \<and>
   Suc (length (children ex_starting)) < nproc_max ex_starting \<and> 0 < nextpid ex_starting \<and>
   length (status_bytes ex_starting) \<le> status_room ex_starting \<and>
   published_main (trace (reaper_exit Main 100 ex_starting)) = [svstatus_starting, svstatus_running] \<and>
   flagstatus (svcmain (reaper_exit Main 100 ex_starting)) = svstatus_running"
proof -
  have h: "flagstatus (svcmain ex_starting) = svstatus_starting" "wstat_slot ex_starting = exited 0"
    "\<not> flagexit ex_starting" "stat_exists (dirents ex_starting) ''run'' \<noteq> 0"
    "Suc (length (children ex_starting)) < nproc_max ex_starting" "0 < nextpid ex_starting"
    "length (status_bytes ex_starting) \<le> status_room ex_starting"
    by (simp_all add: ex_starting_def ex_exited_def ex_running_def init_state_def ex_kernel_def
                      stat_exists_def ex_dir_def length_status_bytes)
  have e: "trace ex_starting = []"
    by (simp add: ex_starting_def ex_exited_def ex_running_def init_state_def ex_kernel_def)
  show ?thesis using h Reaper.reaper_start_success_runs_run [OF h, of 100] by (simp add: e)
qed

theorem reaper_exit_100_no_restart_witness:
  "wstat_slot (ex_exited (exited 100)) = exited 100 \<and>
   list_all (\<lambda>x. hd (snd x) = Some ''./notify'') (forks (trace (reaper_exit Main 100 (ex_exited (exited 100)))))"
proof -
  have h: "wstat_slot (ex_exited (exited 100)) = exited 100" by (simp add: ex_exited_def)
  have e: "trace (ex_exited (exited 100)) = []"
    by (simp add: ex_exited_def ex_running_def init_state_def ex_kernel_def)
  show ?thesis using h Reaper.reaper_exit_100_no_restart [OF h, of Main 100] by (auto simp: e list_all_iff)
qed

theorem main_dirs_orphanage_log_fatal_witness:
  "dirents ((init_state ex_kernel)\<lparr>dirents := ex_orphan_log_dir\<rparr>) ''orphanage'' \<noteq> Noent \<and>
   stat_isexec (dirents ((init_state ex_kernel)\<lparr>dirents := ex_orphan_log_dir\<rparr>)) ''log'' > 0 \<and>
   io_subreaper ex_io \<and> io_logpipe ex_io \<and>
   main_dirs ex_io ((init_state ex_kernel)\<lparr>dirents := ex_orphan_log_dir\<rparr>) = Inl Orphan_log"
proof -
  have h: "dirents ((init_state ex_kernel)\<lparr>dirents := ex_orphan_log_dir\<rparr>) ''orphanage'' \<noteq> Noent"
    "stat_isexec (dirents ((init_state ex_kernel)\<lparr>dirents := ex_orphan_log_dir\<rparr>)) ''log'' > 0"
    "io_subreaper ex_io" "io_logpipe ex_io"
    by (simp_all add: ex_orphan_log_dir_def stat_isexec_def ex_io_def)
  show ?thesis using h Startup.main_dirs_orphanage_log_fatal [OF h] by blast
qed

theorem supervise_main_down_starts_nothing_witness:
  "length ex_argv = 2 \<and> setup_ok ex_io \<and>
   dirents ex_down_kernel ''down'' = Stat False False \<and> dirents ex_down_kernel ''orphanage'' = Noent \<and>
   stat_isexec (dirents ex_down_kernel) ''log'' \<le> 0 \<and>
   (\<exists>s. supervise_main ex_argv ex_io (init_state ex_down_kernel) = Inr s \<and> \<not> flagwantup (svcmain s) \<and>
        forks (trace s) = [])"
proof -
  have h: "length ex_argv = 2" "setup_ok ex_io"
    "dirents ex_down_kernel ''down'' = Stat False False" "dirents ex_down_kernel ''orphanage'' = Noent"
    "stat_isexec (dirents ex_down_kernel) ''log'' \<le> 0"
    by (simp_all add: ex_argv_def setup_ok_def ex_io_def ex_down_kernel_def ex_kernel_def ex_dir_def
                      stat_isexec_def)
  have e: "trace ex_down_kernel = []" by (simp add: ex_down_kernel_def ex_kernel_def)
  show ?thesis using h Startup.supervise_main_down_starts_nothing [OF h] by (auto simp: e)
qed

theorem supervise_main_success_holds_lock_witness:
  "(\<exists>s. supervise_main ex_argv ex_io (init_state ex_kernel) = Inr s) \<and> io_lock ex_io"
proof -
  obtain s where m: "supervise_main ex_argv ex_io (init_state ex_kernel) = Inr s"
    by (simp add: supervise_main_def main_dirs_def ex_argv_def ex_io_def ex_kernel_def ex_dir_def
                  stat_exists_def stat_isexec_def Let_def)
  show ?thesis using m Startup.supervise_main_success_holds_lock [OF m] by blast
qed

theorem supervise_main_starts_run_witness:
  "length ex_argv = 2 \<and> setup_ok ex_io \<and> dirents ex_kernel ''orphanage'' = Noent \<and>
   stat_isexec (dirents ex_kernel) ''log'' \<le> 0 \<and> dirents ex_kernel ''down'' = Noent \<and>
   stat_isexec (dirents ex_kernel) ''start'' = 0 \<and> stat_exists (dirents ex_kernel) ''run'' \<noteq> 0 \<and>
   length (children ex_kernel) < nproc_max ex_kernel \<and> 0 < nextpid ex_kernel \<and> 20 \<le> status_room ex_kernel \<and>
   (\<exists>s es. supervise_main ex_argv ex_io (init_state ex_kernel) = Inr s \<and>
      published_main (trace s) = [svstatus_stopped, svstatus_running] \<and> pid (svcmain s) = 100 \<and>
      forks (trace s) = (100, [Some ''./run'']) # es)"
proof -
  have h: "length ex_argv = 2" "setup_ok ex_io" "dirents ex_kernel ''orphanage'' = Noent"
    "stat_isexec (dirents ex_kernel) ''log'' \<le> 0" "dirents ex_kernel ''down'' = Noent"
    "stat_isexec (dirents ex_kernel) ''start'' = 0" "stat_exists (dirents ex_kernel) ''run'' \<noteq> 0"
    "length (children ex_kernel) < nproc_max ex_kernel" "0 < nextpid ex_kernel" "20 \<le> status_room ex_kernel"
    by (simp_all add: ex_argv_def setup_ok_def ex_io_def ex_kernel_def ex_dir_def stat_isexec_def
                      stat_exists_def)
  have e: "trace ex_kernel = []" "nextpid ex_kernel = 100" by (simp_all add: ex_kernel_def)
  show ?thesis using h Startup.supervise_main_starts_run [OF h] by (simp add: e) blast
qed

theorem controller_signal_single_witness:
  "control (ex_running\<lparr>control := ''t''\<rparr>) = [CHR ''t''] \<and> ctl_signal (CHR ''t'') = Some SIGTERM \<and>
   pid (svcmain (ex_running\<lparr>control := ''t''\<rparr>)) \<noteq> 0 \<and>
   flagstatus (svcmain (ex_running\<lparr>control := ''t''\<rparr>)) \<noteq> svstatus_orphanage \<and>
   kills (trace (controller (ex_running\<lparr>control := ''t''\<rparr>))) = [(100, SIGTERM)]"
proof -
  have h: "control (ex_running\<lparr>control := ''t''\<rparr>) = [CHR ''t'']" "ctl_signal (CHR ''t'') = Some SIGTERM"
    "pid (svcmain (ex_running\<lparr>control := ''t''\<rparr>)) \<noteq> 0"
    "flagstatus (svcmain (ex_running\<lparr>control := ''t''\<rparr>)) \<noteq> svstatus_orphanage"
    by (simp_all add: ex_running_def ctl_signal_def)
  have t: "trace ex_running = []" "pid (svcmain ex_running) = 100"
    by (simp_all add: ex_running_def init_state_def ex_kernel_def)
  show ?thesis using h Controller.controller_signal_single [OF h] by (simp add: t)
qed

theorem controller_signal_group_witness:
  "control (ex_running\<lparr>control := ''+k'', svcmain := (svcmain ex_running)\<lparr>flagstatus := svstatus_orphanage\<rparr>\<rparr>) =
     [CHR ''+'', CHR ''k''] \<and> ctl_signal (CHR ''k'') = Some SIGKILL \<and>
   pid (svcmain (ex_running\<lparr>control := ''+k'', svcmain := (svcmain ex_running)\<lparr>flagstatus := svstatus_orphanage\<rparr>\<rparr>)) \<noteq> 0 \<and>
   kills (trace (controller (ex_running\<lparr>control := ''+k'',
     svcmain := (svcmain ex_running)\<lparr>flagstatus := svstatus_orphanage\<rparr>\<rparr>))) = [(-100, SIGKILL)]"
proof -
  have h: "control (ex_running\<lparr>control := ''+k'', svcmain := (svcmain ex_running)\<lparr>flagstatus := svstatus_orphanage\<rparr>\<rparr>) =
             [CHR ''+'', CHR ''k'']" "ctl_signal (CHR ''k'') = Some SIGKILL"
    "pid (svcmain (ex_running\<lparr>control := ''+k'', svcmain := (svcmain ex_running)\<lparr>flagstatus := svstatus_orphanage\<rparr>\<rparr>)) \<noteq> 0"
    by (simp_all add: ex_running_def ctl_signal_def)
  have t: "trace ex_running = []" "pid (svcmain ex_running) = 100"
    by (simp_all add: ex_running_def init_state_def ex_kernel_def)
  show ?thesis using h Controller.controller_signal_group [OF h] by (simp add: t)
qed

theorem reaper_once_not_restarted_witness:
  "\<not> flagwant (svcmain ex_once) \<and> flagstatus (svcmain ex_once) \<noteq> svstatus_starting \<and>
   wstat_slot ex_once = exited 0 \<and> (0::nat) mod 256 \<noteq> 100 \<and> stat_isexec (dirents ex_once) ''stop'' \<noteq> 1 \<and>
   list_all (\<lambda>x. hd (snd x) = Some ''./notify'') (forks (trace (reaper_exit Main 100 ex_once))) \<and>
   flagstatus (svcmain (reaper_exit Main 100 ex_once)) = svstatus_stopped"
proof -
  have h: "\<not> flagwant (svcmain ex_once)" "flagstatus (svcmain ex_once) \<noteq> svstatus_starting"
    "wstat_slot ex_once = exited 0" "(0::nat) mod 256 \<noteq> 100" "stat_isexec (dirents ex_once) ''stop'' \<noteq> 1"
    by (simp_all add: ex_once_def ex_exited_def ex_running_def init_state_def ex_kernel_def
                      stat_isexec_def ex_dir_def)
  have e: "trace ex_once = []"
    by (simp add: ex_once_def ex_exited_def ex_running_def init_state_def ex_kernel_def)
  show ?thesis using h Reaper.reaper_once_not_restarted [OF h, of 100] by (auto simp: e list_all_iff)
qed

theorem reaper_orphanage_last_exit_witness:
  "flagorphanage ex_orphan \<and> children ex_orphan = [hd (children ex_orphan)] \<and>
   cpid (hd (children ex_orphan)) = pid (svcmain ex_orphan) \<and>
   cexit (hd (children ex_orphan)) = Some (exited 0) \<and> 0 < pid (svcmain ex_orphan) \<and>
   flagstatus (svcmain ex_orphan) \<noteq> svstatus_orphanage \<and>
   stat_isexec (dirents ex_orphan) ''notify'' > 0 \<and> 0 < nproc_max ex_orphan \<and> nextpid ex_orphan \<noteq> -1 \<and>
   length (status_bytes ex_orphan) \<le> status_room ex_orphan \<and>
   (\<exists>s' n cd es. reaper_loop ex_orphan = Some s' \<and>
      forks (trace s') = (101, [Some ''./notify'', Some ''run'', Some n, Some ''4294967295'', Some cd]) # es \<and>
      take 1 (published_main (trace s')) = [svstatus_orphanage])"
proof -
  have h: "flagorphanage ex_orphan" "children ex_orphan = [hd (children ex_orphan)]"
    "cpid (hd (children ex_orphan)) = pid (svcmain ex_orphan)"
    "cexit (hd (children ex_orphan)) = Some (exited 0)" "0 < pid (svcmain ex_orphan)"
    "flagstatus (svcmain ex_orphan) \<noteq> svstatus_orphanage"
    "stat_isexec (dirents ex_orphan) ''notify'' > 0" "0 < nproc_max ex_orphan" "nextpid ex_orphan \<noteq> -1"
    "length (status_bytes ex_orphan) \<le> status_room ex_orphan"
    by (simp_all add: ex_orphan_def ex_exited_def ex_running_def init_state_def ex_kernel_def
                      stat_isexec_def ex_dir_def length_status_bytes)
  have e: "trace ex_orphan = []" "nextpid ex_orphan = 101" "runscript ex_orphan = Some ''./run''"
    by (simp_all add: ex_orphan_def ex_exited_def ex_running_def init_state_def ex_kernel_def)
  show ?thesis using h Reaper.reaper_orphanage_last_exit [OF h] by (simp add: e)
qed

theorem controller_refines_want_pass_witness:
  "stat_exists (dirents (ex_running\<lparr>control := ''uLdo''\<rparr>)) ''run'' \<noteq> 0 \<and>
   wants_of (controller (ex_running\<lparr>control := ''uLdo''\<rparr>)) Main = (True, True) \<and>
   wants_of (controller (ex_running\<lparr>control := ''uLdo''\<rparr>)) Log = (False, False)"
proof -
  have h: "stat_exists (dirents (ex_running\<lparr>control := ''uLdo''\<rparr>)) ''run'' \<noteq> 0"
    by (simp add: ex_running_def init_state_def ex_kernel_def stat_exists_def ex_dir_def)
  have w: "wants_of (ex_running\<lparr>control := ''uLdo''\<rparr>) = (\<lambda>w. if w = Main then (True, True) else (True, False))"
  proof (rule ext)
    fix w show "wants_of (ex_running\<lparr>control := ''uLdo''\<rparr>) w = (if w = Main then (True, True) else (True, False))"
      by (cases w) (simp_all add: wants_of_def abs_want_def ex_running_def svcmain_init_def svclog_init_def)
  qed
  show ?thesis using h Controller_Refinement.controller_refines_want_pass [OF h]
    by (simp add: w want_pass_def)
qed

theorem terminate_iteration_stops_main_witness:
  "control ex_running = [] \<and> control_nlink ex_running \<noteq> 0 \<and> pid (svcmain ex_running) = 100 \<and>
   flagstatus (svcmain ex_running) = svstatus_running \<and> children ex_running \<noteq> [] \<and>
   list_all (\<lambda>c. cexit c = None) (children ex_running) \<and>
   (\<exists>s'. sys_step ex_running (terminate ex_running) \<and> sys_step (terminate ex_running) s' \<and>
         kills (trace s') = [(100, SIGTERM), (100, SIGCONT)] \<and> flagexit s' \<and>
         flagstatus (svcmain s') = svstatus_stopping)"
proof -
  have h: "control ex_running = []" "control_nlink ex_running \<noteq> 0" "pid (svcmain ex_running) = 100"
    "flagstatus (svcmain ex_running) = svstatus_running" "children ex_running \<noteq> []"
    "list_all (\<lambda>c. cexit c = None) (children ex_running)" "kills (trace ex_running) = []"
    by (simp_all add: ex_running_def init_state_def ex_kernel_def)
  show ?thesis
    using h Iteration.terminate_iteration_stops_main [OF h(1,2) _ _ h(5,6)] by auto
qed

text \<open>The example directory starts successfully.\<close>

lemma ex_kernel_ok: "kernel_ok ex_kernel"
  by (simp add: kernel_ok_def ex_kernel_def)

lemma ex_start: "\<exists>s. supervise_main ex_argv ex_io (init_state ex_kernel) = Inr s"
  by (simp add: supervise_main_def main_dirs_def ex_argv_def ex_io_def ex_kernel_def ex_dir_def
                stat_exists_def stat_isexec_def Let_def)

lemma ex_start_facts:
  "\<exists>s. supervise_main ex_argv ex_io (init_state ex_kernel) = Inr s \<and>
     map cpid (children s) = [100, 101] \<and> list_all (\<lambda>c. cexit c = None) (children s) \<and>
     pid (svcmain s) = 100 \<and> pid (svclog s) = 0 \<and> \<not> flagexit s \<and> \<not> flagorphanage s \<and>
     control s = [] \<and> flagstatus (svcmain s) = svstatus_running \<and> control_nlink s = 1 \<and>
     dirents s = ex_dir"
  by (simp add: supervise_main_def main_dirs_def ex_argv_def ex_io_def ex_kernel_def ex_dir_def
                stat_exists_def stat_isexec_def Let_def start_both_def trystart_def trystart_fork_def
                forkexecve_def sys_fork_def forked_def new_child_def main_open_def pidchange_def
                init_state_def svcmain_init_def svclog_init_def split_def notify_def deepsleep_def)

theorem reachable_pids_witness:
  "kernel_ok ex_kernel \<and>
   (\<exists>s. supervise_main ex_argv ex_io (init_state ex_kernel) = Inr s \<and> reachable (announce s) \<and>
        0 \<le> pid (svcmain (announce s)) \<and> pid (svcmain (announce s)) < nextpid (announce s))"
proof -
  have k: "kernel_ok ex_kernel" by (rule ex_kernel_ok)
  obtain s where m: "supervise_main ex_argv ex_io (init_state ex_kernel) = Inr s"
    using ex_start by blast
  have r: "reachable (announce s)" by (rule reachable.start [OF k m])
  show ?thesis using k m r Invariant.reachable_pids [OF r] by blast
qed

theorem reachable_services_owned_witness:
  "kernel_ok ex_kernel \<and>
   (\<exists>s. supervise_main ex_argv ex_io (init_state ex_kernel) = Inr s \<and> reachable (announce s) \<and>
        \<not> flagorphanage (announce s) \<and>
        flagstatus (svcmain (announce s)) \<noteq> svstatus_orphanage \<and>
        (pid (svcmain (announce s)) = 0 \<or>
           pid (svcmain (announce s)) \<in> cpid ` set (children (announce s))))"
proof -
  have k: "kernel_ok ex_kernel" by (rule ex_kernel_ok)
  obtain s where m: "supervise_main ex_argv ex_io (init_state ex_kernel) = Inr s"
    using ex_start by blast
  have r: "reachable (announce s)" by (rule reachable.start [OF k m])
  obtain s2 where d: "main_dirs ex_io (init_state ex_kernel) = Inr s2"
    and s: "s = start_both (pidchange Main None 0 0 (main_open s2))"
    using supervise_main_Inr [OF m] by blast
  have "\<not> flagorphanage s2"
    using d by (auto simp: main_dirs_def Let_def init_state_def ex_kernel_def ex_dir_def stat_exists_def
                     split: if_splits stat_result.splits)
  moreover have "same_env s2 (announce s)"
    unfolding s
    by (rule same_env_trans [OF same_env_trans [OF same_env_trans [OF main_open_env pidchange_env]
               start_both_env] announce_env])
  ultimately have o: "\<not> flagorphanage (announce s)" by (simp add: same_env_def)
  show ?thesis using k m r o Ownership.reachable_services_owned [OF r o] by blast
qed

theorem reachable_log_status_witness:
  "kernel_ok ex_kernel \<and>
   (\<exists>s. supervise_main ex_argv ex_io (init_state ex_kernel) = Inr s \<and> reachable (announce s) \<and>
        flagstatus (svclog (announce s)) \<in>
          {svstatus_stopped, svstatus_running, svstatus_stopping, svstatus_failed})"
proof -
  have k: "kernel_ok ex_kernel" by (rule ex_kernel_ok)
  obtain s where m: "supervise_main ex_argv ex_io (init_state ex_kernel) = Inr s"
    using ex_start by blast
  have r: "reachable (announce s)" by (rule reachable.start [OF k m])
  show ?thesis using k m r Log_Status.reachable_log_status [OF r] by blast
qed

text \<open>
  The example service started, asked to terminate (\<open>SIGTERM\<close>), one iteration
  later stopping with the exit flag set, and its process then killed.
\<close>

theorem reachable_exiting_finishes_witness:
  "\<exists>s. reachable s \<and> flagexit s \<and> \<not> flagorphanage s \<and> control s = [] \<and>
       stat_isexec (dirents s) ''stop'' \<noteq> 1 \<and>
       list_all (\<lambda>c. cexit c \<noteq> None)
         (filter (\<lambda>c. cpid c \<in> {pid (svcmain s), pid (svclog s)}) (children s)) \<and>
       pid (svcmain s) = 100 \<and>
       (\<exists>s' es. rtranclp sys_step s s' \<and> doit_done s' \<and> trace s' = trace s @ es \<and>
                list_all (\<lambda>x. hd (snd x) = Some ''./notify'') (forks es))"
proof -
  obtain s0 where m: "supervise_main ex_argv ex_io (init_state ex_kernel) = Inr s0"
    and f: "map cpid (children s0) = [100, 101]" "list_all (\<lambda>c. cexit c = None) (children s0)"
      "pid (svcmain s0) = 100" "pid (svclog s0) = 0" "\<not> flagexit s0" "\<not> flagorphanage s0"
      "control s0 = []" "flagstatus (svcmain s0) = svstatus_running" "control_nlink s0 = 1"
      "dirents s0 = ex_dir"
    using ex_start_facts by (elim exE conjE) (rule that; assumption)
  have r0: "reachable (announce s0)" by (rule reachable.start [OF ex_kernel_ok m])
  define t1 where "t1 = terminate (announce s0)"
  have r1: "reachable t1"
    unfolding t1_def by (rule reachable.step [OF r0 sys_step.env [OF env_step.sig_terminate]])
  define u where "u = t1\<lparr>selfpipe := 0\<rparr>"
  have u: "control u = ''dx''" "children u = children s0" "svcmain u = svcmain s0" "svclog u = svclog s0"
    "control_nlink u = 1" "flagorphanage u = flagorphanage s0" "dirents u = dirents s0" "\<not> flagexit u"
    using f by (simp_all add: u_def t1_def terminate_def control_write_def selfpipe_write_def)
  have cs: "children s0 \<noteq> []" using f(1) by auto
  have ru: "reaper_loop u = Some u" using reaper_loop_quiet [of u] u f(2,8) cs by simp
  have ku: "kill_on_unlink u = u" using u(5) by (simp add: kill_on_unlink_def)
  define t2 where "t2 = controller u"
  have t2: "flagexit t2" "control t2 = []" "children t2 = children s0" "pid (svcmain t2) = 100"
    "pid (svclog t2) = 0" "\<not> flagorphanage t2" "dirents t2 = ex_dir"
    "flagstatus (svcmain t2) = svstatus_stopping"
    using controller_dx [OF u(1)] u f
    by (simp_all add: t2_def ctl_down_def stopsvc_def killsvc_def sys_kill_def Let_def)
  have "doit_iter t1 = Some t2"
    using ru ku t2(8) by (simp add: doit_iter_def u_def [symmetric] t2_def [symmetric] stop_log_on_exit_def)
  moreover have "\<not> doit_done t1" using u(8) by (simp add: doit_done_def u_def)
  ultimately have r2: "reachable t2" using r1 by (blast intro: reachable.step sys_step.iter)
  define t3 where "t3 = trigger (t2\<lparr>children := (children t2)[0 := (children t2 ! 0)\<lparr>cexit := Some (killed_by 15)\<rparr>]\<rparr>)"
  have "0 < length (children t2)" "cexit (children t2 ! 0) = None"
    using t2(3) f(1,2) cs by (auto simp: list_all_iff)
  then have r3: "reachable t3"
    unfolding t3_def by (blast intro: reachable.step [OF r2] sys_step.env env_step.child_exit)
  obtain c0 c1 where c01: "children s0 = [c0, c1]" "cpid c0 = 100" "cpid c1 = 101"
    using f(1) by (auto simp: map_eq_Cons_conv)
  then have "children t3 = [c0\<lparr>cexit := Some (killed_by 15)\<rparr>, c1]"
    using t2(3) by (simp add: t3_def trigger_def selfpipe_write_def)
  moreover have h: "flagexit t3" "\<not> flagorphanage t3" "control t3 = []"
    "stat_isexec (dirents t3) ''stop'' \<noteq> 1" "pid (svcmain t3) = 100" "pid (svclog t3) = 0"
    using t2 by (simp_all add: t3_def trigger_def selfpipe_write_def stat_isexec_def ex_dir_def)
  ultimately have h6: "list_all (\<lambda>c. cexit c \<noteq> None)
         (filter (\<lambda>c. cpid c \<in> {pid (svcmain t3), pid (svclog t3)}) (children t3))"
    using c01 by simp
  show ?thesis
    using Shutdown.reachable_exiting_finishes [OF r3 h(1-4) h6] r3 h h6 by blast
qed

theorem reachable_iteration_returns_witness:
  "kernel_ok ex_kernel \<and>
   (\<exists>s s'. supervise_main ex_argv ex_io (init_state ex_kernel) = Inr s \<and> reachable (announce s) \<and>
           doit_iter (announce s) = Some s')"
proof -
  have k: "kernel_ok ex_kernel" by (rule ex_kernel_ok)
  obtain s where m: "supervise_main ex_argv ex_io (init_state ex_kernel) = Inr s"
    using ex_start by blast
  have r: "reachable (announce s)" by (rule reachable.start [OF k m])
  show ?thesis using k m r Invariant.reachable_iteration_returns [OF r] by blast
qed

end
